(* ===== verification/Aep_Prelude.thy ===== *)
theory Aep_Prelude
  imports Main "HOL-Library.Char_ord" "HOL-Library.List_Lexorder" "HOL-Library.Word"
begin

text \<open>
  Shared vocabulary of the development: Go strings as byte strings (one \<^typ>\<open>char\<close> per byte),
  the parts of Go's standard library that several components use (\<^verbatim>\<open>unicode/utf8\<close>,
  \<^verbatim>\<open>strings\<close>, \<^verbatim>\<open>encoding/base64\<close>, \<^verbatim>\<open>encoding/hex\<close>,
  \<^verbatim>\<open>strconv\<close>, \<^verbatim>\<open>encoding/json\<close> string escaping), and the generic lemmas
  about them. Byte strings are ordered lexicographically by byte value, which is the order of Go's
  \<^verbatim>\<open><\<close>, \<^verbatim>\<open>sort.Strings\<close> and \<^verbatim>\<open>slices.Sort\<close> on strings.
\<close>

named_theorems go_simps \<open>unfolding rules for the model of Go's library\<close>

text \<open>Instants and durations are counted in nanoseconds, as \<^verbatim>\<open>time.Duration\<close> is.\<close>

type_synonym time = int
type_synonym duration = int

abbreviation second :: duration where "second \<equiv> 1000000000"
abbreviation minute :: duration where "minute \<equiv> 60 * second"
abbreviation hour :: duration where "hour \<equiv> 60 * minute"

section \<open>Bytes and runes\<close>

definition byte :: "char \<Rightarrow> nat" where
  "byte c = of_char c"

lemma byte_less [simp]: "byte c < 256"
  by (simp add: byte_def)

lemma char_of_byte [simp]: "char_of (byte c) = c"
  by (simp add: byte_def)

lemma byte_char_of [simp]: "n < 256 \<Longrightarrow> byte (char_of n) = n"
  by (simp add: byte_def)

lemma byte_eq_iff [simp]: "byte a = byte b \<longleftrightarrow> a = b"
  by (simp add: byte_def)

definition is_lower :: "char \<Rightarrow> bool" where
  "is_lower c \<longleftrightarrow> 97 \<le> byte c \<and> byte c \<le> 122"

definition is_upper :: "char \<Rightarrow> bool" where
  "is_upper c \<longleftrightarrow> 65 \<le> byte c \<and> byte c \<le> 90"

definition is_digit :: "char \<Rightarrow> bool" where
  "is_digit c \<longleftrightarrow> 48 \<le> byte c \<and> byte c \<le> 57"

definition is_alnum :: "char \<Rightarrow> bool" where
  "is_alnum c \<longleftrightarrow> is_lower c \<or> is_upper c \<or> is_digit c"

text \<open>\<^verbatim>\<open>utf8.DecodeRuneInString\<close>: the rune at the front of a string and its width;
  an invalid encoding gives \<^verbatim>\<open>utf8.RuneError\<close> (65533) of width one.\<close>

definition cont_byte :: "char \<Rightarrow> bool" where
  "cont_byte c \<longleftrightarrow> 128 \<le> byte c \<and> byte c < 192"

definition decode_rune :: "string \<Rightarrow> nat \<times> nat" where
  "decode_rune s =
     (case s of
        [] \<Rightarrow> (65533, 0)
      | a # s1 \<Rightarrow>
         (let x = byte a in
          if x < 128 then (x, 1)
          else if x < 194 \<or> x > 244 then (65533, 1)
          else
           (case s1 of
              [] \<Rightarrow> (65533, 1)
            | b # s2 \<Rightarrow>
               (let y = byte b;
                    lo = (if x = 224 then 160 else if x = 240 then 144 else 128);
                    hi = (if x = 237 then 159 else if x = 244 then 143 else 191) in
                if y < lo \<or> y > hi then (65533, 1)
                else if x < 224 then ((x - 192) * 64 + (y - 128), 2)
                else
                 (case s2 of
                    [] \<Rightarrow> (65533, 1)
                  | c # s3 \<Rightarrow>
                     (if \<not> cont_byte c then (65533, 1)
                      else if x < 240 then ((x - 224) * 4096 + (y - 128) * 64 + (byte c - 128), 3)
                      else
                       (case s3 of
                          [] \<Rightarrow> (65533, 1)
                        | d # _ \<Rightarrow>
                           (if \<not> cont_byte d then (65533, 1)
                            else ((x - 240) * 262144 + (y - 128) * 4096 + (byte c - 128) * 64 + (byte d - 128), 4)))))))))"

lemma decode_rune_width_pos: "s \<noteq> [] \<Longrightarrow> 0 < snd (decode_rune s)"
  by (auto simp: decode_rune_def Let_def split: list.splits)

lemma decode_rune_width_le: "snd (decode_rune s) \<le> length s"
  by (auto simp: decode_rune_def Let_def split: list.splits)

text \<open>The runes a \<^verbatim>\<open>range\<close> loop over a string visits.\<close>

function runes :: "string \<Rightarrow> nat list" where
  "runes s = (if s = [] then [] else fst (decode_rune s) # runes (drop (snd (decode_rune s)) s))"
  by pat_completeness auto
termination
  by (relation "measure length") (simp_all add: decode_rune_width_pos)

declare runes.simps [simp del]

lemma runes_Nil [simp]: "runes [] = []"
  by (simp add: runes.simps)

lemma runes_ascii_Cons:
  assumes "byte c < 128"
  shows "runes (c # s) = byte c # runes s"
  using assms by (subst runes.simps) (simp add: decode_rune_def)

lemma runes_ascii:
  "\<forall>c \<in> set s. byte c < 128 \<Longrightarrow> runes s = map byte s"
  by (induction s) (auto simp: runes_ascii_Cons)

text \<open>\<^verbatim>\<open>utf8.RuneCountInString\<close>.\<close>

definition rune_count :: "string \<Rightarrow> nat" where
  "rune_count s = length (runes s)"

lemma rune_count_ascii: "\<forall>c \<in> set s. byte c < 128 \<Longrightarrow> rune_count s = length s"
  by (simp add: rune_count_def runes_ascii)

lemma rune_count_le: "rune_count s \<le> length s"
proof (induction s rule: runes.induct)
  case (1 s)
  show ?case
  proof (cases "s = []")
    case False
    then have IH: "length (runes (drop (snd (decode_rune s)) s)) \<le> length s - snd (decode_rune s)"
      using "1.IH" by (simp add: rune_count_def)
    have "0 < snd (decode_rune s)" and "snd (decode_rune s) \<le> length s"
      using False decode_rune_width_pos decode_rune_width_le by auto
    with IH False show ?thesis
      by (subst rune_count_def, subst runes.simps) simp
  qed (simp add: rune_count_def)
qed

section \<open>Package strings\<close>

text \<open>
  \<^verbatim>\<open>strings.TrimSpace\<close> removes Unicode white space at both ends. A white-space rune is
  one of six ASCII bytes or one of the two- and three-byte encodings below; the trailing search
  looks at the same encodings backwards.
\<close>

definition space1 :: "char \<Rightarrow> bool" where
  "space1 a \<longleftrightarrow> byte a \<in> {9, 10, 11, 12, 13, 32}"

definition space2 :: "char \<Rightarrow> char \<Rightarrow> bool" where
  "space2 a b \<longleftrightarrow> byte a = 194 \<and> (byte b = 133 \<or> byte b = 160)"

definition space3 :: "char \<Rightarrow> char \<Rightarrow> char \<Rightarrow> bool" where
  "space3 a b c \<longleftrightarrow>
     (byte a = 225 \<and> byte b = 154 \<and> byte c = 128)
   \<or> (byte a = 226 \<and> byte b = 128 \<and> (byte c \<le> 138 \<and> 128 \<le> byte c \<or> byte c \<in> {168, 169, 175}))
   \<or> (byte a = 226 \<and> byte b = 129 \<and> byte c = 159)
   \<or> (byte a = 227 \<and> byte b = 128 \<and> byte c = 128)"

fun trim_left :: "string \<Rightarrow> string" where
  "trim_left (a # b # c # s) =
     (if space1 a then trim_left (b # c # s)
      else if space2 a b then trim_left (c # s)
      else if space3 a b c then trim_left s
      else a # b # c # s)"
| "trim_left [a, b] =
     (if space1 a then trim_left [b] else if space2 a b then [] else [a, b])"
| "trim_left [a] = (if space1 a then [] else [a])"
| "trim_left [] = []"

fun trim_rev :: "string \<Rightarrow> string" where
  "trim_rev (a # b # c # s) =
     (if space1 a then trim_rev (b # c # s)
      else if space2 b a then trim_rev (c # s)
      else if space3 c b a then trim_rev s
      else a # b # c # s)"
| "trim_rev [a, b] =
     (if space1 a then trim_rev [b] else if space2 b a then [] else [a, b])"
| "trim_rev [a] = (if space1 a then [] else [a])"
| "trim_rev [] = []"

definition trim_right :: "string \<Rightarrow> string" where
  "trim_right s = rev (trim_rev (rev s))"

definition trim_space :: "string \<Rightarrow> string" where
  "trim_space s = trim_right (trim_left s)"

lemma trim_space_Nil [simp]: "trim_space [] = []"
  by (simp add: trim_space_def trim_right_def)

lemma trim_left_idem [simp]: "trim_left (trim_left s) = trim_left s"
  by (induction s rule: trim_left.induct) auto

lemma trim_rev_idem [simp]: "trim_rev (trim_rev s) = trim_rev s"
  by (induction s rule: trim_rev.induct) auto

lemma trim_rev_suffix: "\<exists>p. s = p @ trim_rev s"
proof (induction s rule: trim_rev.induct)
  case (1 a b c s)
  then show ?case
    by (auto split: if_splits) (metis Cons_eq_appendI append_Nil)+
qed auto

lemma trim_right_prefix: "\<exists>p. s = trim_right s @ p"
  using trim_rev_suffix [of "rev s"] unfolding trim_right_def
  by (metis rev_append rev_rev_ident)

lemma length_trim_left: "length (trim_left s) \<le> length s"
  by (induction s rule: trim_left.induct) auto

lemma trim_left_prefix_fixed:
  assumes "trim_left (xs @ ys) = xs @ ys"
  shows "trim_left xs = xs"
proof (cases xs rule: trim_left.cases)
  case (1 a b c s)
  show ?thesis
  proof (rule ccontr)
    assume "trim_left xs \<noteq> xs"
    with 1 have sp: "space1 a \<or> space2 a b \<or> space3 a b c" by (auto split: if_splits)
    have "length (trim_left (xs @ ys)) < length (xs @ ys)"
      using sp 1 length_trim_left [of "b # c # s @ ys"] length_trim_left [of "c # s @ ys"]
        length_trim_left [of "s @ ys"]
      by (auto simp: less_Suc_eq_le)
    with assms show False by simp
  qed
next
  case (2 a b)
  show ?thesis
  proof (rule ccontr)
    assume "trim_left xs \<noteq> xs"
    with 2 have sp: "space1 a \<or> space2 a b" by (auto split: if_splits)
    have "length (trim_left (xs @ ys)) < length (xs @ ys)"
      using sp 2 length_trim_left [of "b # ys"] length_trim_left [of ys]
      by (cases ys) (auto simp: less_Suc_eq_le)
    with assms show False by simp
  qed
next
  case (3 a)
  show ?thesis
  proof (rule ccontr)
    assume "trim_left xs \<noteq> xs"
    with 3 have sp: "space1 a" by (auto split: if_splits)
    have "length (trim_left (xs @ ys)) < length (xs @ ys)"
      using sp 3 length_trim_left [of ys]
      by (cases ys rule: trim_left.cases) (auto simp: less_Suc_eq_le split: if_splits)
    with assms show False by simp
  qed
qed simp

lemma trim_space_idem [simp]: "trim_space (trim_space s) = trim_space s"
proof -
  obtain p where p: "trim_left s = trim_right (trim_left s) @ p"
    using trim_right_prefix by blast
  have "trim_left (trim_right (trim_left s) @ p) = trim_right (trim_left s) @ p"
    by (metis p trim_left_idem)
  then have "trim_left (trim_right (trim_left s)) = trim_right (trim_left s)"
    by (rule trim_left_prefix_fixed)
  then show ?thesis
    by (simp add: trim_space_def trim_right_def)
qed

lemma length_trim_space: "length (trim_space s) \<le> length s"
proof -
  obtain p where "trim_left s = trim_right (trim_left s) @ p"
    using trim_right_prefix by blast
  then have "length (trim_right (trim_left s)) \<le> length (trim_left s)"
    by (metis le_add1 length_append)
  then show ?thesis
    using length_trim_left [of s] by (simp add: trim_space_def)
qed

text \<open>\<^verbatim>\<open>strings.Trim(s, cutset)\<close> for a cutset of one byte, and its two halves.\<close>

definition trim_byte_left :: "char \<Rightarrow> string \<Rightarrow> string" where
  "trim_byte_left c s = dropWhile (\<lambda>x. x = c) s"

definition trim_byte_right :: "char \<Rightarrow> string \<Rightarrow> string" where
  "trim_byte_right c s = rev (dropWhile (\<lambda>x. x = c) (rev s))"

definition trim_byte :: "char \<Rightarrow> string \<Rightarrow> string" where
  "trim_byte c s = trim_byte_right c (trim_byte_left c s)"

lemma set_trim_byte: "set (trim_byte c s) \<subseteq> set s"
  by (auto simp: trim_byte_def trim_byte_left_def trim_byte_right_def dest!: set_dropWhileD)

lemma length_trim_byte: "length (trim_byte c s) \<le> length s"
  by (simp add: trim_byte_def trim_byte_left_def trim_byte_right_def
      order_trans [OF length_dropWhile_le])

lemma trim_byte_right_last: "trim_byte_right c s \<noteq> [] \<Longrightarrow> last (trim_byte_right c s) \<noteq> c"
  using hd_dropWhile [of "\<lambda>x. x = c" "rev s"] by (auto simp: trim_byte_right_def last_rev)

lemma trim_byte_right_hd:
  assumes "s \<noteq> []" and "hd s \<noteq> c"
  shows "trim_byte_right c s \<noteq> []" and "hd (trim_byte_right c s) = hd s"
proof -
  obtain x xs where s: "s = x # xs" and "x \<noteq> c" using assms by (cases s) auto
  have "dropWhile (\<lambda>y. y = c) (rev xs @ [x]) = dropWhile (\<lambda>y. y = c) (rev xs) @ [x]"
    using \<open>x \<noteq> c\<close> by (induction "rev xs" rule: list.induct)
      (auto simp: dropWhile_append3 dropWhile_append1 dropWhile_append2 dropWhile_append)
  then show "trim_byte_right c s \<noteq> []" and "hd (trim_byte_right c s) = hd s"
    by (simp_all add: trim_byte_right_def s)
qed

lemma trim_byte_hd: "trim_byte c s \<noteq> [] \<Longrightarrow> hd (trim_byte c s) \<noteq> c"
proof -
  assume ne: "trim_byte c s \<noteq> []"
  let ?l = "trim_byte_left c s"
  have "?l \<noteq> []" using ne by (auto simp: trim_byte_def trim_byte_right_def)
  moreover from this have "hd ?l \<noteq> c"
    using hd_dropWhile unfolding trim_byte_left_def by blast
  ultimately show ?thesis
    using trim_byte_right_hd(2) by (simp add: trim_byte_def)
qed

lemma trim_byte_last: "trim_byte c s \<noteq> [] \<Longrightarrow> last (trim_byte c s) \<noteq> c"
  by (simp add: trim_byte_def trim_byte_right_last)

text \<open>\<^verbatim>\<open>strings.HasPrefix\<close>, \<^verbatim>\<open>strings.Cut\<close> and
  \<^verbatim>\<open>strings.Join\<close>.\<close>

definition has_prefix :: "string \<Rightarrow> string \<Rightarrow> bool" where
  "has_prefix s p \<longleftrightarrow> take (length p) s = p"

definition has_suffix :: "string \<Rightarrow> string \<Rightarrow> bool" where
  "has_suffix s p \<longleftrightarrow> has_prefix (rev s) (rev p)"

lemma has_prefix_append [simp]: "has_prefix (p @ s) p"
  by (simp add: has_prefix_def)

lemma has_prefix_iff: "has_prefix s p \<longleftrightarrow> (\<exists>r. s = p @ r)"
  by (metis append_eq_conv_conj append_take_drop_id has_prefix_def)

lemma has_prefix_Nil: "has_prefix s []" by (simp add: has_prefix_def)
lemma has_prefix_Nil_Cons: "\<not> has_prefix [] (c # p)" by (simp add: has_prefix_def)
lemma has_prefix_Cons: "has_prefix (c # s) (d # p) \<longleftrightarrow> c = d \<and> has_prefix s p" by (auto simp: has_prefix_def)

lemma has_prefix_until:
  "c \<notin> set p \<Longrightarrow> has_prefix (a @ c # r) p \<longleftrightarrow> has_prefix a p"
proof (induction a arbitrary: p)
  case Nil then show ?case by (cases p) (auto simp: has_prefix_def)
next
  case (Cons x a) then show ?case by (cases p) (auto simp: has_prefix_def)
qed

lemma has_prefix_sep:
  assumes "c \<notin> set a" "c \<notin> set q"
  shows "has_prefix (a @ c # r) (q @ c # p) \<longleftrightarrow> a = q \<and> has_prefix r p"
  using assms
proof (induction a arbitrary: q)
  case Nil then show ?case by (cases q) (auto simp: has_prefix_def)
next
  case (Cons x a) then show ?case by (cases q) (auto simp: has_prefix_def)
qed

fun cut_byte :: "char \<Rightarrow> string \<Rightarrow> string \<times> string \<times> bool" where
  "cut_byte c [] = ([], [], False)"
| "cut_byte c (x # xs) =
     (if x = c then ([], xs, True)
      else case cut_byte c xs of (before, after, found) \<Rightarrow> (x # before, after, found))"

fun join :: "string \<Rightarrow> string list \<Rightarrow> string" where
  "join sep [] = []"
| "join sep [x] = x"
| "join sep (x # y # xs) = x @ sep @ join sep (y # xs)"

text \<open>\<^verbatim>\<open>strings.Contains\<close>.\<close>

fun str_contains :: "string \<Rightarrow> string \<Rightarrow> bool" where
  "str_contains [] sub = (sub = [])"
| "str_contains (c # s) sub = (has_prefix (c # s) sub \<or> str_contains s sub)"

fun split_byte :: "char \<Rightarrow> string \<Rightarrow> string list" where
  "split_byte c [] = [[]]"
| "split_byte c (x # xs) =
     (if x = c then [] # split_byte c xs
      else case split_byte c xs of [] \<Rightarrow> [[x]] | y # ys \<Rightarrow> (x # y) # ys)"

lemma split_byte_nonempty [simp]: "split_byte c s \<noteq> []"
  by (induction s) (auto split: list.splits)

lemma split_join:
  assumes "xs \<noteq> []" and "\<forall>x \<in> set xs. c \<notin> set x"
  shows "split_byte c (join [c] xs) = xs"
  using assms
proof (induction "[c]" xs rule: join.induct)
  case (2 x)
  then show ?case by (induction x) auto
next
  case (3 x y xs)
  have "split_byte c (w @ c # r) = w # split_byte c r" if "c \<notin> set w" for w r
    using that by (induction w) auto
  with 3 show ?case by simp
qed simp

text \<open>A separator that occurs in neither left part splits a string in one way only.\<close>

lemma sep_inject:
  assumes "c \<notin> set a" "c \<notin> set b" "a @ c # x = b @ c # y"
  shows "a = b \<and> x = y"
proof -
  have t: "takeWhile (\<lambda>z. z \<noteq> c) (w @ c # r) = w" if "c \<notin> set w" for w r
    using that by (induction w) auto
  from assms have "a = b" by (metis t)
  with assms(3) show ?thesis by simp
qed

text \<open>ASCII lower case. \<^verbatim>\<open>strings.ToLower\<close> agrees with it on ASCII strings.\<close>

definition lower_char :: "char \<Rightarrow> char" where
  "lower_char c = (if is_upper c then char_of (byte c + 32) else c)"

definition to_lower :: "string \<Rightarrow> string" where
  "to_lower s = map lower_char s"

text \<open>
  The runes of \<^verbatim>\<open>strings.ToLower(s)\<close> as far as ASCII is concerned: an ASCII capital
  becomes its small letter, U+0130 and U+212A are the only other runes whose lower case is ASCII
  (\<^verbatim>\<open>i\<close> and \<^verbatim>\<open>k\<close>), and every other rune stays outside ASCII.
\<close>

definition lower_rune :: "nat \<Rightarrow> nat" where
  "lower_rune r =
     (if 65 \<le> r \<and> r \<le> 90 then r + 32 else if r = 304 then 105 else if r = 8490 then 107 else r)"

definition lower_runes :: "string \<Rightarrow> nat list" where
  "lower_runes s = map lower_rune (runes s)"

definition slug_rune :: "nat \<Rightarrow> bool" where
  "slug_rune r \<longleftrightarrow> (97 \<le> r \<and> r \<le> 122) \<or> (48 \<le> r \<and> r \<le> 57)"

definition slug_char :: "char \<Rightarrow> bool" where
  "slug_char c \<longleftrightarrow> is_lower c \<or> is_digit c"

lemma slug_char_of: "slug_rune r \<Longrightarrow> slug_char (char_of r)"
  by (auto simp: slug_rune_def slug_char_def is_lower_def is_digit_def)

lemma slug_rune_byte: "slug_char c \<Longrightarrow> slug_rune (byte c)"
  by (auto simp: slug_rune_def slug_char_def is_lower_def is_digit_def)

lemma slug_char_not_dash: "slug_char c \<Longrightarrow> c \<noteq> CHR ''-''"
  by (auto simp: slug_char_def is_lower_def is_digit_def byte_def)

lemma dash_not_slug_rune: "\<not> slug_rune (byte (CHR ''-''))" "byte (CHR ''-'') = 45"
  by (simp_all add: slug_rune_def byte_def)

lemma lower_runes_slug:
  assumes "\<forall>c \<in> set s. slug_char c \<or> c = CHR ''-''"
  shows "lower_runes s = map byte s"
proof -
  have "byte c < 128 \<and> lower_rune (byte c) = byte c" if "c \<in> set s" for c
    using assms that
    by (auto simp: slug_char_def is_lower_def is_digit_def lower_rune_def dash_not_slug_rune)
  then show ?thesis by (simp add: lower_runes_def runes_ascii)
qed

text \<open>
  \<^verbatim>\<open>strings.ToLower\<close> on any string: ASCII capitals are lowered, every other rune goes
  through the Unicode case table, which is the parameter \<open>unicode\<close>; the runes are written back
  in UTF-8.
\<close>

definition encode_rune :: "nat \<Rightarrow> string" where
  "encode_rune r =
     (if r < 128 then [char_of r]
      else if r < 2048 then [char_of (192 + r div 64), char_of (128 + r mod 64)]
      else if r < 65536 then [char_of (224 + r div 4096), char_of (128 + r div 64 mod 64), char_of (128 + r mod 64)]
      else [char_of (240 + r div 262144), char_of (128 + r div 4096 mod 64), char_of (128 + r div 64 mod 64),
            char_of (128 + r mod 64)])"

definition go_lower :: "(nat \<Rightarrow> nat) \<Rightarrow> string \<Rightarrow> string" where
  "go_lower unicode s =
     concat (map (\<lambda>r. encode_rune (if r < 128 then (if 65 \<le> r \<and> r \<le> 90 then r + 32 else r) else unicode r)) (runes s))"

lemma go_lower_ascii:
  assumes "\<forall>c \<in> set s. byte c < 128"
  shows "go_lower unicode s = to_lower s"
proof -
  have "[char_of (if 65 \<le> byte c \<and> byte c \<le> 90 then byte c + 32 else byte c)] = [lower_char c]"
    if "byte c < 128" for c
    using that by (simp add: lower_char_def is_upper_def)
  then show ?thesis
    using assms by (induction s)
      (auto simp: go_lower_def runes_ascii_Cons encode_rune_def to_lower_def)
qed

section \<open>Package base64\<close>

text \<open>The unpadded URL alphabet (\<^verbatim>\<open>base64.RawURLEncoding\<close>) and the standard one.\<close>

definition b64_digit :: "char \<Rightarrow> char \<Rightarrow> nat \<Rightarrow> char" where
  "b64_digit c62 c63 n =
     (if n < 26 then char_of (65 + n)
      else if n < 52 then char_of (71 + n)
      else if n < 62 then char_of (n - 4)
      else if n = 62 then c62 else c63)"

definition b64_value :: "char \<Rightarrow> char \<Rightarrow> char \<Rightarrow> nat option" where
  "b64_value c62 c63 c =
     (if is_upper c then Some (byte c - 65)
      else if is_lower c then Some (byte c - 71)
      else if is_digit c then Some (byte c + 4)
      else if c = c62 then Some 62
      else if c = c63 then Some 63 else None)"

fun b64_encode :: "(nat \<Rightarrow> char) \<Rightarrow> string \<Rightarrow> string" where
  "b64_encode e (a # b # c # s) =
     e (byte a div 4) # e (byte a mod 4 * 16 + byte b div 16) #
     e (byte b mod 16 * 4 + byte c div 64) # e (byte c mod 64) # b64_encode e s"
| "b64_encode e [a, b] =
     [e (byte a div 4), e (byte a mod 4 * 16 + byte b div 16), e (byte b mod 16 * 4)]"
| "b64_encode e [a] = [e (byte a div 4), e (byte a mod 4 * 16)]"
| "b64_encode e [] = []"

text \<open>The decoder reads quanta of four digits; a last quantum of two or three digits yields one
  or two bytes, a single left-over digit is an error, unused trailing bits are ignored.\<close>

fun b64_decode_digits :: "nat list \<Rightarrow> string option" where
  "b64_decode_digits (w # x # y # z # s) =
     (case b64_decode_digits s of
        None \<Rightarrow> None
      | Some r \<Rightarrow> Some (char_of (w * 4 + x div 16) # char_of (x mod 16 * 16 + y div 4)
                       # char_of (y mod 4 * 64 + z) # r))"
| "b64_decode_digits [w, x, y] = Some [char_of (w * 4 + x div 16), char_of (x mod 16 * 16 + y div 4)]"
| "b64_decode_digits [w, x] = Some [char_of (w * 4 + x div 16)]"
| "b64_decode_digits [w] = None"
| "b64_decode_digits [] = Some []"

definition strip_newlines :: "string \<Rightarrow> string" where
  "strip_newlines s = filter (\<lambda>c. byte c \<noteq> 10 \<and> byte c \<noteq> 13) s"

fun values_of :: "(char \<Rightarrow> nat option) \<Rightarrow> string \<Rightarrow> nat list option" where
  "values_of v [] = Some []"
| "values_of v (c # s) =
     (case v c of None \<Rightarrow> None
      | Some n \<Rightarrow> (case values_of v s of None \<Rightarrow> None | Some ns \<Rightarrow> Some (n # ns)))"

abbreviation url_digit :: "nat \<Rightarrow> char" where
  "url_digit \<equiv> b64_digit (CHR ''-'') (CHR ''_'')"

abbreviation url_value :: "char \<Rightarrow> nat option" where
  "url_value \<equiv> b64_value (CHR ''-'') (CHR ''_'')"

abbreviation std_value :: "char \<Rightarrow> nat option" where
  "std_value \<equiv> b64_value (CHR ''+'') (CHR ''/'')"

definition base64url :: "string \<Rightarrow> string" where
  "base64url s = b64_encode url_digit s"

definition base64url_decode :: "string \<Rightarrow> string option" where
  "base64url_decode s =
     (case values_of url_value (strip_newlines s) of None \<Rightarrow> None | Some ns \<Rightarrow> b64_decode_digits ns)"

text \<open>\<^verbatim>\<open>base64.StdEncoding.DecodeString\<close>: whole padded quanta.\<close>

definition base64std_decode :: "string \<Rightarrow> string option" where
  "base64std_decode s =
     (let t = strip_newlines s;
          body = (if has_suffix t ''=='' then take (length t - 2) t
                  else if has_suffix t ''='' then take (length t - 1) t else t) in
      if length t mod 4 \<noteq> 0 then None
      else case values_of std_value body of None \<Rightarrow> None | Some ns \<Rightarrow> b64_decode_digits ns)"

text \<open>How the six-bit digits split and recombine.\<close>

lemma byte_digit_bounds:
  "byte a div 4 < 64" "byte c mod 64 < 64"
  "byte a mod 4 * 16 < 64" "byte b mod 16 * 4 < 64"
  "byte a mod 4 * 16 + byte b div 16 < 64"
  "byte b mod 16 * 4 + byte c div 64 < 64"
proof -
  have "byte b div 16 < 16" "byte c div 64 < 4"
    using byte_less [of b] byte_less [of c] by linarith+
  moreover have "byte a mod 4 \<le> 3" "byte b mod 16 \<le> 15" by simp_all
  ultimately show "byte a div 4 < 64" "byte c mod 64 < 64"
    "byte a mod 4 * 16 < 64" "byte b mod 16 * 4 < 64"
    "byte a mod 4 * 16 + byte b div 16 < 64"
    "byte b mod 16 * 4 + byte c div 64 < 64"
    using byte_less [of a] by linarith+
qed

lemma byte_digit_split:
  "(m * 16 + byte b div 16) div 16 = m" "(m * 16 + byte b div 16) mod 16 = byte b div 16"
  "(m * 4 + byte c div 64) div 4 = m" "(m * 4 + byte c div 64) mod 4 = byte c div 64"
proof -
  have "byte b div 16 < 16" "byte c div 64 < 4"
    using byte_less [of b] byte_less [of c] by linarith+
  then show "(m * 16 + byte b div 16) div 16 = m" "(m * 16 + byte b div 16) mod 16 = byte b div 16"
    "(m * 4 + byte c div 64) div 4 = m" "(m * 4 + byte c div 64) mod 4 = byte c div 64"
    by simp_all
qed

lemma byte_digit_join:
  "byte b div 16 mod 16 * 16 + byte b mod 16 = byte b"
  "byte c div 64 mod 4 * 64 + byte c mod 64 = byte c"
proof -
  have "byte b div 16 < 16" "byte c div 64 < 4"
    using byte_less [of b] byte_less [of c] by linarith+
  then show "byte b div 16 mod 16 * 16 + byte b mod 16 = byte b"
    "byte c div 64 mod 4 * 64 + byte c mod 64 = byte c"
    by simp_all
qed

lemma url_value_digit [simp]: "n < 64 \<Longrightarrow> url_value (url_digit n) = Some n"
  by (auto simp: b64_digit_def b64_value_def is_upper_def is_lower_def is_digit_def)
    (simp_all add: byte_def)

lemma url_digit_plain:
  "n < 64 \<Longrightarrow> is_alnum (url_digit n) \<or> url_digit n = CHR ''-'' \<or> url_digit n = CHR ''_''"
  by (auto simp: b64_digit_def is_alnum_def is_upper_def is_lower_def is_digit_def)

lemma base64url_alphabet:
  "c \<in> set (base64url s) \<Longrightarrow> is_alnum c \<or> c = CHR ''-'' \<or> c = CHR ''_''"
  unfolding base64url_def
proof (induction url_digit s rule: b64_encode.induct)
  case (1 a b c' s)
  then have "(\<exists>n < 64. c = url_digit n) \<or> c \<in> set (b64_encode url_digit s)"
    by simp (metis byte_digit_bounds)
  with 1 url_digit_plain show ?case by blast
next
  case (2 a b)
  then have "\<exists>n < 64. c = url_digit n" by simp (metis byte_digit_bounds)
  with url_digit_plain show ?case by blast
next
  case (3 a)
  then have "\<exists>n < 64. c = url_digit n" by simp (metis byte_digit_bounds)
  with url_digit_plain show ?case by blast
qed simp

lemma strip_newlines_base64url [simp]: "strip_newlines (base64url s) = base64url s"
  using base64url_alphabet [of _ s]
  by (fastforce simp: strip_newlines_def filter_id_conv is_alnum_def is_lower_def is_upper_def
      is_digit_def byte_def)

lemma b64_decode_encode:
  assumes "\<And>n. n < 64 \<Longrightarrow> v (e n) = Some n"
  shows "\<exists>ns. values_of v (b64_encode e s) = Some ns \<and> b64_decode_digits ns = Some s"
  using assms by (induction e s rule: b64_encode.induct)
    (auto simp: byte_digit_bounds byte_digit_split byte_digit_join)

lemma base64url_decode_digits:
  "\<exists>ns. values_of url_value (b64_encode url_digit s) = Some ns \<and> b64_decode_digits ns = Some s"
  by (rule b64_decode_encode) simp

lemma base64url_roundtrip [simp]: "base64url_decode (base64url s) = Some s"
  using base64url_decode_digits [of s]
  by (auto simp: base64url_decode_def) (simp add: base64url_def)

lemma base64url_inj [simp]: "base64url s = base64url t \<longleftrightarrow> s = t"
  by (metis base64url_roundtrip option.inject)

lemma base64url_no_special:
  assumes "\<not> is_alnum c" and "c \<noteq> CHR ''-''" and "c \<noteq> CHR ''_''"
  shows "c \<notin> set (base64url s)"
  using assms base64url_alphabet by blast

text \<open>The unpadded standard alphabet (\<^verbatim>\<open>base64.RawStdEncoding\<close>).\<close>

abbreviation std_digit :: "nat \<Rightarrow> char" where
  "std_digit \<equiv> b64_digit (CHR ''+'') (CHR ''/'')"

definition base64rawstd :: "string \<Rightarrow> string" where
  "base64rawstd s = b64_encode std_digit s"

definition base64rawstd_decode :: "string \<Rightarrow> string option" where
  "base64rawstd_decode s =
     (case values_of std_value (strip_newlines s) of None \<Rightarrow> None | Some ns \<Rightarrow> b64_decode_digits ns)"

lemma std_value_digit [simp]: "n < 64 \<Longrightarrow> std_value (std_digit n) = Some n"
  by (auto simp: b64_digit_def b64_value_def is_upper_def is_lower_def is_digit_def)
    (simp_all add: byte_def)

lemma std_digit_plain:
  "n < 64 \<Longrightarrow> is_alnum (std_digit n) \<or> std_digit n = CHR ''+'' \<or> std_digit n = CHR ''/''"
  by (auto simp: b64_digit_def is_alnum_def is_upper_def is_lower_def is_digit_def)

lemma base64rawstd_alphabet:
  "c \<in> set (base64rawstd s) \<Longrightarrow> is_alnum c \<or> c = CHR ''+'' \<or> c = CHR ''/''"
  unfolding base64rawstd_def
proof (induction std_digit s rule: b64_encode.induct)
  case (1 a b c' s)
  then have "(\<exists>n < 64. c = std_digit n) \<or> c \<in> set (b64_encode std_digit s)"
    by simp (metis byte_digit_bounds)
  with 1 std_digit_plain show ?case by blast
next
  case (2 a b)
  then have "\<exists>n < 64. c = std_digit n" by simp (metis byte_digit_bounds)
  with std_digit_plain show ?case by blast
next
  case (3 a)
  then have "\<exists>n < 64. c = std_digit n" by simp (metis byte_digit_bounds)
  with std_digit_plain show ?case by blast
qed simp

lemma strip_newlines_base64rawstd [simp]: "strip_newlines (base64rawstd s) = base64rawstd s"
  using base64rawstd_alphabet [of _ s]
  by (fastforce simp: strip_newlines_def filter_id_conv is_alnum_def is_lower_def is_upper_def
      is_digit_def byte_def)

lemma base64rawstd_roundtrip [simp]: "base64rawstd_decode (base64rawstd s) = Some s"
  using b64_decode_encode [of std_value std_digit s]
  by (auto simp: base64rawstd_decode_def) (simp add: base64rawstd_def)

text \<open>\<^verbatim>\<open>base64.StdEncoding\<close> pads to whole quanta.\<close>

definition base64std :: "string \<Rightarrow> string" where
  "base64std s = (let raw = base64rawstd s in raw @ replicate ((4 - length raw mod 4) mod 4) (CHR ''=''))"

lemma length_b64_encode_mod: "length (b64_encode e s) mod 4 \<noteq> 1"
  by (induction e s rule: b64_encode.induct) simp_all

lemma has_suffix_notin: "c \<notin> set s \<Longrightarrow> \<not> has_suffix s (p @ [c])"
  by (auto simp: has_suffix_def has_prefix_def) (metis list.set_intros(1) set_rev set_take_subset subsetD)

lemma base64std_roundtrip [simp]: "base64std_decode (base64std s) = Some s"
proof -
  let ?r = "base64rawstd s"
  have eq: "CHR ''='' \<notin> set ?r"
    using base64rawstd_alphabet by (fastforce simp: is_alnum_def is_lower_def is_upper_def is_digit_def byte_def)
  have dec: "(case values_of std_value ?r of None \<Rightarrow> None | Some ns \<Rightarrow> b64_decode_digits ns) = Some s"
    using base64rawstd_roundtrip [of s] unfolding base64rawstd_decode_def by simp
  have sn: "strip_newlines (?r @ replicate n (CHR ''='')) = ?r @ replicate n (CHR ''='')" for n
    using strip_newlines_base64rawstd [of s] unfolding strip_newlines_def by (simp add: byte_def)
  have "length ?r mod 4 \<noteq> 1" unfolding base64rawstd_def by (rule length_b64_encode_mod)
  moreover have "length ?r mod 4 < 4" by simp
  ultimately consider "length ?r mod 4 = 0" | "length ?r mod 4 = 2" | "length ?r mod 4 = 3" by linarith
  then show ?thesis
  proof cases
    case 1
    have "\<not> has_suffix ?r ''==''" "\<not> has_suffix ?r ''=''"
      using has_suffix_notin [OF eq, of "''=''"] has_suffix_notin [OF eq, of "[]"] by simp_all
    with 1 dec sn [of 0] show ?thesis by (simp add: base64std_def base64std_decode_def Let_def)
  next
    case 2
    then have "has_suffix (?r @ ''=='') ''==''" "(length ?r + 2) mod 4 = 0" by (simp_all add: has_suffix_def has_prefix_def) presburger
    with 2 dec sn [of 2] show ?thesis by (simp add: base64std_def base64std_decode_def Let_def numeral_2_eq_2)
  next
    case 3
    have "\<not> has_suffix (?r @ ''='') ''==''" using eq by (cases "rev ?r") (auto simp: has_suffix_def has_prefix_def)
    moreover have "has_suffix (?r @ ''='') ''=''" "(length ?r + 1) mod 4 = 0" using 3 by (simp_all add: has_suffix_def has_prefix_def) presburger
    ultimately show ?thesis using 3 dec sn [of 1] by (simp add: base64std_def base64std_decode_def Let_def)
  qed
qed

text \<open>Go's truncating integer division.\<close>

definition go_div :: "int \<Rightarrow> int \<Rightarrow> int" where
  "go_div a b = sgn a * sgn b * (\<bar>a\<bar> div \<bar>b\<bar>)"

lemma go_div_nonneg: "0 \<le> a \<Longrightarrow> 0 < b \<Longrightarrow> go_div a b = a div b"
  by (cases "a = 0") (simp_all add: go_div_def)

section \<open>Hexadecimal and decimal digits\<close>

definition hex_digit :: "nat \<Rightarrow> char" where
  "hex_digit n = (if n < 10 then char_of (48 + n) else char_of (87 + n))"

text \<open>\<^verbatim>\<open>hex.EncodeToString\<close>.\<close>

definition hex :: "string \<Rightarrow> string" where
  "hex s = concat (map (\<lambda>c. [hex_digit (byte c div 16), hex_digit (byte c mod 16)]) s)"

definition is_hex :: "char \<Rightarrow> bool" where
  "is_hex c \<longleftrightarrow> is_digit c \<or> (97 \<le> byte c \<and> byte c \<le> 102)"

lemma length_hex [simp]: "length (hex s) = 2 * length s"
  by (induction s) (simp_all add: hex_def)

lemma is_hex_digit: "n < 16 \<Longrightarrow> is_hex (hex_digit n)"
  by (auto simp: hex_digit_def is_hex_def is_digit_def)

lemma hex_alphabet: "c \<in> set (hex s) \<Longrightarrow> is_hex c"
proof -
  assume "c \<in> set (hex s)"
  then obtain x where "c = hex_digit (byte x div 16) \<or> c = hex_digit (byte x mod 16)"
    by (auto simp: hex_def)
  moreover have "byte x div 16 < 16" "byte x mod 16 < 16"
    using byte_less [of x] by (linarith, simp)
  ultimately show ?thesis using is_hex_digit by auto
qed

lemma hex_digit_inj: "m < 16 \<Longrightarrow> n < 16 \<Longrightarrow> hex_digit m = hex_digit n \<Longrightarrow> m = n"
proof -
  assume m: "m < 16" and n: "n < 16" and e: "hex_digit m = hex_digit n"
  have b: "byte (hex_digit k) = (if k < 10 then 48 + k else 87 + k)" if "k < 16" for k
    using that by (simp add: hex_digit_def)
  from e have "byte (hex_digit m) = byte (hex_digit n)" by simp
  with b [OF m] b [OF n] m n show "m = n" by (simp split: if_splits)
qed

lemma hex_inj [simp]: "hex s = hex t \<longleftrightarrow> s = t"
proof
  show "hex s = hex t \<Longrightarrow> s = t"
  proof (induction s arbitrary: t)
    case Nil
    then show ?case by (cases t) (simp_all add: hex_def)
  next
    case (Cons a s)
    then obtain b t' where t: "t = b # t'" by (cases t) (simp_all add: hex_def)
    have d: "byte c div 16 < 16" for c using byte_less [of c] by linarith
    from Cons.prems t have "hex_digit (byte a div 16) = hex_digit (byte b div 16)"
      "hex_digit (byte a mod 16) = hex_digit (byte b mod 16)" "hex s = hex t'"
      by (simp_all add: hex_def)
    then have "byte a div 16 = byte b div 16" "byte a mod 16 = byte b mod 16" "s = t'"
      using Cons.IH by (simp_all add: hex_digit_inj d)
    then show ?case using t by (metis byte_eq_iff div_mult_mod_eq)
  qed
qed simp

text \<open>\<^verbatim>\<open>strconv.Itoa\<close> on non-negative and on signed numbers.\<close>

fun show_nat :: "nat \<Rightarrow> string" where
  "show_nat n = (if n < 10 then [char_of (48 + n)] else show_nat (n div 10) @ [char_of (48 + n mod 10)])"

declare show_nat.simps [simp del]

definition itoa :: "int \<Rightarrow> string" where
  "itoa i = (if i < 0 then ''-'' @ show_nat (nat (- i)) else show_nat (nat i))"

definition decimal_value :: "string \<Rightarrow> nat" where
  "decimal_value s = foldl (\<lambda>v c. v * 10 + (byte c - 48)) 0 s"

lemma digit_chars [simp]:
  "char_of (48 :: nat) = CHR ''0''" "char_of (49 :: nat) = CHR ''1''" "char_of (50 :: nat) = CHR ''2''"
  "char_of (51 :: nat) = CHR ''3''" "char_of (52 :: nat) = CHR ''4''" "char_of (53 :: nat) = CHR ''5''"
  "char_of (54 :: nat) = CHR ''6''" "char_of (55 :: nat) = CHR ''7''" "char_of (56 :: nat) = CHR ''8''"
  "char_of (57 :: nat) = CHR ''9''"
  by code_simp+

lemma letter_chars [simp]:
  "char_of (65 :: nat) = CHR ''A''" "char_of (66 :: nat) = CHR ''B''" "char_of (67 :: nat) = CHR ''C''"
  "char_of (68 :: nat) = CHR ''D''" "char_of (69 :: nat) = CHR ''E''" "char_of (70 :: nat) = CHR ''F''"
  "char_of (71 :: nat) = CHR ''G''" "char_of (72 :: nat) = CHR ''H''" "char_of (73 :: nat) = CHR ''I''"
  "char_of (74 :: nat) = CHR ''J''" "char_of (75 :: nat) = CHR ''K''" "char_of (76 :: nat) = CHR ''L''"
  "char_of (77 :: nat) = CHR ''M''" "char_of (78 :: nat) = CHR ''N''" "char_of (79 :: nat) = CHR ''O''"
  "char_of (80 :: nat) = CHR ''P''" "char_of (81 :: nat) = CHR ''Q''" "char_of (82 :: nat) = CHR ''R''"
  "char_of (83 :: nat) = CHR ''S''" "char_of (84 :: nat) = CHR ''T''" "char_of (85 :: nat) = CHR ''U''"
  "char_of (86 :: nat) = CHR ''V''" "char_of (87 :: nat) = CHR ''W''" "char_of (88 :: nat) = CHR ''X''"
  "char_of (89 :: nat) = CHR ''Y''" "char_of (90 :: nat) = CHR ''Z''" "char_of (97 :: nat) = CHR ''a''"
  "char_of (98 :: nat) = CHR ''b''" "char_of (99 :: nat) = CHR ''c''" "char_of (100 :: nat) = CHR ''d''"
  "char_of (101 :: nat) = CHR ''e''" "char_of (102 :: nat) = CHR ''f''" "char_of (103 :: nat) = CHR ''g''"
  "char_of (104 :: nat) = CHR ''h''" "char_of (105 :: nat) = CHR ''i''" "char_of (106 :: nat) = CHR ''j''"
  "char_of (107 :: nat) = CHR ''k''" "char_of (108 :: nat) = CHR ''l''" "char_of (109 :: nat) = CHR ''m''"
  "char_of (110 :: nat) = CHR ''n''" "char_of (111 :: nat) = CHR ''o''" "char_of (112 :: nat) = CHR ''p''"
  "char_of (113 :: nat) = CHR ''q''" "char_of (114 :: nat) = CHR ''r''" "char_of (115 :: nat) = CHR ''s''"
  "char_of (116 :: nat) = CHR ''t''" "char_of (117 :: nat) = CHR ''u''" "char_of (118 :: nat) = CHR ''v''"
  "char_of (119 :: nat) = CHR ''w''" "char_of (120 :: nat) = CHR ''x''" "char_of (121 :: nat) = CHR ''y''"
  "char_of (122 :: nat) = CHR ''z''"
  by (simp_all add: char_of_def bit_iff_odd)

lemma show_nat_digits: "c \<in> set (show_nat n) \<Longrightarrow> is_digit c"
proof (induction n rule: show_nat.induct)
  case (1 n)
  have "byte (char_of (48 + n mod 10)) = 48 + n mod 10" by (rule byte_char_of) simp
  with 1 show ?case
    by (subst (asm) (2) show_nat.simps) (auto simp: is_digit_def split: if_splits)
qed

lemma decimal_value_show [simp]: "decimal_value (show_nat n) = n"
proof (induction n rule: show_nat.induct)
  case (1 n)
  have "byte (char_of (48 + n mod 10)) = 48 + n mod 10" by (rule byte_char_of) simp
  with 1 show ?case
    by (subst show_nat.simps) (auto simp: decimal_value_def)
qed

lemma show_nat_inj [simp]: "show_nat m = show_nat n \<longleftrightarrow> m = n"
  by (metis decimal_value_show)

lemma show_nat_nonempty [simp]: "show_nat n \<noteq> []"
  by (subst show_nat.simps) simp

end
