(* ===== verification/Identifiers.thy ===== *)
theory Identifiers
  imports Aep_Prelude
begin

text \<open>
  Identifiers the control service derives and accepts:
  \<^verbatim>\<open>httpapi/identifier_slug.go\<close> (\<^verbatim>\<open>slugFor\<close>,
  \<^verbatim>\<open>uniqueIdentifier\<close>) and \<^verbatim>\<open>httpapi/skill_validation.go\<close> (Skill and
  version identifiers, the object key of a package).
\<close>

section \<open>Slugs\<close>

fun slug_loop :: "nat list \<Rightarrow> bool \<Rightarrow> string \<Rightarrow> string" where
  "slug_loop [] previousDash builder = builder"
| "slug_loop (r # rs) previousDash builder =
     (if slug_rune r then slug_loop rs False (builder @ [char_of r])
      else if \<not> previousDash then slug_loop rs True (builder @ ''-'')
      else slug_loop rs previousDash builder)"

definition slugFor :: "string \<Rightarrow> string" where
  "slugFor name =
     (let slug = trim_byte (CHR ''-'') (slug_loop (lower_runes name) True []) in
      if length slug > 40 then trim_byte (CHR ''-'') (take 40 slug) else slug)"

text \<open>
  \<^verbatim>\<open>uniqueIdentifier\<close>: the probe answers whether a candidate is taken or fails with a
  database error; \<open>tail\<close> is the outcome of \<^verbatim>\<open>rand.Read\<close> (four bytes or an error).
\<close>

fun suffix_loop :: "string \<Rightarrow> (string \<Rightarrow> 'e + bool) \<Rightarrow> nat \<Rightarrow> nat \<Rightarrow> 'e + string option" where
  "suffix_loop base exists suffix 0 = Inr None"
| "suffix_loop base exists suffix (Suc k) =
     (case exists (base @ ''-'' @ show_nat suffix) of
        Inl e \<Rightarrow> Inl e
      | Inr taken \<Rightarrow>
          if \<not> taken then Inr (Some (base @ ''-'' @ show_nat suffix))
          else suffix_loop base exists (Suc suffix) k)"

definition uniqueIdentifier :: "string \<Rightarrow> string \<Rightarrow> (string \<Rightarrow> 'e + bool) \<Rightarrow> ('e + string) \<Rightarrow> 'e + string" where
  "uniqueIdentifier base0 fallbackKind exists tail =
     (let base = (if base0 = [] then fallbackKind else base0) in
      case exists base of
        Inl e \<Rightarrow> Inl e
      | Inr taken \<Rightarrow>
          if \<not> taken then Inr base
          else
           (case suffix_loop base exists 2 98 of
              Inl e \<Rightarrow> Inl e
            | Inr (Some candidate) \<Rightarrow> Inr candidate
            | Inr None \<Rightarrow>
                (case tail of
                   Inl e \<Rightarrow> Inl e
                 | Inr bytes \<Rightarrow> Inr (base @ ''-'' @ hex bytes))))"

definition generateIdentifier :: "(string \<Rightarrow> string \<Rightarrow> 'e + bool) \<Rightarrow> ('e + string) \<Rightarrow> string \<Rightarrow> string \<Rightarrow> 'e + string" where
  "generateIdentifier identifierExists tail kind name =
     uniqueIdentifier (slugFor name) kind (identifierExists kind) tail"

section \<open>Skill identifiers\<close>

text \<open>The two patterns accept a first and a last alphanumeric byte around a bounded middle.\<close>

definition bounded_ident :: "nat \<Rightarrow> (char \<Rightarrow> bool) \<Rightarrow> string \<Rightarrow> bool" where
  "bounded_ident maxMiddle mid s \<longleftrightarrow>
     s \<noteq> [] \<and> is_alnum (hd s) \<and>
     (length s = 1 \<or> (length s \<le> maxMiddle + 2 \<and> is_alnum (last s) \<and> list_all mid (butlast (tl s))))"

definition validSkillIdentifier :: "string \<Rightarrow> bool" where
  "validSkillIdentifier value = bounded_ident 62 (\<lambda>c. is_alnum c \<or> c \<in> set ''._-'') value"

definition validSkillVersionIdentifier :: "string \<Rightarrow> bool" where
  "validSkillVersionIdentifier value = bounded_ident 126 (\<lambda>c. is_alnum c \<or> c \<in> set ''._+-'') value"

definition skillObjectKey :: "string \<Rightarrow> string \<Rightarrow> string \<Rightarrow> string option" where
  "skillObjectKey skillID version digest =
     (if \<not> validSkillIdentifier skillID \<or> \<not> validSkillVersionIdentifier version then None
      else Some (join ''/'' [''skills'', skillID, version, digest @ ''.zip'']))"

section \<open>What a slug looks like\<close>

fun no_double_dash :: "string \<Rightarrow> bool" where
  "no_double_dash (a # b # s) = ((a \<noteq> CHR ''-'' \<or> b \<noteq> CHR ''-'') \<and> no_double_dash (b # s))"
| "no_double_dash s = True"

definition slug_ok :: "string \<Rightarrow> bool" where
  "slug_ok s \<longleftrightarrow> (\<forall>c \<in> set s. slug_char c \<or> c = CHR ''-'') \<and> no_double_dash s \<and> length s \<le> 40
     \<and> (s \<noteq> [] \<longrightarrow> hd s \<noteq> CHR ''-'' \<and> last s \<noteq> CHR ''-'')"

lemma no_double_dash_snoc:
  "no_double_dash (s @ [c]) \<longleftrightarrow> no_double_dash s \<and> (s = [] \<or> last s \<noteq> CHR ''-'' \<or> c \<noteq> CHR ''-'')"
  by (induction s rule: no_double_dash.induct) auto

lemma no_double_dash_infix: "no_double_dash (p @ s @ q) \<Longrightarrow> no_double_dash s"
proof (induction p)
  case Nil
  have "no_double_dash (s @ q) \<Longrightarrow> no_double_dash s" for q
    by (induction q rule: rev_induct) (auto simp: no_double_dash_snoc append_assoc [symmetric] simp del: append_assoc)
  with Nil show ?case by simp
next
  case (Cons a p)
  then show ?case by (cases "p @ s @ q") auto
qed

lemma slug_loop_shape:
  assumes "\<forall>c \<in> set b. slug_char c \<or> c = CHR ''-''" "no_double_dash b"
    "\<not> previous \<longrightarrow> b \<noteq> [] \<and> last b \<noteq> CHR ''-''"
  shows "(\<forall>c \<in> set (slug_loop rs previous b). slug_char c \<or> c = CHR ''-'')
    \<and> no_double_dash (slug_loop rs previous b)"
  using assms
proof (induction rs previous b rule: slug_loop.induct)
  case (2 r rs previous b)
  then show ?case
    using slug_char_of slug_char_not_dash by (auto simp: no_double_dash_snoc)
qed simp

lemma trim_byte_infix: "\<exists>p q. s = p @ trim_byte c s @ q"
proof -
  let ?l = "trim_byte_left c s"
  have 1: "s = takeWhile (\<lambda>x. x = c) s @ ?l" by (simp add: trim_byte_left_def)
  have "rev ?l = takeWhile (\<lambda>x. x = c) (rev ?l) @ dropWhile (\<lambda>x. x = c) (rev ?l)" by simp
  then have 2: "?l = trim_byte c s @ rev (takeWhile (\<lambda>x. x = c) (rev ?l))"
    by (metis rev_append rev_rev_ident trim_byte_def trim_byte_right_def)
  show ?thesis using 1 2 by metis
qed

lemma trim_slug_ok:
  assumes "\<forall>c \<in> set s. slug_char c \<or> c = CHR ''-''" "no_double_dash s"
  shows "(\<forall>c \<in> set (trim_byte (CHR ''-'') s). slug_char c \<or> c = CHR ''-'')
    \<and> no_double_dash (trim_byte (CHR ''-'') s)
    \<and> (trim_byte (CHR ''-'') s \<noteq> [] \<longrightarrow> hd (trim_byte (CHR ''-'') s) \<noteq> CHR ''-'' \<and> last (trim_byte (CHR ''-'') s) \<noteq> CHR ''-'')"
proof (intro conjI)
  show "\<forall>c \<in> set (trim_byte (CHR ''-'') s). slug_char c \<or> c = CHR ''-''"
    using assms(1) set_trim_byte by blast
  obtain p q where "s = p @ trim_byte (CHR ''-'') s @ q" using trim_byte_infix by blast
  with assms(2) show "no_double_dash (trim_byte (CHR ''-'') s)" by (metis no_double_dash_infix)
  show "trim_byte (CHR ''-'') s \<noteq> [] \<longrightarrow>
      hd (trim_byte (CHR ''-'') s) \<noteq> CHR ''-'' \<and> last (trim_byte (CHR ''-'') s) \<noteq> CHR ''-''"
    using trim_byte_hd trim_byte_last by blast
qed

lemma slugFor_ok: "slug_ok (slugFor name)"
proof -
  let ?s = "trim_byte (CHR ''-'') (slug_loop (lower_runes name) True [])"
  have s: "(\<forall>c \<in> set ?s. slug_char c \<or> c = CHR ''-'') \<and> no_double_dash ?s
      \<and> (?s \<noteq> [] \<longrightarrow> hd ?s \<noteq> CHR ''-'' \<and> last ?s \<noteq> CHR ''-'')"
    by (rule trim_slug_ok) (use slug_loop_shape [of "[]" True] in auto)
  show ?thesis
  proof (cases "length ?s > 40")
    case True
    have "no_double_dash (take 40 ?s)"
      using s no_double_dash_infix [of "[]" "take 40 ?s" "drop 40 ?s"] by simp
    moreover have "\<forall>c \<in> set (take 40 ?s). slug_char c \<or> c = CHR ''-''"
      using s by (meson in_set_takeD)
    ultimately show ?thesis
      using True trim_slug_ok [of "take 40 ?s"] length_trim_byte [of "CHR ''-''" "take 40 ?s"]
      by (simp add: slugFor_def slug_ok_def Let_def)
  next
    case False
    with s show ?thesis by (simp add: slugFor_def slug_ok_def Let_def)
  qed
qed

lemma trim_byte_id: "s = [] \<or> hd s \<noteq> c \<and> last s \<noteq> c \<Longrightarrow> trim_byte c s = s"
proof -
  assume a: "s = [] \<or> hd s \<noteq> c \<and> last s \<noteq> c"
  have "dropWhile (\<lambda>x. x = c) t = t" if "t = [] \<or> hd t \<noteq> c" for t
    using that by (cases t) auto
  with a show ?thesis
    by (metis hd_rev rev_is_Nil_conv rev_rev_ident trim_byte_def trim_byte_left_def trim_byte_right_def)
qed

lemma slug_loop_id:
  assumes "\<forall>c \<in> set s. slug_char c \<or> c = CHR ''-''" "no_double_dash (b @ s)"
    "previous \<longleftrightarrow> b = [] \<or> last b = CHR ''-''" "b = [] \<longrightarrow> s = [] \<or> hd s \<noteq> CHR ''-''"
  shows "slug_loop (map byte s) previous b = b @ s"
  using assms
proof (induction s arbitrary: b previous)
  case (Cons c s)
  show ?case
  proof (cases "c = CHR ''-''")
    case True
    have "no_double_dash (b @ [c])"
      using Cons.prems(2) no_double_dash_infix [of "[]" "b @ [c]" s] by simp
    with True Cons.prems have "\<not> previous" by (auto simp: no_double_dash_snoc)
    moreover have "slug_loop (map byte s) True (b @ ''-'') = (b @ ''-'') @ s"
      by (rule Cons.IH) (use True Cons.prems in auto)
    ultimately show ?thesis using True dash_not_slug_rune(1) by simp
  next
    case False
    then have c: "slug_char c" using Cons.prems(1) by simp
    have "slug_loop (map byte s) False (b @ [c]) = (b @ [c]) @ s"
      by (rule Cons.IH) (use False Cons.prems in auto)
    with slug_rune_byte [OF c] show ?thesis by simp
  qed
qed simp

lemma slugFor_id: "slug_ok s \<Longrightarrow> slugFor s = s"
proof -
  assume ok: "slug_ok s"
  then have "slug_loop (lower_runes s) True [] = s"
    using slug_loop_id [of s "[]" True] lower_runes_slug [of s] by (auto simp: slug_ok_def)
  moreover have "trim_byte (CHR ''-'') s = s"
    by (rule trim_byte_id) (use ok in \<open>auto simp: slug_ok_def\<close>)
  ultimately show ?thesis using ok by (simp add: slugFor_def slug_ok_def Let_def)
qed

section \<open>Uniqueness of generated identifiers\<close>

lemma suffix_loop_free:
  "suffix_loop base exists n k = Inr (Some c) \<Longrightarrow>
   exists c = Inr False \<and> (\<exists>i. n \<le> i \<and> i < n + k \<and> c = base @ ''-'' @ show_nat i)"
proof (induction k arbitrary: n)
  case (Suc k)
  then show ?case by (fastforce split: sum.splits if_splits)
qed simp

lemma suffix_loop_exhausted:
  "suffix_loop base exists n k = Inr None \<Longrightarrow> n \<le> i \<Longrightarrow> i < n + k \<Longrightarrow>
   exists (base @ ''-'' @ show_nat i) = Inr True"
proof (induction k arbitrary: n)
  case (Suc k)
  then show ?case by (cases "i = n") (auto split: sum.splits if_splits)
qed simp

lemma uniqueIdentifier_cases:
  assumes "uniqueIdentifier base0 kind exists tail = Inr i"
  defines "base \<equiv> (if base0 = [] then kind else base0)"
  obtains (free) "exists i = Inr False"
    | (random) bytes where "exists base = Inr True"
      "\<And>n. 2 \<le> n \<Longrightarrow> n < 100 \<Longrightarrow> exists (base @ ''-'' @ show_nat n) = Inr True"
      "tail = Inr bytes" "i = base @ ''-'' @ hex bytes"
proof -
  have u: "uniqueIdentifier base0 kind exists tail =
      (case exists base of Inl e \<Rightarrow> Inl e | Inr taken \<Rightarrow> if \<not> taken then Inr base
       else (case suffix_loop base exists 2 98 of Inl e \<Rightarrow> Inl e | Inr (Some candidate) \<Rightarrow> Inr candidate
             | Inr None \<Rightarrow> (case tail of Inl e \<Rightarrow> Inl e | Inr bytes \<Rightarrow> Inr (base @ ''-'' @ hex bytes))))"
    unfolding uniqueIdentifier_def base_def Let_def by (rule refl)
  consider (a) "exists base = Inr False" "i = base"
    | (b) "suffix_loop base exists 2 98 = Inr (Some i)"
    | (c) bytes where "exists base = Inr True" "suffix_loop base exists 2 98 = Inr None"
        "tail = Inr bytes" "i = base @ ''-'' @ hex bytes"
    using assms(1) unfolding u by (auto split: sum.splits if_splits option.splits)
  then show thesis
  proof cases
    case a
    then show ?thesis using free by simp
  next
    case b
    then show ?thesis using free suffix_loop_free by blast
  next
    case c
    then show ?thesis using random suffix_loop_exhausted [OF c(2)] by simp
  qed
qed

lemma slash_not_alnum: "\<not> is_alnum (CHR ''/'')"
  by (simp add: is_alnum_def is_lower_def is_upper_def is_digit_def byte_def)

lemma ident_no_slash:
  assumes "bounded_ident n mid s" "\<not> mid (CHR ''/'')"
  shows "CHR ''/'' \<notin> set s"
proof -
  note na = slash_not_alnum
  consider (one) x where "s = [x]" "is_alnum x"
    | (more) x m y where "s = x # m @ [y]" "is_alnum x" "is_alnum y" "list_all mid m"
  proof (cases s)
    case (Cons x r)
    with assms(1) that show ?thesis
      by (cases r rule: rev_cases) (auto simp: bounded_ident_def)
  qed (use assms(1) in \<open>simp add: bounded_ident_def\<close>)
  then show ?thesis
    by cases (use na assms(2) in \<open>auto simp: list_all_iff\<close>)
qed

lemma skill_ident_no_slash: "validSkillIdentifier s \<Longrightarrow> CHR ''/'' \<notin> set s"
  unfolding validSkillIdentifier_def by (erule ident_no_slash) (simp add: slash_not_alnum)

lemma skill_version_no_slash: "validSkillVersionIdentifier s \<Longrightarrow> CHR ''/'' \<notin> set s"
  unfolding validSkillVersionIdentifier_def by (erule ident_no_slash) (simp add: slash_not_alnum)

lemma suffix_loop_unfold:
  "0 < k \<Longrightarrow> suffix_loop base exists n k =
     (case exists (base @ ''-'' @ show_nat n) of
        Inl e \<Rightarrow> Inl e
      | Inr taken \<Rightarrow> if \<not> taken then Inr (Some (base @ ''-'' @ show_nat n))
                     else suffix_loop base exists (Suc n) (k - 1))"
  by (cases k) (simp_all split: sum.splits)

section \<open>Properties\<close>

text \<open>
  A derived slug is a clean path segment: only \<^verbatim>\<open>a-z\<close>, \<^verbatim>\<open>0-9\<close> and
  single dashes, no dash at either end, at most 40 bytes; deriving a slug from a slug changes
  nothing.
\<close>

theorem slug_is_clean_and_stable:
  "slug_ok (slugFor name) \<and> slugFor (slugFor name) = slugFor name"
  using slugFor_ok slugFor_id by blast

text \<open>
  An identifier handed out was either reported free by the probe, or the base and all 98
  numbered candidates were taken and the identifier carries the random tail.
\<close>

theorem generated_identifier_is_free:
  assumes "uniqueIdentifier base kind exists tail = Inr i" "base \<noteq> []"
  shows "exists i = Inr False \<or>
     (exists base = Inr True \<and> (\<forall>n \<in> {2..<100}. exists (base @ ''-'' @ show_nat n) = Inr True)
      \<and> (\<exists>bytes. tail = Inr bytes \<and> i = base @ ''-'' @ hex bytes))"
  using assms by (auto elim!: uniqueIdentifier_cases)

theorem generated_identifier_is_free_witness:
  "uniqueIdentifier ''m'' ''model'' (\<lambda>c. Inr (c = ''m'')) (Inl ()) = Inr ''m-2''
   \<and> (\<lambda>c. Inr (c = ''m'')) ''m-2'' = (Inr False :: unit + bool)"
proof -
  have two: "show_nat 2 = ''2''" by code_simp
  have u: "uniqueIdentifier ''m'' ''model'' (\<lambda>c. Inr (c = ''m'')) (Inl ()) = Inr ''m-2''"
    by (simp add: uniqueIdentifier_def two suffix_loop_unfold)
  show ?thesis
    using u generated_identifier_is_free [OF u] by simp
qed

text \<open>
  The object key of a Skill package determines the Skill, the version and the digest: two
  accepted uploads share a key only if they agree on all three, so no package can overwrite
  another Skill's or version's object.
\<close>

theorem skill_object_key_injective:
  assumes "skillObjectKey s v d = Some k" "skillObjectKey s' v' d' = Some k"
  shows "s = s' \<and> v = v' \<and> d = d'"
proof -
  have k: "k = ''skills/'' @ s @ CHR ''/'' # v @ CHR ''/'' # d @ ''.zip''"
    "k = ''skills/'' @ s' @ CHR ''/'' # v' @ CHR ''/'' # d' @ ''.zip''"
    using assms by (auto simp: skillObjectKey_def split: if_splits)
  have ns: "CHR ''/'' \<notin> set s" "CHR ''/'' \<notin> set s'" "CHR ''/'' \<notin> set v" "CHR ''/'' \<notin> set v'"
    using assms skill_ident_no_slash skill_version_no_slash
    by (auto simp: skillObjectKey_def split: if_splits)
  have "s @ CHR ''/'' # (v @ CHR ''/'' # d @ ''.zip'') = s' @ CHR ''/'' # (v' @ CHR ''/'' # d' @ ''.zip'')"
    using k by simp
  then have "s = s' \<and> v @ CHR ''/'' # (d @ ''.zip'') = v' @ CHR ''/'' # (d' @ ''.zip'')"
    by (rule sep_inject [OF ns(1,2)])
  moreover from this have "v = v' \<and> d @ ''.zip'' = d' @ ''.zip''"
    by (intro sep_inject [OF ns(3,4)]) blast
  ultimately show ?thesis by simp
qed

theorem skill_object_key_injective_witness:
  "skillObjectKey ''pdf'' ''1.0'' ''ab'' = Some ''skills/pdf/1.0/ab.zip''
   \<and> skillObjectKey ''pdf'' ''1.1'' ''ab'' \<noteq> Some ''skills/pdf/1.0/ab.zip''"
proof -
  have a: "skillObjectKey ''pdf'' ''1.0'' ''ab'' = Some ''skills/pdf/1.0/ab.zip''"
    by (simp add: skillObjectKey_def validSkillIdentifier_def validSkillVersionIdentifier_def
        bounded_ident_def is_alnum_def is_lower_def is_upper_def is_digit_def byte_def)
  show ?thesis using a skill_object_key_injective [OF a, of "''pdf''" "''1.1''" "''ab''"] by auto
qed

end
