(* ===== verification/Sha256.thy ===== *)
theory Sha256
  imports Aep_Prelude
begin

text \<open>
  The digest of Go's \<^verbatim>\<open>crypto/sha256\<close> (FIPS 180-4) on byte strings, which the services
  use for content addresses, rate-limit keys and published resource names, and the interface the
  clients rely on: a digest has 32 bytes. No client assumes that the digest is injective; where one
  depends on it, its theorem exhibits the two colliding messages instead.
\<close>

unbundle bit_operations_syntax

section \<open>The compression function\<close>

definition sha_k :: "32 word list" where
  "sha_k = [
    1116352408, 1899447441, 3049323471, 3921009573, 961987163, 1508970993, 2453635748, 2870763221,
    3624381080, 310598401, 607225278, 1426881987, 1925078388, 2162078206, 2614888103, 3248222580,
    3835390401, 4022224774, 264347078, 604807628, 770255983, 1249150122, 1555081692, 1996064986,
    2554220882, 2821834349, 2952996808, 3210313671, 3336571891, 3584528711, 113926993, 338241895,
    666307205, 773529912, 1294757372, 1396182291, 1695183700, 1986661051, 2177026350, 2456956037,
    2730485921, 2820302411, 3259730800, 3345764771, 3516065817, 3600352804, 4094571909, 275423344,
    430227734, 506948616, 659060556, 883997877, 958139571, 1322822218, 1537002063, 1747873779,
    1955562222, 2024104815, 2227730452, 2361852424, 2428436474, 2756734187, 3204031479, 3329325298]"

type_synonym sha_state = "32 word \<times> 32 word \<times> 32 word \<times> 32 word \<times> 32 word \<times> 32 word \<times> 32 word \<times> 32 word"

definition sha_init :: sha_state where
  "sha_init = (1779033703, 3144134277, 1013904242, 2773480762, 1359893119, 2600822924, 528734635, 1541459225)"

definition rotr :: "nat \<Rightarrow> 32 word \<Rightarrow> 32 word" where
  "rotr n w = (drop_bit n w OR push_bit (32 - n) w)"

text \<open>The message schedule, kept newest word first.\<close>

fun sha_schedule :: "nat \<Rightarrow> 32 word list \<Rightarrow> 32 word list" where
  "sha_schedule 0 ws = ws"
| "sha_schedule (Suc n) ws =
     (let w2 = ws ! 1; w7 = ws ! 6; w15 = ws ! 14; w16 = ws ! 15;
          s0 = rotr 7 w15 XOR rotr 18 w15 XOR drop_bit 3 w15;
          s1 = rotr 17 w2 XOR rotr 19 w2 XOR drop_bit 10 w2 in
      sha_schedule n ((w16 + s0 + w7 + s1) # ws))"

fun sha_rounds :: "32 word list \<Rightarrow> 32 word list \<Rightarrow> sha_state \<Rightarrow> sha_state" where
  "sha_rounds (k # ks) (w # ws) (a, b, c, d, e, f, g, h) =
     (let s1 = rotr 6 e XOR rotr 11 e XOR rotr 25 e;
          ch = (e AND f) XOR (NOT e AND g);
          t1 = h + s1 + ch + k + w;
          s0 = rotr 2 a XOR rotr 13 a XOR rotr 22 a;
          maj = (a AND b) XOR (a AND c) XOR (b AND c) in
      sha_rounds ks ws (t1 + (s0 + maj), a, b, c, d + t1, e, f, g))"
| "sha_rounds _ _ st = st"

definition sha_add :: "sha_state \<Rightarrow> sha_state \<Rightarrow> sha_state" where
  "sha_add s t =
     (case (s, t) of ((a, b, c, d, e, f, g, h), (a', b', c', d', e', f', g', h')) \<Rightarrow>
        (a + a', b + b', c + c', d + d', e + e', f + f', g + g', h + h'))"

definition sha_block :: "32 word list \<Rightarrow> sha_state \<Rightarrow> sha_state" where
  "sha_block block st = sha_add st (sha_rounds sha_k (rev (sha_schedule 48 (rev block))) st)"

section \<open>Padding and output\<close>

fun be_bytes :: "nat \<Rightarrow> nat \<Rightarrow> string" where
  "be_bytes 0 n = []"
| "be_bytes (Suc k) n = be_bytes k (n div 256) @ [char_of (n mod 256)]"

fun be_words :: "string \<Rightarrow> 32 word list" where
  "be_words (a # b # c # d # s) =
     of_nat (byte a * 16777216 + byte b * 65536 + byte c * 256 + byte d) # be_words s"
| "be_words _ = []"

definition sha_pad :: "string \<Rightarrow> string" where
  "sha_pad s = s @ char_of (128 :: nat) # replicate ((119 - length s mod 64) mod 64) (char_of (0 :: nat))
     @ be_bytes 8 (8 * length s)"

function sha_blocks :: "32 word list \<Rightarrow> sha_state \<Rightarrow> sha_state" where
  "sha_blocks ws st = (if length ws < 16 then st else sha_blocks (drop 16 ws) (sha_block (take 16 ws) st))"
  by pat_completeness auto
termination
  by (relation "measure (length \<circ> fst)") auto

declare sha_blocks.simps [simp del]

definition sha256 :: "string \<Rightarrow> string" where
  "sha256 s =
     (case sha_blocks (be_words (sha_pad s)) sha_init of (a, b, c, d, e, f, g, h) \<Rightarrow>
        concat (map (\<lambda>w. be_bytes 4 (unat w)) [a, b, c, d, e, f, g, h]))"

section \<open>The digest interface\<close>

lemma length_be_bytes [simp]: "length (be_bytes k n) = k"
  by (induction k arbitrary: n) auto

lemma length_sha256: "length (sha256 s) = 32"
  by (simp add: sha256_def split: prod.splits)

locale digest =
  fixes H :: "string \<Rightarrow> string" and size :: nat
  assumes size: "length (H s) = size"
begin

lemma same_hex_address: "hex (H x) = hex (H y) \<Longrightarrow> x = y \<or> (x \<noteq> y \<and> H x = H y)"
  by simp

lemma same_url_address: "base64url (H x) = base64url (H y) \<Longrightarrow> x = y \<or> (x \<noteq> y \<and> H x = H y)"
  by simp

lemma length_hex_address: "length (hex (H s)) = 2 * size"
  by (simp add: size)

lemma hex_address_chars: "list_all is_hex (hex (H s))"
  by (auto simp: list_all_iff dest: hex_alphabet)

lemma length_short_address: "n \<le> size \<Longrightarrow> length (hex (take n (H s))) = 2 * n"
  by (simp add: size)

end

interpretation sha: digest sha256 32
  by unfold_locales (rule length_sha256)

text \<open>Two different messages with the same digest.\<close>

definition sha_collision :: "string \<Rightarrow> string \<Rightarrow> bool" where
  "sha_collision x y \<longleftrightarrow> x \<noteq> y \<and> sha256 x = sha256 y"

lemma sha_hex_eqD: "hex (sha256 x) = hex (sha256 y) \<Longrightarrow> x = y \<or> sha_collision x y"
  using sha.same_hex_address by (auto simp: sha_collision_def)

lemma sha_url_eqD: "base64url (sha256 x) = base64url (sha256 y) \<Longrightarrow> x = y \<or> sha_collision x y"
  using sha.same_url_address by (auto simp: sha_collision_def)

lemma sha_eqD: "sha256 x = sha256 y \<Longrightarrow> x = y \<or> sha_collision x y"
  by (auto simp: sha_collision_def)

end
