(* ===== verification/Gateway_Policy.thy ===== *)
theory Gateway_Policy
  imports Sha256 "HOL-Library.AList" "HOL-Library.Multiset"
begin

text \<open>
  Gateway limits: \<^verbatim>\<open>services/internal/gatewaypolicy/policy.go\<close>. A limit configuration
  names one subject; the renderer publishes a rule on the header \<^verbatim>\<open>Header\<close> computes for
  it, and the authorizer puts the headers \<^verbatim>\<open>Headers\<close> computes on every inference
  request. The main result is that the two agree: a request carries the header of a limit exactly
  when the limit's scope covers the request.
\<close>

section \<open>Limits\<close>

record Configuration =
  cfg_Kind :: string
  cfg_ScopeType :: string
  cfg_ScopeID :: "string option"
  cfg_ModelID :: "string option"
  cfg_Maximum :: int
  cfg_Interval :: string
  cfg_Enabled :: bool
  cfg_ExpectedVersion :: int

record Limit =
  lim_ID :: string
  lim_Version :: int
  lim_Configuration :: Configuration
  lim_UpdatedAt :: time

definition ValidID :: "string \<Rightarrow> bool" where
  "ValidID i \<longleftrightarrow> i \<noteq> [] \<and> length i \<le> 80 \<and> is_alnum (hd i)
     \<and> list_all (\<lambda>c. is_alnum c \<or> c \<in> set ''._-'') (tl i)"

definition Configuration_Valid :: "Configuration \<Rightarrow> bool" where
  "Configuration_Valid c =
     (if (cfg_Kind c \<noteq> ''requests'' \<and> cfg_Kind c \<noteq> ''tokens'') \<or> cfg_Maximum c < 1 \<or> cfg_Maximum c > 10 ^ 12
         \<or> cfg_ExpectedVersion c < 0 then False
      else if cfg_Interval c \<notin> {''second'', ''minute'', ''hour'', ''day''} then False
      else if (case cfg_ModelID c of None \<Rightarrow> False | Some m \<Rightarrow> trim_space m = [] \<or> length m > 256) then False
      else if cfg_ScopeType c = ''global'' then cfg_ScopeID c = None
      else if cfg_ScopeType c \<notin> {''model'', ''user'', ''team'', ''role''} then False
      else case cfg_ScopeID c of
        None \<Rightarrow> False
      | Some i \<Rightarrow> trim_space i \<noteq> [] \<and> length i \<le> 256
          \<and> (cfg_ScopeType c \<noteq> ''model'' \<or> cfg_ModelID c = None \<or> cfg_ModelID c = Some i))"

text \<open>\<open>marshal\<close> is \<^verbatim>\<open>json.Marshal\<close> on a list of limits.\<close>

definition Revision :: "(Limit list \<Rightarrow> string) \<Rightarrow> Limit list \<Rightarrow> string" where
  "Revision marshal items = ''limits-'' @ hex (sha256 (marshal (sort_key lim_ID items)))"

section \<open>Subject headers\<close>

definition key :: "string \<Rightarrow> string \<Rightarrow> string \<Rightarrow> string" where
  "key kind i model =
     (let modelPart = (if model \<noteq> [] then ''m.'' @ base64url model else ''all'') in
      kind @ ''.'' @ base64url i @ ''.'' @ modelPart)"

definition subjectHeader :: "string \<Rightarrow> string \<Rightarrow> string \<Rightarrow> string" where
  "subjectHeader kind i model = ''x-aep-limit-'' @ hex (sha256 (key kind i model))"

definition Header :: "Configuration \<Rightarrow> string" where
  "Header c =
     (let model = (case cfg_ModelID c of None \<Rightarrow> [] | Some m \<Rightarrow> m);
          i = (case cfg_ScopeID c of None \<Rightarrow> [] | Some s \<Rightarrow> s) in
      if cfg_ScopeType c = ''model'' then subjectHeader ''global'' [] i
      else subjectHeader (cfg_ScopeType c) i model)"

definition add_subject :: "string \<Rightarrow> string \<Rightarrow> string \<Rightarrow> (string \<times> string) list \<Rightarrow> (string \<times> string) list" where
  "add_subject model kind i headers =
     AList.update (subjectHeader kind i model) ''1'' (AList.update (subjectHeader kind i []) ''1'' headers)"

definition Headers :: "string \<Rightarrow> string \<Rightarrow> string list \<Rightarrow> string list \<Rightarrow> (string \<times> string) list option" where
  "Headers model user teams roles =
     (let h0 = add_subject model ''user'' user (add_subject model ''global'' [] []);
          h1 = fold (\<lambda>i. add_subject model ''team'' i) teams h0;
          h2 = fold (\<lambda>i. add_subject model ''role'' i) roles h1 in
      if length h2 > 80 then None else Some h2)"

section \<open>Keys are unambiguous\<close>

lemma dot_not_base64url: "CHR ''.'' \<notin> set (base64url s)"
  by (rule base64url_no_special) (simp_all add: is_alnum_def is_lower_def is_upper_def is_digit_def byte_def)

lemma key_inject:
  assumes "key kind i model = key kind' i' model'" "CHR ''.'' \<notin> set kind" "CHR ''.'' \<notin> set kind'"
  shows "kind = kind' \<and> i = i' \<and> model = model'"
proof -
  let ?part = "\<lambda>m. if m \<noteq> [] then ''m.'' @ base64url m else ''all''"
  have "kind @ CHR ''.'' # (base64url i @ CHR ''.'' # ?part model) = kind' @ CHR ''.'' # (base64url i' @ CHR ''.'' # ?part model')"
    using assms(1) by (simp add: key_def Let_def split: if_splits)
  from sep_inject [OF assms(2,3) this] have k: "kind = kind'"
    and r: "base64url i @ CHR ''.'' # ?part model = base64url i' @ CHR ''.'' # ?part model'" by blast+
  from sep_inject [OF dot_not_base64url dot_not_base64url r] have "i = i'" "?part model = ?part model'" by auto
  with k show ?thesis by (auto split: if_splits)
qed

section \<open>The headers of a request\<close>

text \<open>The subject keys a request is counted under.\<close>

definition request_subjects :: "string \<Rightarrow> string list \<Rightarrow> string list \<Rightarrow> (string \<times> string) set" where
  "request_subjects user teams roles =
     {(kind, i). kind = ''global'' \<and> i = [] \<or> kind = ''user'' \<and> i = user
        \<or> kind = ''team'' \<and> i \<in> set teams \<or> kind = ''role'' \<and> i \<in> set roles}"

lemma add_subject_keys:
  "fst ` set (add_subject model kind i h) = fst ` set h \<union> {subjectHeader kind i [], subjectHeader kind i model}"
  by (auto simp: add_subject_def dom_update)

lemma fold_add_keys:
  "fst ` set (fold (\<lambda>i. add_subject model kind i) ids h) =
   fst ` set h \<union> {subjectHeader kind i m |i m. i \<in> set ids \<and> (m = [] \<or> m = model)}"
  by (induction ids arbitrary: h) (auto simp: add_subject_keys)

lemma Headers_keys:
  assumes "Headers model user teams roles = Some h"
  shows "fst ` set h = {subjectHeader kind i m |kind i m.
     (kind, i) \<in> request_subjects user teams roles \<and> (m = [] \<or> m = model)}"
proof -
  let ?h0 = "add_subject model ''user'' user (add_subject model ''global'' [] [])"
  have "h = fold (\<lambda>i. add_subject model ''role'' i) roles (fold (\<lambda>i. add_subject model ''team'' i) teams ?h0)"
    using assms by (simp add: Headers_def Let_def split: if_splits)
  then show ?thesis
    unfolding request_subjects_def by (simp only: fold_add_keys add_subject_keys) auto
qed

lemma add_subject_ones:
  "snd ` set h \<subseteq> {''1''} \<Longrightarrow> snd ` set (add_subject model kind i h) \<subseteq> {''1''}"
proof -
  have "snd ` set g \<subseteq> {''1''} \<Longrightarrow> snd ` set (AList.update k ''1'' g) \<subseteq> {''1''}" for k :: string and g
    by (induction g) auto
  then show "snd ` set h \<subseteq> {''1''} \<Longrightarrow> snd ` set (add_subject model kind i h) \<subseteq> {''1''}"
    by (simp add: add_subject_def)
qed

lemma fold_add_ones:
  "snd ` set h \<subseteq> {''1''} \<Longrightarrow> snd ` set (fold (\<lambda>i. add_subject model kind i) ids h) \<subseteq> {''1''}"
  by (induction ids arbitrary: h) (simp_all add: add_subject_ones)

lemma Headers_ones: "Headers model user teams roles = Some h \<Longrightarrow> snd ` set h \<subseteq> {''1''}"
proof -
  assume "Headers model user teams roles = Some h"
  then have "h = fold (\<lambda>i. add_subject model ''role'' i) roles (fold (\<lambda>i. add_subject model ''team'' i) teams
      (add_subject model ''user'' user (add_subject model ''global'' [] [])))"
    by (simp add: Headers_def Let_def split: if_splits)
  then show ?thesis by (simp only:) (intro fold_add_ones add_subject_ones, simp)
qed

lemma length_add_subject: "length (add_subject model kind i h) \<le> length h + 2"
proof -
  have "length (AList.update k v g) \<le> Suc (length g)" for k :: string and v :: string and g
    by (induction g) auto
  then have u: "length (AList.update k v g) \<le> length g + 1" for k :: string and v :: string and g by simp
  show ?thesis
    using u [of "subjectHeader kind i model" "''1''" "AList.update (subjectHeader kind i []) ''1'' h"]
      u [of "subjectHeader kind i []" "''1''" h]
    unfolding add_subject_def by linarith
qed

lemma length_fold_add: "length (fold (\<lambda>i. add_subject model kind i) ids h) \<le> length h + 2 * length ids"
proof (induction ids arbitrary: h)
  case (Cons i ids)
  have "length (fold (\<lambda>i. add_subject model kind i) ids (add_subject model kind i h))
      \<le> length (add_subject model kind i h) + 2 * length ids" by (rule Cons.IH)
  with length_add_subject [of model kind i h] show ?case by simp
qed simp

text \<open>Up to 38 memberships always fit.\<close>

lemma Headers_small:
  assumes "length teams + length roles \<le> 38"
  shows "Headers model user teams roles \<noteq> None"
proof -
  let ?h0 = "add_subject model ''user'' user (add_subject model ''global'' [] [])"
  let ?h1 = "fold (\<lambda>i. add_subject model ''team'' i) teams ?h0"
  have "length ?h0 \<le> 4"
    using length_add_subject [of model "''user''" user "add_subject model ''global'' [] []"]
      length_add_subject [of model "''global''" "[]" "[]"] by simp
  moreover have "length ?h1 \<le> length ?h0 + 2 * length teams" by (rule length_fold_add)
  moreover have "length (fold (\<lambda>i. add_subject model ''role'' i) roles ?h1) \<le> length ?h1 + 2 * length roles"
    by (rule length_fold_add)
  ultimately show ?thesis using assms by (simp add: Headers_def Let_def)
qed

text \<open>What a limit is meant to cover.\<close>

definition covers :: "Configuration \<Rightarrow> string \<Rightarrow> string \<Rightarrow> string list \<Rightarrow> string list \<Rightarrow> bool" where
  "covers c model user teams roles \<longleftrightarrow>
     (cfg_ModelID c = None \<or> cfg_ModelID c = Some model)
   \<and> (case cfg_ScopeID c of
        None \<Rightarrow> cfg_ScopeType c = ''global''
      | Some i \<Rightarrow> cfg_ScopeType c = ''model'' \<and> i = model \<or> cfg_ScopeType c = ''user'' \<and> i = user
          \<or> cfg_ScopeType c = ''team'' \<and> i \<in> set teams \<or> cfg_ScopeType c = ''role'' \<and> i \<in> set roles)"

text \<open>The subject and model a limit is counted under.\<close>

definition limit_subject :: "Configuration \<Rightarrow> string \<times> string \<times> string" where
  "limit_subject c =
     (let model = (case cfg_ModelID c of None \<Rightarrow> [] | Some m \<Rightarrow> m);
          i = (case cfg_ScopeID c of None \<Rightarrow> [] | Some s \<Rightarrow> s) in
      if cfg_ScopeType c = ''model'' then (''global'', [], i) else (cfg_ScopeType c, i, model))"

lemma Header_subject:
  "limit_subject c = (kind, i, m) \<Longrightarrow> Header c = subjectHeader kind i m"
  by (auto simp: limit_subject_def Header_def Let_def split: if_splits)

lemma valid_cases:
  assumes "Configuration_Valid c"
  obtains (global) "cfg_ScopeType c = ''global''" "cfg_ScopeID c = None" "cfg_ModelID c \<noteq> Some []"
    | (scoped) i where "cfg_ScopeType c \<in> {''user'', ''team'', ''role''}" "cfg_ScopeID c = Some i" "cfg_ModelID c \<noteq> Some []"
    | (model) i where "cfg_ScopeType c = ''model''" "cfg_ScopeID c = Some i" "i \<noteq> []"
        "cfg_ModelID c = None \<or> cfg_ModelID c = Some i"
proof -
  have m: "cfg_ModelID c \<noteq> Some []"
    using assms unfolding Configuration_Valid_def by (auto split: if_splits)
  show thesis
  proof (cases "cfg_ScopeType c = ''global''")
    case True
    with assms global m show ?thesis unfolding Configuration_Valid_def by (metis (no_types, lifting))
  next
    case False
    then have t: "cfg_ScopeType c \<in> {''model'', ''user'', ''team'', ''role''}"
      using assms unfolding Configuration_Valid_def by (metis (no_types, lifting))
    with False assms obtain i where i: "cfg_ScopeID c = Some i" "trim_space i \<noteq> []"
        "cfg_ScopeType c \<noteq> ''model'' \<or> cfg_ModelID c = None \<or> cfg_ModelID c = Some i"
      unfolding Configuration_Valid_def by (simp split: if_splits option.splits)
    then have "i \<noteq> []" by auto
    with t i m scoped model show ?thesis by blast
  qed
qed

lemma valid_subject:
  assumes "Configuration_Valid c" "limit_subject c = (kind, i, m)"
  shows "CHR ''.'' \<notin> set kind"
proof -
  have "kind = (if cfg_ScopeType c = ''model'' then ''global'' else cfg_ScopeType c)"
    using assms(2) by (simp add: limit_subject_def Let_def split: if_splits)
  moreover from assms(1) have "cfg_ScopeType c \<in> {''global'', ''user'', ''team'', ''role'', ''model''}"
    by (cases rule: valid_cases) blast+
  ultimately have "kind \<in> {''global'', ''user'', ''team'', ''role''}" by (simp split: if_splits)
  then show ?thesis by auto
qed

lemma covers_subject:
  assumes "Configuration_Valid c" "limit_subject c = (kind, i, m)" "model \<noteq> []"
  shows "covers c model user teams roles \<longleftrightarrow> (kind, i) \<in> request_subjects user teams roles \<and> (m = [] \<or> m = model)"
  using assms(1)
proof (cases rule: valid_cases)
  case global
  with assms(2) show ?thesis
    by (auto simp: limit_subject_def covers_def request_subjects_def split: option.splits)
next
  case (scoped j)
  then consider "cfg_ScopeType c = ''user''" | "cfg_ScopeType c = ''team''" | "cfg_ScopeType c = ''role''" by blast
  then show ?thesis
    by cases (use assms(2) scoped in \<open>auto simp: limit_subject_def covers_def request_subjects_def split: option.splits\<close>)
next
  case (model j)
  with assms(2) show ?thesis
    by (auto simp: limit_subject_def covers_def request_subjects_def Let_def)
qed

lemma subject_no_dot: "(kind, i) \<in> request_subjects user teams roles \<Longrightarrow> CHR ''.'' \<notin> set kind"
  by (auto simp: request_subjects_def)

lemma subjectHeader_eqD:
  assumes "subjectHeader kind i m = subjectHeader kind' i' m'" "CHR ''.'' \<notin> set kind" "CHR ''.'' \<notin> set kind'"
  shows "kind = kind' \<and> i = i' \<and> m = m' \<or> sha_collision (key kind i m) (key kind' i' m')"
  using assms sha_hex_eqD key_inject unfolding subjectHeader_def by blast

section \<open>Properties\<close>

text \<open>
  (C12) A published limit is matched by exactly the requests it covers: for a valid configuration and
  a request whose headers could be built, the header of the limit is among the headers of the request
  if and only if the limit covers the request's model, user, teams or roles; the only exception is a
  SHA-256 collision between the limit's own subject key and one of the request's.
\<close>

theorem limit_header_iff_covered:
  assumes "Configuration_Valid c" "model \<noteq> []" "Headers model user teams roles = Some h"
    "limit_subject c = (kind, i, m)"
  shows "(covers c model user teams roles \<longrightarrow> map_of h (Header c) = Some ''1'')
    \<and> (Header c \<in> fst ` set h \<longrightarrow> covers c model user teams roles
        \<or> (\<exists>kind' i' m'. (kind', i') \<in> request_subjects user teams roles \<and> (m' = [] \<or> m' = model)
             \<and> sha_collision (key kind i m) (key kind' i' m')))"
proof (intro conjI impI)
  note keys = Headers_keys [OF assms(3)] and cov = covers_subject [OF assms(1,4,2)]
  have hd: "Header c = subjectHeader kind i m" using assms(4) by (rule Header_subject)
  show "map_of h (Header c) = Some ''1''" if "covers c model user teams roles"
  proof -
    have "Header c \<in> fst ` set h" using that cov keys hd by blast
    then obtain v where "map_of h (Header c) = Some v" by (metis map_of_eq_None_iff not_None_eq)
    with Headers_ones [OF assms(3)] show ?thesis using map_of_SomeD by fastforce
  qed
  assume "Header c \<in> fst ` set h"
  then obtain kind' i' m' where r: "(kind', i') \<in> request_subjects user teams roles" "m' = [] \<or> m' = model"
    and e: "subjectHeader kind i m = subjectHeader kind' i' m'" using keys hd by auto
  from subjectHeader_eqD [OF e valid_subject [OF assms(1,4)] subject_no_dot [OF r(1)]] r cov
  show "covers c model user teams roles \<or> (\<exists>kind' i' m'. (kind', i') \<in> request_subjects user teams roles
      \<and> (m' = [] \<or> m' = model) \<and> sha_collision (key kind i m) (key kind' i' m'))" by blast
qed

theorem limit_header_iff_covered_witness:
  "(let c = \<lparr> cfg_Kind = ''tokens'', cfg_ScopeType = ''team'', cfg_ScopeID = Some ''t1'', cfg_ModelID = Some ''gpt'',
        cfg_Maximum = 1000, cfg_Interval = ''minute'', cfg_Enabled = True, cfg_ExpectedVersion = 1 \<rparr> in
    \<exists>h. Headers ''gpt'' ''alice'' [''t1''] [] = Some h \<and> map_of h (Header c) = Some ''1'')"
proof -
  let ?c = "\<lparr> cfg_Kind = ''tokens'', cfg_ScopeType = ''team'', cfg_ScopeID = Some ''t1'', cfg_ModelID = Some ''gpt'',
        cfg_Maximum = 1000, cfg_Interval = ''minute'', cfg_Enabled = True, cfg_ExpectedVersion = 1 \<rparr>"
  have t: "trim_space ''gpt'' = ''gpt''" "trim_space ''t1'' = ''t1''"
    by (simp_all add: trim_space_def trim_right_def space1_def space2_def space3_def byte_def)
  have v: "Configuration_Valid ?c" by (simp add: Configuration_Valid_def t)
  obtain h where h: "Headers ''gpt'' ''alice'' [''t1''] [] = Some h"
    using Headers_small [of "[''t1'']" "[]" "''gpt''" "''alice''"] by auto
  have s: "limit_subject ?c = (''team'', ''t1'', ''gpt'')" by (simp add: limit_subject_def)
  have "covers ?c ''gpt'' ''alice'' [''t1''] []" by (simp add: covers_def)
  with limit_header_iff_covered [OF v _ h s] h show ?thesis by simp
qed

text \<open>
  A publication's revision does not depend on the order in which the limits were read, and has
  the form \<^verbatim>\<open>limits-\<close> followed by 64 hexadecimal digits.
\<close>

theorem revision_order_independent:
  assumes "distinct (map lim_ID items)" "mset items = mset items'"
  shows "Revision marshal items = Revision marshal items'
    \<and> (\<exists>d. Revision marshal items = ''limits-'' @ d \<and> length d = 64 \<and> list_all is_hex d)"
proof -
  have "set items = set items'" using assms(2) by (rule mset_eq_setD)
  moreover have "distinct (map lim_ID items')"
    using assms by (metis mset_eq_imp_distinct_iff mset_map)
  ultimately have "sort_key lim_ID items = sort_key lim_ID items'"
    using assms by (intro sort_key_inj_key_eq) (auto simp: distinct_map)
  then show ?thesis
    using sha.length_hex_address sha.hex_address_chars by (auto simp: Revision_def)
qed

theorem revision_order_independent_witness:
  "(let c = \<lparr> cfg_Kind = ''tokens'', cfg_ScopeType = ''global'', cfg_ScopeID = None, cfg_ModelID = None,
        cfg_Maximum = 1000, cfg_Interval = ''minute'', cfg_Enabled = True, cfg_ExpectedVersion = 1 \<rparr>;
        a = \<lparr> lim_ID = ''a'', lim_Version = 1, lim_Configuration = c, lim_UpdatedAt = 0 \<rparr>;
        b = \<lparr> lim_ID = ''b'', lim_Version = 1, lim_Configuration = c, lim_UpdatedAt = 0 \<rparr> in
    Revision (concat \<circ> map lim_ID) [a, b] = Revision (concat \<circ> map lim_ID) [b, a])"
  unfolding Let_def by (rule conjunct1 [OF revision_order_independent]) simp_all

end
