(* ===== verification/Gateway_Source.thy ===== *)
theory Gateway_Source
  imports Aep_Prelude
begin

text \<open>
  Monitoring queries: \<^verbatim>\<open>services/internal/gatewaysource\<close> (\<^verbatim>\<open>source.go\<close>,
  \<^verbatim>\<open>query.go\<close>, \<^verbatim>\<open>logmetrics.go\<close>, \<^verbatim>\<open>definition.go\<close>). The functions
  turn the validated parameters of an administrator's request into PromQL and LogQL; \<open>vals\<close>
  is \<^verbatim>\<open>url.Values.Get\<close>. The layouts of package \<^verbatim>\<open>time\<close> and the printable
  runes beyond ASCII are parameters; so is the order in which Go ranges over a two-entry map, given
  by a flag. The HTTP transport of \<^verbatim>\<open>fetch\<close> is modelled up to the exchange itself, which is
  a parameter.
\<close>

section \<open>Library functions\<close>

abbreviation dq :: char where "dq \<equiv> CHR 0x22"
abbreviation bs :: char where "bs \<equiv> CHR 0x5C"

record go_time =
  time_parse :: "string \<Rightarrow> time option"
  time_format :: "time \<Rightarrow> string"

text \<open>\<^verbatim>\<open>strconv.Atoi\<close> and \<^verbatim>\<open>strconv.ParseInt(s, 10, 64)\<close>.\<close>

definition atoi :: "string \<Rightarrow> int option" where
  "atoi s =
     (let (neg, ds) = (case s of [] \<Rightarrow> (False, []) | c # r \<Rightarrow>
            if c = CHR ''-'' then (True, r) else if c = CHR ''+'' then (False, r) else (False, s));
          v = (if neg then - int (decimal_value ds) else int (decimal_value ds)) in
      if ds = [] \<or> \<not> list_all is_digit ds \<or> v < - (2 ^ 63) \<or> v \<ge> 2 ^ 63 then None else Some v)"

text \<open>\<^verbatim>\<open>strconv.Quote\<close>: \<open>printable\<close> says which runes beyond ASCII are printable.\<close>

definition hex4 :: "nat \<Rightarrow> string" where
  "hex4 r = map (\<lambda>k. hex_digit (r div 16 ^ k mod 16)) [3, 2, 1, 0]"

definition hex8 :: "nat \<Rightarrow> string" where
  "hex8 r = map (\<lambda>k. hex_digit (r div 16 ^ k mod 16)) [7, 6, 5, 4, 3, 2, 1, 0]"

definition hex2 :: "nat \<Rightarrow> string" where
  "hex2 r = [hex_digit (r div 16 mod 16), hex_digit (r mod 16)]"

definition quote_unit :: "(nat \<Rightarrow> bool) \<Rightarrow> string \<Rightarrow> string" where
  "quote_unit printable s =
     (let r = fst (decode_rune s); w = snd (decode_rune s) in
      if w = 1 \<and> r = 65533 then [bs, CHR ''x''] @ hex2 (byte (hd s))
      else if r = 34 then [bs, dq]
      else if r = 92 then [bs, bs]
      else if (if r < 128 then 32 \<le> r \<and> r < 127 else printable r) then take w s
      else if r = 7 then [bs, CHR ''a''] else if r = 8 then [bs, CHR ''b'']
      else if r = 12 then [bs, CHR ''f''] else if r = 10 then [bs, CHR ''n'']
      else if r = 13 then [bs, CHR ''r''] else if r = 9 then [bs, CHR ''t'']
      else if r = 11 then [bs, CHR ''v'']
      else if r < 32 \<or> r = 127 then [bs, CHR ''x''] @ hex2 r
      else if r < 65536 then [bs, CHR ''u''] @ hex4 r
      else [bs, CHR ''U''] @ hex8 r)"

function quote_body :: "(nat \<Rightarrow> bool) \<Rightarrow> string \<Rightarrow> string" where
  "quote_body printable s =
     (if s = [] then [] else quote_unit printable s @ quote_body printable (drop (snd (decode_rune s)) s))"
  by pat_completeness auto
termination
  by (relation "measure (length \<circ> snd)") (simp_all add: decode_rune_width_pos)

declare quote_body.simps [simp del]

definition quote :: "(nat \<Rightarrow> bool) \<Rightarrow> string \<Rightarrow> string" where
  "quote printable s = dq # quote_body printable s @ [dq]"

text \<open>\<^verbatim>\<open>regexp.QuoteMeta\<close>.\<close>

definition quoteMeta :: "string \<Rightarrow> string" where
  "quoteMeta s = concat (map (\<lambda>c. if c = bs \<or> c \<in> set ''.+*?()|[]{}^$'' then [bs, c] else [c]) s)"

section \<open>Consumers\<close>

definition encodeID :: "string \<Rightarrow> string" where
  "encodeID value = base64url value"

definition ConsumerPrefix :: "string \<Rightarrow> string" where
  "ConsumerPrefix deployment = ''aep.'' @ base64url deployment @ ''.''"

definition Consumer :: "string \<Rightarrow> string \<Rightarrow> string" where
  "Consumer deployment user = ConsumerPrefix deployment @ encodeID user"

section \<open>Query window\<close>

datatype query_error = ErrQuery | ErrDimension

type_synonym params = "string \<Rightarrow> string"
type_synonym query_values = "(string \<times> string) list"

abbreviation day :: duration where "day \<equiv> 24 * hour"

definition Window :: "go_time \<Rightarrow> time \<Rightarrow> params \<Rightarrow> query_error + (time \<times> time \<times> int)" where
  "Window tm now vals =
     (let step = (if vals ''step'' \<noteq> [] then atoi (vals ''step'') else Some 60) in
      case (time_parse tm (vals ''start''), time_parse tm (vals ''end''), step) of
        (Some start, Some stop, Some st) \<Rightarrow>
          if \<not> stop > start \<or> stop - start > 31 * day \<or> stop > now + minute \<or> st < 1 \<or> st > 3600
             \<or> go_div (go_div (stop - start) st) second > 11000 then Inl ErrQuery
          else Inr (start, stop, st)
      | _ \<Rightarrow> Inl ErrQuery)"

definition durationWindow :: "int \<Rightarrow> int" where
  "durationWindow step = max step 120"

definition range_values :: "go_time \<Rightarrow> string \<Rightarrow> time \<Rightarrow> time \<Rightarrow> int \<Rightarrow> query_values" where
  "range_values tm query start stop step =
     [(''query'', query), (''start'', time_format tm start), (''end'', time_format tm stop), (''step'', itoa step)]"

section \<open>Infrastructure metrics\<close>

definition downstream_selector :: string where
  "downstream_selector = ''{http_conn_manager_prefix=~'' @ [dq] @ ''http|outbound_.*'' @ [dq] @ ''}''"

definition upstream_selector :: string where
  "upstream_selector = ''{cluster_name!~'' @ [dq] @ ''agent|prometheus_stats|xds-grpc('' @ [bs, bs] @ ''.internal)?|sds-grpc(''
     @ [bs, bs] @ ''.internal)?'' @ [dq] @ ''}''"

definition failure_selector :: "string \<Rightarrow> string" where
  "failure_selector selector = butlast selector @ '',response_code_class='' @ [dq] @ ''5xx'' @ [dq] @ ''}''"

definition rate :: "string \<Rightarrow> string \<Rightarrow> string" where
  "rate metric selector = ''sum(irate('' @ metric @ selector @ ''[2m]))''"

definition success :: "string \<Rightarrow> string \<Rightarrow> string" where
  "success all failures =
     ''(1 - ('' @ failures @ '' or (0 * '' @ all @ '')) / '' @ all @ '') and ('' @ all @ '' > 0)''"

definition InfrastructureQuery :: "go_time \<Rightarrow> time \<Rightarrow> params \<Rightarrow> query_error + query_values" where
  "InfrastructureQuery tm now vals =
     (case Window tm now vals of
        Inl e \<Rightarrow> Inl e
      | Inr (start, stop, step) \<Rightarrow>
          if (vals ''groupBy'' \<noteq> [] \<and> vals ''groupBy'' \<noteq> ''none'') \<or> vals ''modelId'' \<noteq> [] \<or> vals ''userId'' \<noteq> []
             \<or> vals ''teamId'' \<noteq> [] \<or> vals ''roleId'' \<noteq> [] then Inl ErrDimension
          else
           (let metric = vals ''metric'';
                ok = (\<lambda>query. Inr (range_values tm query start stop step)) in
            if metric = ''downstream_qps'' then ok (rate ''envoy_http_downstream_rq_total'' downstream_selector)
            else if metric = ''upstream_qps'' then ok (rate ''envoy_cluster_upstream_rq_total'' upstream_selector)
            else if metric = ''downstream_success_rate'' then
              ok (success (rate ''envoy_http_downstream_rq_total'' downstream_selector)
                          (rate ''envoy_http_downstream_rq'' (failure_selector downstream_selector)))
            else if metric = ''upstream_success_rate'' then
              ok (success (rate ''envoy_cluster_upstream_rq_total'' upstream_selector)
                          (rate ''envoy_cluster_upstream_rq'' (failure_selector upstream_selector)))
            else if metric = ''auth_requests'' then
              ok (''round(sum by (status)(increase(aep_gateway_authorizer_http_requests_total{route!~'' @ [dq]
                  @ ''/healthz|/readyz|/livez|/metrics'' @ [dq] @ ''}['' @ itoa step @ ''s])))'')
            else Inl ErrDimension))"

section \<open>Model metrics\<close>

definition group_label :: "string \<Rightarrow> string option" where
  "group_label g = map_of [([], []), (''none'', []), (''model'', ''ai_model''), (''route'', ''ai_route''), (''user'', ''ai_consumer'')] g"

definition aggregate :: "string \<Rightarrow> string \<Rightarrow> string" where
  "aggregate label expression =
     (if label = [] then ''sum('' @ expression @ '')'' else ''sum by ('' @ label @ '')('' @ expression @ '')'')"

definition counter_of :: "string \<Rightarrow> string option" where
  "counter_of metric = map_of [(''input_tokens'', ''input_token''), (''output_tokens'', ''output_token''),
     (''calls'', ''llm_duration_count''), (''failures'', ''llm_failure_count'')] metric"

definition consumer_matcher :: "(nat \<Rightarrow> bool) \<Rightarrow> string \<Rightarrow> string \<Rightarrow> string" where
  "consumer_matcher pr tenant user =
     (if user \<noteq> [] then ''ai_consumer='' @ quote pr (Consumer tenant user)
      else ''ai_consumer=~'' @ quote pr (quoteMeta (ConsumerPrefix tenant) @ ''[A-Za-z0-9_-]+''))"

definition metric_selector :: "(nat \<Rightarrow> bool) \<Rightarrow> string \<Rightarrow> params \<Rightarrow> string" where
  "metric_selector pr tenant vals =
     ''{'' @ consumer_matcher pr tenant (vals ''userId'')
     @ (if vals ''modelId'' \<noteq> [] then '',ai_model='' @ quote pr (vals ''modelId'') else []) @ ''}''"

definition metric_prefix :: string where
  "metric_prefix = ''route_upstream_model_consumer_metric_''"

definition metric_text :: "string \<Rightarrow> string \<Rightarrow> int \<Rightarrow> string \<Rightarrow> string" where
  "metric_text label metric step selector =
     (if metric = ''first_token_duration'' \<or> metric = ''service_duration'' then
       (let (duration, count) = (if metric = ''first_token_duration''
              then (''llm_first_token_duration'', ''llm_stream_duration_count'')
              else (''llm_service_duration'', ''llm_duration_count''));
            lookback = itoa (durationWindow step) @ ''s'' in
        aggregate label (''rate('' @ metric_prefix @ duration @ selector @ ''['' @ lookback @ ''])'') @ '' / ''
        @ aggregate label (''rate('' @ metric_prefix @ count @ selector @ ''['' @ lookback @ ''])''))
      else case counter_of metric of
        None \<Rightarrow> []
      | Some counter \<Rightarrow>
          ''round('' @ aggregate label (''increase('' @ metric_prefix @ counter @ selector @ ''['' @ itoa step @ ''s])'') @ '')'')"

definition MetricQuery :: "(nat \<Rightarrow> bool) \<Rightarrow> go_time \<Rightarrow> time \<Rightarrow> string \<Rightarrow> params \<Rightarrow> query_error + query_values" where
  "MetricQuery pr tm now tenant vals =
     (case Window tm now vals of
        Inl e \<Rightarrow> Inl e
      | Inr (start, stop, step) \<Rightarrow>
          if vals ''teamId'' \<noteq> [] \<or> vals ''roleId'' \<noteq> [] then Inl ErrDimension
          else case group_label (vals ''groupBy'') of
            None \<Rightarrow> Inl ErrDimension
          | Some label \<Rightarrow>
             (let query = metric_text label (vals ''metric'') step (metric_selector pr tenant vals) in
              if query = [] then Inl ErrDimension else Inr (range_values tm query start stop step)))"

section \<open>Logs\<close>

definition field_filters :: "(nat \<Rightarrow> bool) \<Rightarrow> bool \<Rightarrow> params \<Rightarrow> string" where
  "field_filters pr flip vals =
     (let one = (\<lambda>(k, field). if vals k \<noteq> [] then '' | '' @ field @ ''='' @ quote pr (vals k) else []);
          entries = [(''modelId'', ''model_id''), (''userId'', ''user_id'')] in
      concat (map one (if flip then rev entries else entries)))"

definition membership_pattern :: "string \<Rightarrow> string" where
  "membership_pattern i = ''.*'' @ quoteMeta (''|'' @ encodeID i @ ''|'') @ ''.*''"

definition membership_filters :: "(nat \<Rightarrow> bool) \<Rightarrow> bool \<Rightarrow> params \<Rightarrow> string" where
  "membership_filters pr flip vals =
     (let one = (\<lambda>(k, field). if vals k \<noteq> [] then '' | '' @ field @ ''=~'' @ quote pr (membership_pattern (vals k)) else []);
          entries = [(''teamId'', ''team_ids''), (''roleId'', ''role_ids'')] in
      concat (map one (if flip then rev entries else entries)))"

definition log_line_format :: string where
  "log_line_format =
     '' | line_format '' @ [dq] @ ''{{printf '' @ [bs, dq] @ ''{'' @ [bs, bs, bs, dq] @ ''request_id''
      @ [bs, bs, bs, dq] @ '':%q,'' @ [bs, bs, bs, dq] @ ''model_id'' @ [bs, bs, bs, dq] @ '':%q,''
      @ [bs, bs, bs, dq] @ ''user_id'' @ [bs, bs, bs, dq] @ '':%q,'' @ [bs, bs, bs, dq] @ ''team_ids''
      @ [bs, bs, bs, dq] @ '':%q,'' @ [bs, bs, bs, dq] @ ''role_ids'' @ [bs, bs, bs, dq] @ '':%q,''
      @ [bs, bs, bs, dq] @ ''status'' @ [bs, bs, bs, dq] @ '':%q,'' @ [bs, bs, bs, dq] @ ''response_flags''
      @ [bs, bs, bs, dq] @ '':%q,'' @ [bs, bs, bs, dq] @ ''input_token'' @ [bs, bs, bs, dq] @ '':%q,''
      @ [bs, bs, bs, dq] @ ''output_token'' @ [bs, bs, bs, dq] @ '':%q,'' @ [bs, bs, bs, dq]
      @ ''llm_service_duration'' @ [bs, bs, bs, dq] @ '':%q,'' @ [bs, bs, bs, dq]
      @ ''llm_first_token_duration'' @ [bs, bs, bs, dq] @ '':%q}'' @ [bs, dq]
      @ '' .request_id .model_id .user_id .team_ids .role_ids .status .response_flags .input_token .output_token .llm_service_duration .llm_first_token_duration}}''
      @ [dq]"

definition LogQuery :: "(nat \<Rightarrow> bool) \<Rightarrow> go_time \<Rightarrow> time \<Rightarrow> bool \<Rightarrow> bool \<Rightarrow> string \<Rightarrow> string \<Rightarrow> params \<Rightarrow> query_error + query_values" where
  "LogQuery pr tm now flip1 flip2 tenant requestID vals =
     (case Window tm now vals of
        Inl e \<Rightarrow> Inl e
      | Inr (start, end0, _) \<Rightarrow>
         (case (if vals ''limit'' \<noteq> [] then atoi (vals ''limit'') else Some 100) of
            None \<Rightarrow> Inl ErrQuery
          | Some limit \<Rightarrow>
              if limit < 1 \<or> limit > 200 then Inl ErrQuery
              else case (if vals ''cursor'' = [] then Some end0
                    else case atoi (vals ''cursor'') of
                      None \<Rightarrow> None
                    | Some stamp \<Rightarrow> if stamp \<le> start \<or> stamp > end0 then None else Some (stamp - 1)) of
                None \<Rightarrow> Inl ErrQuery
              | Some stop \<Rightarrow>
                 (let source0 = vals ''source'' in
                  if source0 \<notin> {[], ''all'', ''gateway'', ''authorizer''} then Inl ErrQuery
                  else
                   (let source = (if source0 = [] \<or> source0 = ''all'' then ''gateway|authorizer'' else source0);
                        query = ''{aep_deployment_id='' @ quote pr tenant @ '',aep_dimension='' @ [dq] @ ''base'' @ [dq]
                          @ '',aep_source=~'' @ quote pr source @ ''} | json''
                          @ field_filters pr flip1 vals
                          @ (if requestID \<noteq> [] then '' | request_id='' @ quote pr requestID else [])
                          @ membership_filters pr flip2 vals
                          @ '' | __error__='' @ [dq, dq] @ log_line_format in
                    Inr [(''query'', query), (''start'', itoa start), (''end'', itoa stop), (''direction'', ''backward''), (''limit'', itoa limit)]))))"

definition log_dimension :: "string \<Rightarrow> (string \<times> string) option" where
  "log_dimension g = map_of [([], (''base'', [])), (''none'', (''base'', [])), (''model'', (''base'', ''model_id'')),
     (''route'', (''base'', ''route'')), (''user'', (''base'', ''user_id'')), (''team'', (''team'', ''team_id'')),
     (''role'', (''role'', ''role_id''))] g"

definition LogMetricQuery :: "(nat \<Rightarrow> bool) \<Rightarrow> go_time \<Rightarrow> time \<Rightarrow> bool \<Rightarrow> bool \<Rightarrow> string \<Rightarrow> params \<Rightarrow> query_error + query_values" where
  "LogMetricQuery pr tm now flip1 flip2 tenant vals =
     (case Window tm now vals of
        Inl e \<Rightarrow> Inl e
      | Inr (start, stop, step) \<Rightarrow>
         (case log_dimension (vals ''groupBy'') of
            None \<Rightarrow> Inl ErrDimension
          | Some (dimension, label) \<Rightarrow>
             (let selector = ''{aep_source='' @ [dq] @ ''gateway'' @ [dq] @ '',aep_deployment_id='' @ quote pr tenant
                    @ '',aep_dimension='' @ quote pr dimension @ ''} | json''
                    @ field_filters pr flip1 vals @ membership_filters pr flip2 vals;
                  rangePart = ''['' @ itoa step @ ''s]'';
                  noError = '' | __error__='' @ [dq, dq] @ '' '';
                  count = (\<lambda>flt. aggregate label (''count_over_time('' @ selector @ flt @ noError @ rangePart @ '')''));
                  summed = (\<lambda>field. aggregate label (''sum_over_time('' @ selector @ '' | unwrap '' @ field @ noError @ rangePart @ '')''));
                  metric = vals ''metric'';
                  ok = (\<lambda>query. Inr (range_values tm query start stop step)) in
              if metric = ''calls'' then ok (count [])
              else if metric = ''failures'' then ok (count '' | status >= 400'')
              else if metric = ''input_tokens'' then ok (summed ''input_token'')
              else if metric = ''output_tokens'' then ok (summed ''output_token'')
              else if metric = ''service_duration'' \<or> metric = ''first_token_duration'' then
               (let field = (if metric = ''first_token_duration'' then ''llm_first_token_duration'' else ''llm_service_duration'') in
                ok (summed field @ '' / '' @ count ('' | '' @ field @ ''!='' @ [dq, dq] @ '' | '' @ field @ ''!='' @ [dq] @ ''-'' @ [dq])))
              else Inl ErrDimension)))"

section \<open>Metric definitions\<close>

record MetricDefinition =
  md_ID :: string
  md_Unit :: string
  md_Aggregation :: string
  md_WindowSeconds :: int
  md_GroupBy :: string
  md_ModelDimension :: string

definition DescribeMetric :: "go_time \<Rightarrow> time \<Rightarrow> string \<Rightarrow> params \<Rightarrow> query_error + MetricDefinition" where
  "DescribeMetric tm now source vals =
     (case Window tm now vals of
        Inl e \<Rightarrow> Inl e
      | Inr (start, stop, step) \<Rightarrow>
         (let groupBy = (if vals ''groupBy'' = [] then ''none'' else vals ''groupBy'');
              dim = (if groupBy = ''model'' \<or> vals ''modelId'' \<noteq> []
                     then (if source = ''loki'' then ''catalog_model'' else ''upstream_model'') else ''not_applicable'');
              def = (\<lambda>i unit agg window. Inr \<lparr> md_ID = i, md_Unit = unit, md_Aggregation = agg, md_WindowSeconds = window,
                 md_GroupBy = groupBy, md_ModelDimension = dim \<rparr>);
              metric = vals ''metric'' in
          if source = ''loki'' then
           (if metric \<in> {''input_tokens'', ''output_tokens''} then def (''gateway_log_'' @ metric) ''tokens'' ''log_sum'' step
            else if metric = ''calls'' then def ''gateway_access_requests'' ''requests'' ''log_count'' step
            else if metric = ''failures'' then def ''gateway_http_errors'' ''requests'' ''log_count'' step
            else if metric \<in> {''first_token_duration'', ''service_duration''} then
              def (''gateway_log_mean_'' @ metric) ''milliseconds'' ''log_mean'' step
            else Inl ErrDimension)
          else if source \<noteq> ''prometheus'' then Inl ErrDimension
          else if metric \<in> {''input_tokens'', ''output_tokens''} then def (''ai_'' @ metric) ''tokens'' ''counter_increase'' step
          else if metric = ''calls'' then def ''ai_usage_completed_calls'' ''requests'' ''counter_increase'' step
          else if metric = ''failures'' then def ''ai_detected_failures'' ''requests'' ''counter_increase'' step
          else if metric \<in> {''first_token_duration'', ''service_duration''} then
            def (''ai_usage_mean_'' @ metric) ''milliseconds'' ''counter_rate_mean'' (durationWindow step)
          else if metric \<in> {''downstream_qps'', ''upstream_qps''} then
            def (''envoy_'' @ metric) ''requests_per_second'' ''instantaneous_rate'' 120
          else if metric = ''downstream_success_rate'' then def ''envoy_downstream_non_5xx_ratio'' ''ratio'' ''non_5xx_ratio'' 120
          else if metric = ''upstream_success_rate'' then def ''envoy_upstream_non_5xx_ratio'' ''ratio'' ''non_5xx_ratio'' 120
          else if metric = ''auth_requests'' then def ''authorizer_http_requests'' ''requests'' ''counter_increase'' step
          else Inl ErrDimension))"

section \<open>Quoted text stays quoted\<close>

text \<open>How a PromQL or LogQL lexer reads a double-quoted string: up to the first quote that no
  backslash escapes. The result is the text read and the rest of the input.\<close>

fun scan_string :: "string \<Rightarrow> (string \<times> string) option" where
  "scan_string [] = None"
| "scan_string (c # s) =
     (if c = dq then Some ([], s)
      else if c = bs then
       (case s of [] \<Rightarrow> None
        | d # s' \<Rightarrow> (case scan_string s' of None \<Rightarrow> None | Some (t, r) \<Rightarrow> Some (c # d # t, r)))
      else case scan_string s of None \<Rightarrow> None | Some (t, r) \<Rightarrow> Some (c # t, r))"

definition plain :: "string \<Rightarrow> bool" where
  "plain u \<longleftrightarrow> dq \<notin> set u \<and> bs \<notin> set u"

definition inert :: "string \<Rightarrow> bool" where
  "inert u \<longleftrightarrow> (\<forall>s t r. scan_string s = Some (t, r) \<longrightarrow> scan_string (u @ s) = Some (u @ t, r))"

lemma inert_plain: "plain u \<Longrightarrow> inert u"
proof (induction u)
  case (Cons c u)
  then have "inert u" by (simp add: plain_def)
  with Cons.prems show ?case by (auto simp: plain_def inert_def)
qed (simp add: inert_def)

lemma inert_escape: "plain u \<Longrightarrow> inert (bs # c # u)"
  using inert_plain [of u] by (auto simp: inert_def)

lemma inert_append: "inert u \<Longrightarrow> inert v \<Longrightarrow> inert (u @ v)"
  by (auto simp: inert_def)

lemma plain_hex [simp]: "plain (hex2 r)" "plain (hex4 r)" "plain (hex8 r)"
proof -
  have h: "hex_digit (n mod 16) \<noteq> dq" "hex_digit (n mod 16) \<noteq> bs" for n
    using is_hex_digit [of "n mod 16"] by (auto simp: is_hex_def is_digit_def byte_def)
  show "plain (hex2 r)" "plain (hex4 r)" "plain (hex8 r)"
    using h [symmetric] by (simp_all add: plain_def hex2_def hex4_def hex8_def)
qed

lemma plain_Nil [simp]: "plain []"
  by (simp add: plain_def)

text \<open>A decoded rune other than a quote or a backslash occupies bytes that are neither.\<close>

lemma high_byte: "128 \<le> byte c \<Longrightarrow> c \<noteq> dq \<and> c \<noteq> bs"
  by (auto simp: byte_def)

lemma decode_rune_high:
  assumes "128 \<le> byte c" "snd (decode_rune (c # r)) \<noteq> 1"
  shows "\<forall>x \<in> set (take (snd (decode_rune (c # r))) (c # r)). 128 \<le> byte x"
proof -
  let ?x = "byte c"
  have x: "\<not> ?x < 128" "\<not> (?x < 194 \<or> ?x > 244)"
    using assms by (auto simp: decode_rune_def)
  then obtain b r2 where r: "r = b # r2"
    using assms(2) by (cases r) (simp_all add: decode_rune_def)
  let ?lo = "if ?x = 224 then 160 else if ?x = 240 then 144 else (128 :: nat)"
  let ?hi = "if ?x = 237 then 159 else if ?x = 244 then 143 else (191 :: nat)"
  have y: "\<not> (byte b < ?lo \<or> byte b > ?hi)"
    using assms(2) x r by (auto simp: decode_rune_def Let_def simp del: if_split)
  then have b: "128 \<le> byte b" by (auto split: if_splits)
  have "decode_rune (c # r) = (if ?x < 224 then ((?x - 192) * 64 + (byte b - 128), 2)
      else case r2 of [] \<Rightarrow> (65533, 1) | d # r3 \<Rightarrow> if \<not> cont_byte d then (65533, 1)
        else if ?x < 240 then ((?x - 224) * 4096 + (byte b - 128) * 64 + (byte d - 128), 3)
        else case r3 of [] \<Rightarrow> (65533, 1) | e # _ \<Rightarrow> if \<not> cont_byte e then (65533, 1)
          else ((?x - 240) * 262144 + (byte b - 128) * 4096 + (byte d - 128) * 64 + (byte e - 128), 4))"
    using x y unfolding decode_rune_def r Let_def list.case by (simp only: if_False)
  then have "snd (decode_rune (c # r)) = (if ?x < 224 then 2
      else case r2 of [] \<Rightarrow> 1 | d # r3 \<Rightarrow> if \<not> cont_byte d then 1 else if ?x < 240 then 3
        else case r3 of [] \<Rightarrow> 1 | e # _ \<Rightarrow> if \<not> cont_byte e then 1 else 4)"
    by (simp split: list.split)
  with assms b show ?thesis
    by (auto simp: r cont_byte_def numeral_eq_Suc split: list.splits if_splits)
qed

lemma decode_rune_plain:
  assumes "s \<noteq> []" "fst (decode_rune s) \<noteq> 34" "fst (decode_rune s) \<noteq> 92"
  shows "plain (take (snd (decode_rune s)) s)"
proof -
  obtain c r where s: "s = c # r" using assms(1) by (cases s) auto
  show ?thesis
  proof (cases "byte c < 128")
    case True
    then have "decode_rune s = (byte c, 1)" by (simp add: decode_rune_def s)
    with assms s show ?thesis by (auto simp: plain_def byte_def)
  next
    case False
    then have "\<forall>x \<in> set (take (snd (decode_rune s)) s). 128 \<le> byte x"
      using decode_rune_high [of c r] unfolding s by (cases "snd (decode_rune (c # r)) = 1") simp_all
    with high_byte show ?thesis unfolding plain_def by blast
  qed
qed

lemma inert_if: "(b \<Longrightarrow> inert u) \<Longrightarrow> (\<not> b \<Longrightarrow> inert v) \<Longrightarrow> inert (if b then u else v)"
  by simp

lemma inert_unit: "s \<noteq> [] \<Longrightarrow> inert (quote_unit pr s)"
proof -
  assume "s \<noteq> []"
  obtain r w where rw: "decode_rune s = (r, w)" by fastforce
  with decode_rune_plain [OF \<open>s \<noteq> []\<close>] have p: "r \<noteq> 34 \<Longrightarrow> r \<noteq> 92 \<Longrightarrow> inert (take w s)"
    using inert_plain by simp
  have e: "inert [bs, c]" "plain u \<Longrightarrow> inert ([bs, c] @ u)" for c u
    using inert_escape [of "[]" c] inert_escape [of u c] by simp_all
  show ?thesis
    unfolding quote_unit_def rw fst_conv snd_conv Let_def
    by (intro inert_if e p plain_hex; assumption)
qed

lemma inert_quote_body: "inert (quote_body pr s)"
proof (induction pr s rule: quote_body.induct)
  case (1 pr s)
  then show ?case
    by (subst quote_body.simps) (auto simp: inert_plain intro!: inert_append inert_unit)
qed

lemma scan_quote: "scan_string (tl (quote pr s) @ rest) = Some (quote_body pr s, rest)"
proof -
  have "scan_string (dq # rest) = Some ([], rest)" by simp
  then have "scan_string (quote_body pr s @ dq # rest) = Some (quote_body pr s @ [], rest)"
    using inert_quote_body unfolding inert_def by blast
  then show ?thesis by (simp add: quote_def)
qed

section \<open>Consumers of one tenant\<close>

lemma dot_not_in_base64url: "CHR ''.'' \<notin> set (base64url s)"
  by (rule base64url_no_special) (simp_all add: is_alnum_def is_lower_def is_upper_def is_digit_def byte_def)

lemma consumer_prefix_iff: "(\<exists>w. Consumer d u = ConsumerPrefix t @ w) \<longleftrightarrow> d = t"
proof
  assume "\<exists>w. Consumer d u = ConsumerPrefix t @ w"
  then obtain w where "base64url d @ CHR ''.'' # base64url u = base64url t @ CHR ''.'' # w"
    by (auto simp: Consumer_def ConsumerPrefix_def encodeID_def)
  from sep_inject [OF dot_not_in_base64url dot_not_in_base64url this] show "d = t" by simp
qed (simp add: Consumer_def)

lemma consumer_inject: "Consumer d u = Consumer d' u' \<longleftrightarrow> d = d' \<and> u = u'"
proof
  assume e: "Consumer d u = Consumer d' u'"
  then have "\<exists>w. Consumer d u = ConsumerPrefix d' @ w" by (metis Consumer_def)
  then have "d = d'" by (simp only: consumer_prefix_iff)
  with e show "d = d' \<and> u = u'" by (simp add: Consumer_def encodeID_def)
qed simp

text \<open>The series a consumer matcher selects: the exact label, or the tenant's prefix followed by at
  least one byte of the URL alphabet.\<close>

definition consumer_selected :: "string \<Rightarrow> string \<Rightarrow> string \<Rightarrow> bool" where
  "consumer_selected tenant user v \<longleftrightarrow>
     (if user \<noteq> [] then v = Consumer tenant user
      else \<exists>w. v = ConsumerPrefix tenant @ w \<and> w \<noteq> [] \<and> list_all (\<lambda>c. is_alnum c \<or> c = CHR ''_'' \<or> c = CHR ''-'') w)"

lemma base64url_nonempty: "s \<noteq> [] \<Longrightarrow> base64url s \<noteq> []"
  unfolding base64url_def by (induction url_digit s rule: b64_encode.induct) auto

lemma consumer_selected_iff:
  assumes "u \<noteq> []"
  shows "consumer_selected tenant user (Consumer d u) \<longleftrightarrow> d = tenant \<and> (user = [] \<or> user = u)"
proof (cases "user = []")
  case True
  have "list_all (\<lambda>c. is_alnum c \<or> c = CHR ''_'' \<or> c = CHR ''-'') (base64url u)"
    using base64url_alphabet by (auto simp: list_all_iff)
  with True assms base64url_nonempty consumer_prefix_iff [of d u tenant] show ?thesis
    by (auto simp: consumer_selected_def Consumer_def encodeID_def)
next
  case False
  then show ?thesis by (auto simp: consumer_selected_def consumer_inject)
qed

lemma aggregate_context: "\<exists>pre post. aggregate l (p @ sel @ x) = pre @ sel @ post"
proof (cases "l = []")
  case True
  then have "aggregate l (p @ sel @ x) = (''sum('' @ p) @ sel @ (x @ '')'')" by (simp add: aggregate_def)
  then show ?thesis by blast
next
  case False
  then have "aggregate l (p @ sel @ x) = (''sum by ('' @ l @ '')('' @ p) @ sel @ (x @ '')'')" by (simp add: aggregate_def)
  then show ?thesis by blast
qed

lemma metric_text_context:
  assumes "metric_text l metric step sel \<noteq> []"
  shows "\<exists>pre post. metric_text l metric step sel = pre @ sel @ post"
proof -
  have *: "\<exists>pre post. x @ aggregate l (p @ sel @ y) @ z = pre @ sel @ post" for x p y z
    using aggregate_context [of l p sel y] by (metis append.assoc)
  show ?thesis
  proof (cases "metric = ''first_token_duration'' \<or> metric = ''service_duration''")
    case True
    obtain d x z where "metric_text l metric step sel = [] @ aggregate l ((''rate('' @ metric_prefix @ d) @ sel @ x) @ z"
      unfolding metric_text_def Let_def if_P [OF True] case_prod_beta append_assoc append_Nil by blast
    then show ?thesis by (simp only: *)
  next
    case False
    then obtain c where "counter_of metric = Some c"
      using assms by (auto simp: metric_text_def split: option.splits)
    with False have "metric_text l metric step sel =
        ''round('' @ aggregate l ((''increase('' @ metric_prefix @ c) @ sel @ ''['' @ itoa step @ ''s])'') @ '')''"
      by (simp add: metric_text_def)
    then show ?thesis by (simp only: *)
  qed
qed

lemma metric_query_contains_selector:
  assumes "MetricQuery pr tm now tenant vals = Inr qs" "map_of qs ''query'' = Some q"
  shows "\<exists>pre post. q = pre @ metric_selector pr tenant vals @ post"
proof -
  obtain l step where "q = metric_text l (vals ''metric'') step (metric_selector pr tenant vals)" "q \<noteq> []"
    using assms unfolding MetricQuery_def Let_def
    by (auto simp: range_values_def split: sum.splits prod.splits if_splits option.splits)
  then show ?thesis using metric_text_context by metis
qed

section \<open>Properties\<close>



text \<open>
  An accepted window is bounded before any source is contacted: it is not empty, ends at most a
  minute after now, spans at most 31 days, and asks for at most 11000 whole steps of between one second
  and one hour.
\<close>

theorem window_is_bounded:
  assumes "Window tm now vals = Inr (start, stop, step)"
  shows "start < stop \<and> stop \<le> now + minute \<and> stop - start \<le> 31 * day \<and> 1 \<le> step \<and> step \<le> 3600
    \<and> (stop - start) div (step * second) \<le> 11000"
proof -
  have *: "start < stop" "stop \<le> now + minute" "stop - start \<le> 31 * day" "1 \<le> step" "step \<le> 3600"
    "go_div (go_div (stop - start) step) second \<le> 11000"
    using assms by (auto simp: Window_def Let_def not_less not_le split: option.splits if_splits)
  have "0 \<le> (stop - start) div step"
    using *(1,4) by (simp add: pos_imp_zdiv_nonneg_iff)
  then have "go_div (go_div (stop - start) step) second = (stop - start) div step div second"
    using *(1,4) by (simp add: go_div_nonneg)
  also have "\<dots> = (stop - start) div (step * second)"
    using *(4) by (simp add: zdiv_zmult2_eq)
  finally show ?thesis using * by simp
qed

theorem window_is_bounded_witness:
  "(let tm = \<lparr> time_parse = (\<lambda>s. if s = ''a'' then Some 0 else Some (31 * day)), time_format = (\<lambda>t. ''t'') \<rparr>;
        vals = (\<lambda>k. if k = ''start'' then ''a'' else if k = ''step'' then ''3600'' else []) in
    Window tm (31 * day) vals = Inr (0, 31 * day, 3600) \<and> (31 * day - 0) div (3600 * second) \<le> 11000)"
proof -
  let ?tm = "\<lparr> time_parse = (\<lambda>s. if s = ''a'' then Some 0 else Some (31 * day)), time_format = (\<lambda>t. ''t'') \<rparr>"
  let ?vals = "\<lambda>k. if k = ''start'' then ''a'' else if k = ''step'' then ''3600'' else []"
  have "atoi ''3600'' = Some 3600"
    by (simp add: atoi_def is_digit_def decimal_value_def byte_def)
  then have w: "Window ?tm (31 * day) ?vals = Inr (0, 31 * day, 3600)"
    by (simp add: Window_def go_div_def)
  from window_is_bounded [OF w] w show ?thesis unfolding Let_def by blast
qed

end
