(* ===== verification/Authorizer.thy ===== *)
theory Authorizer
  imports Gateway_Policy Gateway_Source
begin

text \<open>
  The gateway authorizer (\<^verbatim>\<open>services/gateway-authorizer/internal/gateway\<close>): the request
  handler of \<^verbatim>\<open>handler.go\<close>, the identity lookup of \<^verbatim>\<open>identity.go\<close>, the token
  verifier with its two caches of \<^verbatim>\<open>verifier.go\<close> and the configuration checks of
  \<^verbatim>\<open>config.go\<close>. Remote services answer through the environment record, so every outcome of
  a network exchange is a case of the model; JSON and multipart decoding, URL parsing and the JWT
  library's parsing are functions of that record as well.
\<close>

section \<open>HTTP headers\<close>

type_synonym header = "string \<rightharpoonup> string list"

definition token_byte :: "char \<Rightarrow> bool" where
  "token_byte c \<longleftrightarrow> is_alnum c \<or> c \<in> set ''!#$%&*+-.^_`|~'' \<or> byte c = 39"

fun canonical_loop :: "bool \<Rightarrow> string \<Rightarrow> string" where
  "canonical_loop upper [] = []"
| "canonical_loop upper (c # s) =
     (if upper \<and> is_lower c then char_of (byte c - 32)
      else if \<not> upper \<and> is_upper c then char_of (byte c + 32) else c) # canonical_loop (c = CHR ''-'') s"

definition canonical :: "string \<Rightarrow> string" where
  "canonical name = (if list_all token_byte name then canonical_loop True name else name)"

definition hget :: "header \<Rightarrow> string \<Rightarrow> string" where
  "hget h name = (case h (canonical name) of Some (v # _) \<Rightarrow> v | _ \<Rightarrow> [])"

definition hset :: "string \<Rightarrow> string \<Rightarrow> header \<Rightarrow> header" where
  "hset name v h = h(canonical name \<mapsto> [v])"

definition hdel :: "string \<Rightarrow> header \<Rightarrow> header" where
  "hdel name h = h(canonical name := None)"

section \<open>Small helpers of the handler\<close>

definition bearerToken :: "string \<Rightarrow> string \<times> bool" where
  "bearerToken hdr =
     (case cut_byte (CHR '' '') (trim_space hdr) of (scheme, token0, found) \<Rightarrow>
        let token = trim_space token0 in
        (token, found \<and> to_lower scheme = ''bearer'' \<and> token \<noteq> []))"

definition setTrustedHeader :: "string \<Rightarrow> string \<Rightarrow> header \<Rightarrow> header" where
  "setTrustedHeader name v h = hset name v (hdel name h)"

definition removeUntrustedAEPHeaders :: "header \<Rightarrow> header" where
  "removeUntrustedAEPHeaders h = (\<lambda>name. if has_prefix (to_lower name) ''x-aep-'' then None else h name)"

definition validRequestID :: "string \<Rightarrow> bool" where
  "validRequestID value \<longleftrightarrow> \<not> (length value = 0 \<or> length value > 128)
     \<and> list_all (\<lambda>r. (97 \<le> r \<and> r \<le> 122) \<or> (65 \<le> r \<and> r \<le> 90) \<or> (48 \<le> r \<and> r \<le> 57) \<or> r \<in> {45, 95, 46, 58}) (runes value)"

text \<open>\<open>uuid\<close> is the outcome of \<^verbatim>\<open>uuid.NewString\<close>.\<close>

definition withRequestID :: "string \<Rightarrow> header \<Rightarrow> header" where
  "withRequestID uuid h =
     (let i = hget h ''X-Request-ID'' in hset ''X-Request-ID'' (if validRequestID i then i else uuid) h)"

section \<open>The model of a request\<close>

datatype body_error = ErrRead | ErrRequestTooLarge | ErrModel

text \<open>A multipart body as the reader yields it: parts with their form name and the content that can
  be read of them, then the end of the body or a malformed part.\<close>

datatype part = Part (form_name: string) (content: "string option")
datatype part_stream = PartsEnd | PartsMalformed | PartsNext part part_stream

fun multipart_loop :: "part_stream \<Rightarrow> body_error + string" where
  "multipart_loop PartsEnd = Inl ErrModel"
| "multipart_loop PartsMalformed = Inl ErrModel"
| "multipart_loop (PartsNext p ps) =
     (if form_name p \<noteq> ''model'' then multipart_loop ps
      else case content p of
        None \<Rightarrow> Inl ErrModel
      | Some full \<Rightarrow>
         (let value = take 257 full; model = trim_space value in
          if model = [] \<or> length model > 256 \<or> value \<noteq> model then Inl ErrModel else Inr model))"

definition multipartModelField :: "(string \<Rightarrow> string \<Rightarrow> part_stream) \<Rightarrow> string \<Rightarrow> string \<Rightarrow> body_error + string" where
  "multipartModelField parts body boundary =
     (if boundary = [] then Inl ErrModel else multipart_loop (parts body boundary))"

text \<open>\<open>unmarshal\<close> is \<^verbatim>\<open>json.Unmarshal\<close> into the struct with the one field
  \<^verbatim>\<open>model\<close>.\<close>

definition jsonModelField :: "(string \<Rightarrow> string option) \<Rightarrow> string \<Rightarrow> body_error + string" where
  "jsonModelField unmarshal body =
     (case unmarshal body of
        None \<Rightarrow> Inl ErrModel
      | Some raw \<Rightarrow>
          if trim_space raw = [] then Inl ErrModel
          else
           (let model = trim_space raw in
            if model = [] \<or> length model > 256 \<or> model \<noteq> raw then Inl ErrModel else Inr model))"

record body_codec =
  bc_media :: "string \<Rightarrow> (string \<times> (string \<rightharpoonup> string)) option"
  bc_parts :: "string \<Rightarrow> string \<Rightarrow> part_stream"
  bc_json :: "string \<Rightarrow> string option"

definition readModelRequest :: "body_codec \<Rightarrow> string option \<Rightarrow> header \<Rightarrow> nat \<Rightarrow> body_error + (string \<times> string)" where
  "readModelRequest codec stream h limit =
     (case stream of
        None \<Rightarrow> Inl ErrRead
      | Some full \<Rightarrow>
         (let body = take (limit + 1) full in
          if length body > limit then Inl ErrRequestTooLarge
          else
           (let model = (case bc_media codec (hget h ''Content-Type'') of
                  Some (mediaType, params) \<Rightarrow>
                    if mediaType = ''multipart/form-data''
                    then multipartModelField (bc_parts codec) body (case params ''boundary'' of None \<Rightarrow> [] | Some b \<Rightarrow> b)
                    else jsonModelField (bc_json codec) body
                | None \<Rightarrow> jsonModelField (bc_json codec) body) in
            case model of Inl e \<Rightarrow> Inl e | Inr m \<Rightarrow> Inr (body, m))))"

section \<open>Token verification\<close>

record ModelClaims =
  mc_DeploymentID :: string
  mc_SessionID :: string
  mc_LicenseID :: string
  mc_LicenseDigest :: string
  mc_ModelScopes :: "string list"
  mc_TokenUse :: string
  mc_Subject :: string
  mc_Audience :: "string list"

record jwk =
  jwk_Kty :: string
  jwk_Kid :: string
  jwk_Use :: string
  jwk_Alg :: string
  jwk_Crv :: string
  jwk_X :: string

record statusCacheEntry =
  sce_active :: bool
  sce_expiresAt :: time

record Verifier =
  v_issuer :: string
  v_ttl :: duration
  v_keys :: "string \<rightharpoonup> string"
  v_fetchedAt :: "time option"
  v_licenseStatusURL :: string
  v_licenseStatusToken :: string
  v_licenseStatusTTL :: duration
  v_statusCache :: "string \<rightharpoonup> statusCacheEntry"

text \<open>An HTTP exchange fails or yields a status and a body, whose reading may fail.\<close>

datatype http_reply = NoReply | Reply int "string option"

text \<open>\<open>jwt_header\<close> yields the algorithm and key identifier of a token that parses;
  \<open>jwt_check key issuer audiences now raw\<close> the claims of a token whose EdDSA signature verifies
  under \<open>key\<close> and whose issuer, audience, expiry and issue time are accepted.\<close>

record authz_env =
  ae_now :: time
  ae_fetched :: time
  ae_uuid :: string
  ae_codec :: body_codec
  ae_jwks :: http_reply
  ae_jwks_decode :: "string \<Rightarrow> jwk list option"
  ae_jwt_header :: "string \<Rightarrow> (string \<times> string) option"
  ae_jwt_check :: "string \<Rightarrow> string \<Rightarrow> string list \<Rightarrow> time \<Rightarrow> string \<Rightarrow> ModelClaims option"
  ae_join_path :: "string \<Rightarrow> string \<Rightarrow> string option"
  ae_status :: "string \<Rightarrow> ModelClaims \<Rightarrow> string \<Rightarrow> http_reply"
  ae_status_decode :: "string \<Rightarrow> (bool \<times> string \<times> string) option"
  ae_identity :: "ModelClaims \<Rightarrow> string \<Rightarrow> http_reply"
  ae_identity_decode :: "string \<Rightarrow> (string \<times> string \<times> string \<times> string list \<times> string list \<times> time) option"

definition NewVerifier :: "string \<Rightarrow> duration \<Rightarrow> Verifier" where
  "NewVerifier issuer ttl = \<lparr> v_issuer = issuer, v_ttl = ttl, v_keys = (\<lambda>_. None), v_fetchedAt = None,
     v_licenseStatusURL = [], v_licenseStatusToken = [], v_licenseStatusTTL = 0, v_statusCache = (\<lambda>_. None) \<rparr>"

definition ConfigureLicenseStatus :: "string \<Rightarrow> string \<Rightarrow> duration \<Rightarrow> Verifier \<Rightarrow> Verifier" where
  "ConfigureLicenseStatus endpoint token ttl v =
     v \<lparr> v_licenseStatusURL := trim_byte_right (CHR ''/'') endpoint, v_licenseStatusToken := token,
         v_licenseStatusTTL := ttl, v_statusCache := (\<lambda>_. None) \<rparr>"

definition usable_key :: "jwk \<Rightarrow> string option" where
  "usable_key item =
     (if jwk_Kty item \<noteq> ''OKP'' \<or> jwk_Crv item \<noteq> ''Ed25519'' \<or> jwk_Alg item \<noteq> ''EdDSA'' \<or> jwk_Use item \<noteq> ''sig'' \<or> jwk_Kid item = []
      then None
      else case base64url_decode (jwk_X item) of
        None \<Rightarrow> None
      | Some decoded \<Rightarrow> if length decoded \<noteq> 32 then None else Some decoded)"

fun jwks_keys :: "jwk list \<Rightarrow> (string \<rightharpoonup> string) \<Rightarrow> (string \<rightharpoonup> string)" where
  "jwks_keys [] keys = keys"
| "jwks_keys (item # items) keys =
     jwks_keys items (case usable_key item of None \<Rightarrow> keys | Some k \<Rightarrow> keys(jwk_Kid item \<mapsto> k))"

definition fresh :: "authz_env \<Rightarrow> Verifier \<Rightarrow> bool" where
  "fresh env v = (case v_fetchedAt v of None \<Rightarrow> False | Some t \<Rightarrow> ae_now env - t < v_ttl v)"

text \<open>The keys a successful exchange with the JWKS endpoint publishes.\<close>

definition published_keys :: "authz_env \<Rightarrow> (string \<rightharpoonup> string) option" where
  "published_keys env =
     (case ae_jwks env of
        NoReply \<Rightarrow> None
      | Reply status body \<Rightarrow>
          if status \<noteq> 200 then None
          else case body of
            None \<Rightarrow> None
          | Some data \<Rightarrow>
              if length data > 1048576 then None
              else case ae_jwks_decode env data of
                None \<Rightarrow> None
              | Some items \<Rightarrow>
                 (let keys = jwks_keys items (\<lambda>_. None) in
                  if list_all (\<lambda>item. usable_key item = None) items then None else Some keys))"

definition refresh :: "authz_env \<Rightarrow> bool \<Rightarrow> Verifier \<Rightarrow> bool \<times> Verifier" where
  "refresh env force v =
     (if \<not> force \<and> fresh env v then (True, v)
      else case published_keys env of
        None \<Rightarrow> (False, v)
      | Some keys \<Rightarrow> (True, v \<lparr> v_keys := keys, v_fetchedAt := Some (ae_fetched env) \<rparr>))"

definition Ready :: "authz_env \<Rightarrow> Verifier \<Rightarrow> bool \<times> Verifier" where
  "Ready env v = refresh env True v"

definition verifier_key :: "authz_env \<Rightarrow> string \<Rightarrow> Verifier \<Rightarrow> string option \<times> Verifier" where
  "verifier_key env kid v =
     (case v_keys v kid of
        Some k \<Rightarrow>
          if fresh env v then (Some k, v)
          else (case refresh env False v of (ok, v1) \<Rightarrow> if \<not> ok then (None, v1) else (v_keys v1 kid, v1))
      | None \<Rightarrow>
          (case refresh env True v of (ok, v1) \<Rightarrow> if \<not> ok then (None, v1) else (v_keys v1 kid, v1)))"

definition aep_claims_ok :: "ModelClaims \<Rightarrow> bool" where
  "aep_claims_ok c \<longleftrightarrow>
     (if (mc_TokenUse c \<noteq> ''model'' \<and> mc_TokenUse c \<noteq> ''entitlement'') \<or> mc_Subject c = [] \<or> mc_DeploymentID c = [] then False
      else if mc_TokenUse c = ''model'' then \<not> (mc_SessionID c = [] \<or> ''model-gateway'' \<notin> set (mc_Audience c))
      else \<not> (mc_SessionID c = [] \<or> mc_LicenseID c = [] \<or> mc_LicenseDigest c = [] \<or> ''aep-entitlement'' \<notin> set (mc_Audience c)))"

definition Verify :: "authz_env \<Rightarrow> string \<Rightarrow> Verifier \<Rightarrow> ModelClaims option \<times> Verifier" where
  "Verify env raw v =
     (case ae_jwt_header env raw of
        None \<Rightarrow> (None, v)
      | Some (alg, kid) \<Rightarrow>
          if alg \<noteq> ''EdDSA'' \<or> kid = [] then (None, v)
          else case verifier_key env kid v of
            (None, v1) \<Rightarrow> (None, v1)
          | (Some k, v1) \<Rightarrow>
             (case ae_jwt_check env k (v_issuer v1) [''model-gateway'', ''aep-entitlement''] (ae_now env) raw of
                None \<Rightarrow> (None, v1)
              | Some claims \<Rightarrow> if aep_claims_ok claims then (Some claims, v1) else (None, v1)))"

section \<open>Entitlement status\<close>

datatype check_error = EntitlementInactive | CheckUnavailable

definition status_key :: "ModelClaims \<Rightarrow> string \<Rightarrow> string" where
  "status_key c modelID = join [CHR 0x00] [mc_LicenseID c, mc_LicenseDigest c, mc_DeploymentID c, mc_Subject c, mc_SessionID c, modelID]"

definition expire :: "time \<Rightarrow> (string \<rightharpoonup> statusCacheEntry) \<Rightarrow> (string \<rightharpoonup> statusCacheEntry)" where
  "expire now cache = (\<lambda>k. case cache k of None \<Rightarrow> None | Some e \<Rightarrow> if \<not> now < sce_expiresAt e then None else Some e)"

text \<open>The answer of the status endpoint: \<open>None\<close> when it cannot be obtained.\<close>

definition status_answer :: "authz_env \<Rightarrow> Verifier \<Rightarrow> ModelClaims \<Rightarrow> string \<Rightarrow> bool option" where
  "status_answer env v claims modelID =
     (case ae_join_path env (v_licenseStatusURL v) (mc_LicenseID claims) of
        None \<Rightarrow> None
      | Some endpoint \<Rightarrow>
         (case ae_status env endpoint claims modelID of
            NoReply \<Rightarrow> None
          | Reply status body \<Rightarrow>
              if status \<noteq> 200 then None
              else case body of
                None \<Rightarrow> None
              | Some data \<Rightarrow>
                 (case ae_status_decode env (take 16384 data) of
                    None \<Rightarrow> None
                  | Some (act, dig, dep) \<Rightarrow> Some (act \<and> dig = mc_LicenseDigest claims \<and> dep = mc_DeploymentID claims))))"

definition CheckEntitlement :: "authz_env \<Rightarrow> ModelClaims \<Rightarrow> string \<Rightarrow> Verifier \<Rightarrow> (check_error + unit) \<times> Verifier" where
  "CheckEntitlement env claims modelID v =
     (if v_licenseStatusURL v = [] \<or> v_licenseStatusToken v = [] then (Inl CheckUnavailable, v)
      else
       (let k = status_key claims modelID;
            now = ae_now env;
            v1 = v \<lparr> v_statusCache := expire now (v_statusCache v) \<rparr> in
        case v_statusCache v1 k of
          Some cached \<Rightarrow> (if sce_active cached then Inr () else Inl EntitlementInactive, v1)
        | None \<Rightarrow>
           (case status_answer env v1 claims modelID of
              None \<Rightarrow> (Inl CheckUnavailable, v1)
            | Some act \<Rightarrow>
                (if act then Inr () else Inl EntitlementInactive,
                 v1 \<lparr> v_statusCache := (v_statusCache v1)(k \<mapsto> \<lparr> sce_active = act, sce_expiresAt = now + v_licenseStatusTTL v1 \<rparr>) \<rparr>))))"

section \<open>Identity\<close>

record gatewayIdentity =
  gi_DeploymentID :: string
  gi_UserID :: string
  gi_Consumer :: string
  gi_Roles :: "string list"
  gi_Teams :: "string list"

text \<open>\<^verbatim>\<open>slices.Compact\<close> on a sorted slice removes the duplicates.\<close>

definition membershipHeader :: "string list \<Rightarrow> string option" where
  "membershipHeader ids0 =
     (let ids = remdups_adj (sort ids0) in
      if ids = [] then Some []
      else if list_ex (\<lambda>i. i = [] \<or> length i > 256) ids then None
      else Some (''|'' @ join ''|'' (map base64url ids) @ ''|''))"

definition identity_for :: "authz_env \<Rightarrow> string \<Rightarrow> ModelClaims \<Rightarrow> string \<Rightarrow> check_error + gatewayIdentity" where
  "identity_for env identityURL claims model =
     (let expected = \<lparr> gi_DeploymentID = mc_DeploymentID claims, gi_UserID = mc_Subject claims,
            gi_Consumer = Consumer (mc_DeploymentID claims) (mc_Subject claims), gi_Roles = [], gi_Teams = [] \<rparr> in
      if identityURL = [] then Inr expected
      else case ae_identity env claims model of
        NoReply \<Rightarrow> Inl CheckUnavailable
      | Reply status body \<Rightarrow>
          if status = 403 then Inl EntitlementInactive
          else if status \<noteq> 200 then Inl CheckUnavailable
          else case body of
            None \<Rightarrow> Inl CheckUnavailable
          | Some data \<Rightarrow>
              if length data > 32768 then Inl CheckUnavailable
              else case ae_identity_decode env data of
                None \<Rightarrow> Inl CheckUnavailable
              | Some (dep, usr, con, roles, teams, observed) \<Rightarrow>
                  if dep \<noteq> gi_DeploymentID expected \<or> usr \<noteq> gi_UserID expected \<or> con \<noteq> gi_Consumer expected
                     \<or> observed < ae_now env - minute \<or> observed > ae_now env + minute
                     \<or> length teams > 100 \<or> length roles > 100 then Inl CheckUnavailable
                  else if membershipHeader teams = None \<or> membershipHeader roles = None then Inl CheckUnavailable
                  else Inr \<lparr> gi_DeploymentID = dep, gi_UserID = usr, gi_Consumer = con, gi_Roles = roles, gi_Teams = teams \<rparr>)"

section \<open>The request handler\<close>

record Handler =
  h_limit :: nat
  h_requireEntitlement :: bool
  h_canCheck :: bool
  h_identityURL :: string

record inference_request =
  rq_Method :: string
  rq_Path :: string
  rq_Header :: header
  rq_Body :: "string option"

datatype outcome =
    Healthy
  | Refused int string
  | Proxied header string

text \<open>The headers the handler puts on the forwarded request, in the order of the code.\<close>

definition trusted_headers ::
  "string \<Rightarrow> gatewayIdentity \<Rightarrow> (string \<times> string) list \<Rightarrow> ModelClaims \<Rightarrow> string \<Rightarrow> (string \<times> string) list" where
  "trusted_headers requestID ident policy claims model =
     [(''X-AEP-Request-ID'', requestID), (''X-Mse-Consumer'', gi_Consumer ident),
      (''X-AEP-Team-IDs'', case membershipHeader (gi_Teams ident) of None \<Rightarrow> [] | Some t \<Rightarrow> t),
      (''X-AEP-Role-IDs'', case membershipHeader (gi_Roles ident) of None \<Rightarrow> [] | Some r \<Rightarrow> r)]
     @ policy
     @ [(''X-AEP-Deployment-ID'', mc_DeploymentID claims), (''X-AEP-User-ID'', mc_Subject claims),
        (''X-AEP-Session-ID'', mc_SessionID claims), (''X-AEP-Model-ID'', model)]"

definition forward_headers :: "(string \<times> string) list \<Rightarrow> header \<Rightarrow> header" where
  "forward_headers trusted h =
     fold (\<lambda>(name, v). setTrustedHeader name v) trusted
       (hdel ''X-Mse-Consumer'' (hdel ''Proxy-Connection'' (hdel ''Connection''
         (removeUntrustedAEPHeaders (hdel ''Authorization'' h)))))"

text \<open>The handler in three stages: the entitlement check, the part after the model is known, and the
  part after the token has been verified.\<close>

definition entitlement_gate :: "authz_env \<Rightarrow> Handler \<Rightarrow> ModelClaims \<Rightarrow> string \<Rightarrow> Verifier \<Rightarrow> (check_error + unit) \<times> Verifier" where
  "entitlement_gate env hn claims model v =
     (if \<not> h_requireEntitlement hn then (Inr (), v)
      else if \<not> h_canCheck hn then (Inl CheckUnavailable, v)
      else CheckEntitlement env claims model v)"

definition serve_model ::
  "authz_env \<Rightarrow> Handler \<Rightarrow> inference_request \<Rightarrow> ModelClaims \<Rightarrow> string \<Rightarrow> string \<Rightarrow> Verifier \<Rightarrow> outcome \<times> Verifier" where
  "serve_model env hn req claims body model v =
     (if model = [] \<or> length model > 256 \<or> model \<notin> set (mc_ModelScopes claims) then (Refused 403 ''MODEL_NOT_ALLOWED'', v)
      else case entitlement_gate env hn claims model v of
        (Inl EntitlementInactive, v1) \<Rightarrow> (Refused 403 ''ENTITLEMENT_INACTIVE'', v1)
      | (Inl CheckUnavailable, v1) \<Rightarrow> (Refused 503 ''ENTITLEMENT_CHECK_UNAVAILABLE'', v1)
      | (Inr _, v1) \<Rightarrow>
         (case identity_for env (h_identityURL hn) claims model of
            Inl EntitlementInactive \<Rightarrow> (Refused 403 ''GATEWAY_IDENTITY_INACTIVE'', v1)
          | Inl CheckUnavailable \<Rightarrow> (Refused 503 ''GATEWAY_IDENTITY_UNAVAILABLE'', v1)
          | Inr ident \<Rightarrow>
             (case Headers model (mc_Subject claims) (gi_Teams ident) (gi_Roles ident) of
                None \<Rightarrow> (Refused 503 ''GATEWAY_IDENTITY_UNAVAILABLE'', v1)
              | Some policy \<Rightarrow>
                  (Proxied (forward_headers
                     (trusted_headers (hget (rq_Header req) ''X-Request-ID'') ident policy claims model) (rq_Header req)) body, v1))))"

definition request_model :: "authz_env \<Rightarrow> Handler \<Rightarrow> inference_request \<Rightarrow> string \<Rightarrow> body_error + (string \<times> string)" where
  "request_model env hn req requestedModel =
     (if rq_Method req = ''GET'' then Inr ([], requestedModel)
      else readModelRequest (ae_codec env) (rq_Body req) (rq_Header req) (h_limit hn))"

definition serve_claims :: "authz_env \<Rightarrow> Handler \<Rightarrow> inference_request \<Rightarrow> string \<Rightarrow> ModelClaims \<Rightarrow> Verifier \<Rightarrow> outcome \<times> Verifier" where
  "serve_claims env hn req requestedModel claims v =
     (if h_requireEntitlement hn \<and> mc_TokenUse claims \<noteq> ''entitlement'' then (Refused 403 ''ENTITLEMENT_REQUIRED'', v)
      else case request_model env hn req requestedModel of
        Inl ErrRequestTooLarge \<Rightarrow> (Refused 413 ''REQUEST_TOO_LARGE'', v)
      | Inl _ \<Rightarrow> (Refused 400 ''INVALID_REQUEST'', v)
      | Inr (body, model) \<Rightarrow> serve_model env hn req claims body (trim_space model) v)"

definition ServeHTTP :: "authz_env \<Rightarrow> Handler \<Rightarrow> inference_request \<Rightarrow> Verifier \<Rightarrow> outcome \<times> Verifier" where
  "ServeHTTP env hn req0 v =
     (let req = req0 \<lparr> rq_Header := withRequestID (ae_uuid env) (rq_Header req0) \<rparr> in
      if rq_Path req = ''/livez'' then (Healthy, v)
      else if rq_Path req = ''/healthz'' \<or> rq_Path req = ''/readyz'' then
       (case Ready env v of (ok, v1) \<Rightarrow> (if ok then Healthy else Refused 503 ''DEPENDENCY_UNAVAILABLE'', v1))
      else
       (let requestedModel = trim_space (hget (rq_Header req) ''X-AEP-Model-ID'') in
        if rq_Method req = ''GET'' \<and> requestedModel = [] then (Refused 404 ''RESOURCE_NOT_FOUND'', v)
        else if rq_Method req \<noteq> ''POST'' \<and> rq_Method req \<noteq> ''GET'' then (Refused 404 ''RESOURCE_NOT_FOUND'', v)
        else case bearerToken (hget (rq_Header req) ''Authorization'') of
          (rawToken, ok) \<Rightarrow>
            if \<not> ok then (Refused 401 ''TOKEN_INVALID'', v)
            else case Verify env rawToken v of
              (None, v1) \<Rightarrow> (Refused 401 ''TOKEN_INVALID'', v1)
            | (Some claims, v1) \<Rightarrow> serve_claims env hn req requestedModel claims v1))"

section \<open>Configuration\<close>

record url =
  url_Scheme :: string
  url_Host :: string
  url_User :: bool
  url_RawQuery :: string
  url_Fragment :: string

record authorizer_config =
  ac_Environment :: string
  ac_LogFormat :: string
  ac_LogLevel :: string
  ac_UpstreamURL :: string
  ac_JWKSURL :: string
  ac_Issuer :: string
  ac_RequireEntitlement :: bool
  ac_LicenseStatusURL :: string
  ac_LicenseStatusToken :: string
  ac_LicenseStatusTTL :: duration
  ac_IdentityURL :: string

definition absolute_http :: "(string \<Rightarrow> url option) \<Rightarrow> string \<Rightarrow> bool" where
  "absolute_http parse value =
     (case parse value of None \<Rightarrow> False
      | Some u \<Rightarrow> url_Host u \<noteq> [] \<and> (url_Scheme u = ''http'' \<or> url_Scheme u = ''https''))"

definition Validate :: "(string \<Rightarrow> url option) \<Rightarrow> authorizer_config \<Rightarrow> bool" where
  "Validate parse cfg \<longleftrightarrow>
     (ac_IdentityURL cfg \<noteq> [] \<longrightarrow>
        (case parse (ac_IdentityURL cfg) of None \<Rightarrow> False
         | Some u \<Rightarrow> url_Host u \<noteq> [] \<and> (url_Scheme u = ''http'' \<or> url_Scheme u = ''https'') \<and> \<not> url_User u
             \<and> url_RawQuery u = [] \<and> url_Fragment u = [] \<and> ac_LicenseStatusToken cfg \<noteq> []))
   \<and> ac_Environment cfg \<in> {''development'', ''test'', ''production''}
   \<and> ac_LogFormat cfg \<in> {''text'', ''json''}
   \<and> ac_LogLevel cfg \<in> {''debug'', ''info'', ''warn'', ''error''}
   \<and> absolute_http parse (ac_UpstreamURL cfg) \<and> absolute_http parse (ac_JWKSURL cfg) \<and> absolute_http parse (ac_Issuer cfg)
   \<and> (ac_LicenseStatusURL cfg \<noteq> [] \<longrightarrow> absolute_http parse (ac_LicenseStatusURL cfg))
   \<and> (ac_RequireEntitlement cfg \<longrightarrow> ac_LicenseStatusURL cfg \<noteq> [] \<and> ac_LicenseStatusToken cfg \<noteq> [])
   \<and> (ac_Environment cfg = ''production'' \<longrightarrow> ac_RequireEntitlement cfg \<and> ac_LicenseStatusTTL cfg \<le> 15 * second)"

section \<open>Membership headers\<close>

fun bar_body :: "string list \<Rightarrow> string" where
  "bar_body [] = []"
| "bar_body (x # xs) = x @ CHR ''|'' # bar_body xs"

lemma join_bar: "xs \<noteq> [] \<Longrightarrow> join ''|'' xs @ ''|'' = bar_body xs"
  by (induction "''|''" xs rule: join.induct) auto

lemma str_contains_skip: "c \<notin> set y \<Longrightarrow> str_contains (y @ r) (c # p) \<longleftrightarrow> str_contains r (c # p)"
  by (induction y) (auto simp: has_prefix_def)

lemma bar_prefix:
  assumes "CHR ''|'' \<notin> set x" "CHR ''|'' \<notin> set y"
  shows "has_prefix (y @ CHR ''|'' # r) (x @ [CHR ''|'']) \<longleftrightarrow> x = y"
proof
  assume "has_prefix (y @ CHR ''|'' # r) (x @ [CHR ''|''])"
  then obtain q where "y @ CHR ''|'' # r = x @ CHR ''|'' # q" by (auto simp: has_prefix_iff)
  from sep_inject [OF assms(2,1) this] show "x = y" by simp
qed (simp add: has_prefix_def)

lemma bar_contains:
  assumes "CHR ''|'' \<notin> set x" "\<forall>y \<in> set xs. CHR ''|'' \<notin> set y"
  shows "str_contains (CHR ''|'' # bar_body xs) (CHR ''|'' # x @ ''|'') \<longleftrightarrow> x \<in> set xs"
  using assms(2)
proof (induction xs)
  case Nil
  then show ?case by (cases x) (auto simp: has_prefix_def)
next
  case (Cons y ys)
  have "str_contains (CHR ''|'' # bar_body (y # ys)) (CHR ''|'' # x @ ''|'') \<longleftrightarrow>
      has_prefix (y @ CHR ''|'' # bar_body ys) (x @ ''|'') \<or> str_contains (y @ CHR ''|'' # bar_body ys) (CHR ''|'' # x @ ''|'')"
    by (simp add: has_prefix_def)
  also have "\<dots> \<longleftrightarrow> x = y \<or> str_contains (CHR ''|'' # bar_body ys) (CHR ''|'' # x @ ''|'')"
    using Cons.prems bar_prefix [OF assms(1)] by (simp add: str_contains_skip del: str_contains.simps)
  finally show ?case using Cons by auto
qed

lemma bar_not_base64url: "CHR ''|'' \<notin> set (base64url s)"
  by (rule base64url_no_special) (simp_all add: is_alnum_def is_lower_def is_upper_def is_digit_def byte_def)

lemma membershipHeader_form:
  assumes "membershipHeader ids = Some h" "ids \<noteq> []"
  shows "h = CHR ''|'' # bar_body (map base64url (remdups_adj (sort ids)))"
proof -
  have "remdups_adj (sort ids) \<noteq> []" using assms(2) by (metis remdups_adj_Nil_iff set_empty2 set_sort)
  with assms(1) have "h = ''|'' @ join ''|'' (map base64url (remdups_adj (sort ids))) @ ''|''"
    by (simp add: membershipHeader_def Let_def split: if_splits)
  with \<open>remdups_adj (sort ids) \<noteq> []\<close> show ?thesis by (simp add: join_bar)
qed

lemma membershipHeader_contains:
  assumes "membershipHeader ids = Some h"
  shows "str_contains h (''|'' @ base64url i @ ''|'') \<longleftrightarrow> i \<in> set ids"
proof (cases "ids = []")
  case True
  with assms show ?thesis by (simp add: membershipHeader_def)
next
  case False
  have "str_contains h (CHR ''|'' # base64url i @ ''|'') \<longleftrightarrow> base64url i \<in> set (map base64url (remdups_adj (sort ids)))"
    unfolding membershipHeader_form [OF assms False]
    by (rule bar_contains) (auto simp: bar_not_base64url)
  then show ?thesis by auto
qed

lemma sorted_remdups_adj_distinct: "sorted xs \<Longrightarrow> distinct (remdups_adj xs)"
  by (induction xs rule: remdups_adj.induct) (auto simp: order.order_iff_strict)

lemma membershipHeader_set: "set ids' = set ids \<Longrightarrow> membershipHeader ids' = membershipHeader ids"
proof -
  assume "set ids' = set ids"
  then have "remdups_adj (sort ids') = remdups_adj (sort ids)"
    by (intro sorted_distinct_set_unique) (simp_all add: sorted_remdups_adj sorted_remdups_adj_distinct)
  then show ?thesis by (simp add: membershipHeader_def)
qed

lemma membership_pattern_literal:
  "membership_pattern i = ''.*'' @ [bs, CHR ''|''] @ base64url i @ [bs, CHR ''|''] @ ''.*''"
proof -
  have plain: "quoteMeta u = u" if "\<forall>c \<in> set u. is_alnum c \<or> c = CHR ''-'' \<or> c = CHR ''_''" for u
    using that
  proof (induction u)
    case (Cons c u)
    then have "c \<noteq> bs \<and> c \<notin> set ''.+*?()|[]{}^$''"
      by (auto simp: is_alnum_def is_lower_def is_upper_def is_digit_def byte_def)
    with Cons show ?case by (simp add: quoteMeta_def)
  qed (simp add: quoteMeta_def)
  have app: "quoteMeta (u @ v) = quoteMeta u @ quoteMeta v" for u v by (simp add: quoteMeta_def)
  have bar: "quoteMeta ''|'' = [bs, CHR ''|'']" by (simp add: quoteMeta_def)
  have "quoteMeta (base64url i) = base64url i" by (rule plain) (use base64url_alphabet in blast)
  then show ?thesis unfolding membership_pattern_def encodeID_def app bar by simp
qed

section \<open>Header rewriting\<close>

lemma setTrustedHeader_upd: "setTrustedHeader name v h = h(canonical name \<mapsto> [v])"
  by (auto simp: setTrustedHeader_def hset_def hdel_def)

lemma fold_trusted:
  "fold (\<lambda>(name, v). setTrustedHeader name v) ts h x =
     (case map_of (rev (map (\<lambda>(name, v). (canonical name, v)) ts)) x of Some v \<Rightarrow> Some [v] | None \<Rightarrow> h x)"
proof (induction ts arbitrary: h)
  case (Cons t ts)
  then show ?case
    by (cases t) (auto simp: setTrustedHeader_upd map_add_def split: option.splits)
qed simp

lemma forward_headers_apply:
  "forward_headers ts h x =
     (case map_of (rev (map (\<lambda>(name, v). (canonical name, v)) ts)) x of
        Some v \<Rightarrow> Some [v]
      | None \<Rightarrow> if x \<in> {canonical ''Authorization'', canonical ''Connection'', canonical ''Proxy-Connection'', canonical ''X-Mse-Consumer''}
                   \<or> has_prefix (to_lower x) ''x-aep-'' then None else h x)"
  unfolding forward_headers_def fold_trusted
  by (cases "map_of (rev (map (\<lambda>(name, v). (canonical name, v)) ts)) x")
    (simp_all add: hdel_def removeUntrustedAEPHeaders_def del: insert_iff, simp)

text \<open>The canonical forms the handler works with.\<close>

lemma canonical_names:
  "canonical ''Authorization'' = ''Authorization''" "canonical ''Connection'' = ''Connection''"
  "canonical ''Proxy-Connection'' = ''Proxy-Connection''" "canonical ''X-Mse-Consumer'' = ''X-Mse-Consumer''"
  "canonical ''X-AEP-Request-ID'' = ''X-Aep-Request-Id''" "canonical ''X-AEP-Team-IDs'' = ''X-Aep-Team-Ids''"
  "canonical ''X-AEP-Role-IDs'' = ''X-Aep-Role-Ids''" "canonical ''X-AEP-Deployment-ID'' = ''X-Aep-Deployment-Id''"
  "canonical ''X-AEP-User-ID'' = ''X-Aep-User-Id''" "canonical ''X-AEP-Session-ID'' = ''X-Aep-Session-Id''"
  "canonical ''X-AEP-Model-ID'' = ''X-Aep-Model-Id''" "canonical ''X-Request-ID'' = ''X-Request-Id''"
  by (simp_all add: canonical_def token_byte_def is_alnum_def is_lower_def is_upper_def is_digit_def byte_def)

lemma hex_token: "is_hex c \<Longrightarrow> token_byte c"
  unfolding token_byte_def is_hex_def is_alnum_def is_lower_def by linarith

text \<open>The identity headers the authorizer writes, by their canonical names.\<close>

definition identity_header_names :: "string set" where
  "identity_header_names = {''X-Aep-Request-Id'', ''X-Aep-Team-Ids'', ''X-Aep-Role-Ids'', ''X-Aep-Deployment-Id'',
     ''X-Aep-User-Id'', ''X-Aep-Session-Id'', ''X-Aep-Model-Id''}"

lemma limit_canonical: "\<exists>w. canonical (subjectHeader kind i m) = ''X-Aep-Limit-'' @ w"
proof -
  let ?x = "hex (sha256 (key kind i m))"
  have "list_all token_byte ?x"
    using hex_token by (auto simp: list_all_iff dest: hex_alphabet)
  moreover have "list_all token_byte ''x-aep-limit-''" by code_simp
  ultimately have "canonical (''x-aep-limit-'' @ ?x) = canonical_loop True (''x-aep-limit-'' @ ?x)"
    by (simp add: canonical_def)
  also have "\<dots> = ''X-Aep-Limit-'' @ canonical_loop True ?x"
    by (simp add: is_lower_def is_upper_def byte_def)
  finally show ?thesis unfolding subjectHeader_def by blast
qed

lemma policy_canonical:
  assumes "Headers model user teams roles = Some policy" "(n, v) \<in> set policy"
  shows "\<exists>w. canonical n = ''X-Aep-Limit-'' @ w"
proof -
  have "n \<in> fst ` set policy" using assms(2) by force
  with Headers_keys [OF assms(1)] obtain kind i m where "n = subjectHeader kind i m" by auto
  then show ?thesis using limit_canonical by blast
qed

lemma policy_lookup:
  assumes "Headers model user teams roles = Some policy" "\<And>w. c \<noteq> ''X-Aep-Limit-'' @ w"
  shows "map_of (rev (map (\<lambda>(n, v). (canonical n, v)) policy)) c = None"
  using policy_canonical [OF assms(1)] assms(2) by (force simp: map_of_eq_None_iff)

lemma forwarded_identity:
  assumes "Headers model user teams roles = Some policy"
    "H = forward_headers (trusted_headers rid ident policy claims model) h"
  shows "H ''X-Aep-Request-Id'' = Some [rid]" "H ''X-Mse-Consumer'' = Some [gi_Consumer ident]"
    "H ''X-Aep-Team-Ids'' = Some [case membershipHeader (gi_Teams ident) of None \<Rightarrow> [] | Some t \<Rightarrow> t]"
    "H ''X-Aep-Role-Ids'' = Some [case membershipHeader (gi_Roles ident) of None \<Rightarrow> [] | Some r \<Rightarrow> r]"
    "H ''X-Aep-Deployment-Id'' = Some [mc_DeploymentID claims]" "H ''X-Aep-User-Id'' = Some [mc_Subject claims]"
    "H ''X-Aep-Session-Id'' = Some [mc_SessionID claims]" "H ''X-Aep-Model-Id'' = Some [model]"
  unfolding assms(2) forward_headers_apply trusted_headers_def
  by (simp_all add: canonical_names policy_lookup [OF assms(1)] map_add_def)

lemma forwarded_stripped:
  assumes "Headers model user teams roles = Some policy"
    "H = forward_headers (trusted_headers rid ident policy claims model) h"
  shows "H ''Authorization'' = None" "H ''Connection'' = None" "H ''Proxy-Connection'' = None"
  unfolding assms(2) forward_headers_apply trusted_headers_def
  by (simp_all add: canonical_names policy_lookup [OF assms(1)] map_add_def)

lemma forwarded_aep_names:
  assumes "Headers model user teams roles = Some policy"
    "H = forward_headers (trusted_headers rid ident policy claims model) h"
    "has_prefix (to_lower n) ''x-aep-''" "H n = Some vs"
  shows "n \<in> identity_header_names \<or> n = ''X-Mse-Consumer'' \<or> (\<exists>k \<in> fst ` set policy. n = canonical k \<and> vs = [''1''])"
proof -
  let ?m = "\<lambda>ts. map (\<lambda>(name, v). (canonical name, v)) ts"
  obtain v where v: "map_of (rev (?m (trusted_headers rid ident policy claims model))) n = Some v" "vs = [v]"
    using assms(3,4) unfolding assms(2) forward_headers_apply by (auto split: option.splits if_splits)
  then have "(n, v) \<in> set (?m (trusted_headers rid ident policy claims model))"
    by (metis map_of_SomeD set_rev)
  then show ?thesis
    using Headers_ones [OF assms(1)] v(2) unfolding trusted_headers_def
    by (auto simp: canonical_names identity_header_names_def image_iff) force+
qed

lemma forwarded_other:
  assumes "Headers model user teams roles = Some policy"
    "H = forward_headers (trusted_headers rid ident policy claims model) h"
    "\<not> has_prefix (to_lower n) ''x-aep-''" "n \<notin> {''Authorization'', ''Connection'', ''Proxy-Connection'', ''X-Mse-Consumer''}"
  shows "H n = h n"
proof -
  let ?m = "\<lambda>ts. map (\<lambda>(name, v). (canonical name, v)) ts"
  have lower: "has_prefix (to_lower (''X-Aep-'' @ w)) ''x-aep-''" for w
    by (simp add: to_lower_def has_prefix_def lower_char_def is_upper_def byte_def)
  then have ne: "n \<noteq> ''X-Aep-'' @ w" for w using assms(3) by blast
  have "map_of (rev (?m policy)) n = None"
    by (rule policy_lookup [OF assms(1)]) (use ne [of "''Limit-'' @ w" for w] in simp)
  then have "map_of (rev (?m (trusted_headers rid ident policy claims model))) n = None"
    using assms(4) ne [of "''Request-Id''"] ne [of "''Team-Ids''"] ne [of "''Role-Ids''"] ne [of "''Deployment-Id''"]
      ne [of "''User-Id''"] ne [of "''Session-Id''"] ne [of "''Model-Id''"]
    unfolding trusted_headers_def by (simp add: canonical_names map_add_def)
  with assms(3,4) show ?thesis unfolding assms(2) forward_headers_apply by (simp add: canonical_names)
qed

section \<open>Inversion of the handler\<close>

lemma Proxied_model:
  assumes "serve_model env hn req claims b model v = (Proxied H body, v')"
  obtains ident policy where "b = body" "model \<noteq> []" "length model \<le> 256" "model \<in> set (mc_ModelScopes claims)"
    "entitlement_gate env hn claims model v = (Inr (), v')"
    "identity_for env (h_identityURL hn) claims model = Inr ident"
    "Headers model (mc_Subject claims) (gi_Teams ident) (gi_Roles ident) = Some policy"
    "H = forward_headers (trusted_headers (hget (rq_Header req) ''X-Request-ID'') ident policy claims model) (rq_Header req)"
  using assms unfolding serve_model_def
  by (auto split: if_splits prod.splits sum.splits check_error.splits option.splits)

lemma Proxied_claims:
  assumes "serve_claims env hn req requested claims v = (Proxied H body, v')"
  obtains model0 where "request_model env hn req requested = Inr (body, model0)"
    "serve_model env hn req claims body (trim_space model0) v = (Proxied H body, v')"
    "h_requireEntitlement hn \<longrightarrow> mc_TokenUse claims = ''entitlement''"
  using assms unfolding serve_claims_def
  by (auto split: if_splits prod.splits sum.splits body_error.splits elim: Proxied_model)

lemma Proxied_verified:
  assumes "ServeHTTP env hn req v = (Proxied H body, v')"
  defines "h \<equiv> withRequestID (ae_uuid env) (rq_Header req)"
  obtains raw claims v1 where
    "bearerToken (hget h ''Authorization'') = (raw, True)" "Verify env raw v = (Some claims, v1)"
    "rq_Method req = ''POST'' \<or> rq_Method req = ''GET'' \<and> trim_space (hget h ''X-AEP-Model-ID'') \<noteq> []"
    "serve_claims env hn (req \<lparr> rq_Header := h \<rparr>) (trim_space (hget h ''X-AEP-Model-ID'')) claims v1 = (Proxied H body, v')"
  using assms(1) unfolding ServeHTTP_def Let_def h_def [symmetric]
  by (auto split: if_splits prod.splits option.splits)

text \<open>Everything the handler established about a request it forwards.\<close>

lemma Proxied_facts:
  assumes "ServeHTTP env hn req v = (Proxied H body, v')" "h = withRequestID (ae_uuid env) (rq_Header req)"
  obtains raw claims v1 m0 model ident policy where
    "bearerToken (hget h ''Authorization'') = (raw, True)" "Verify env raw v = (Some claims, v1)"
    "rq_Method req = ''POST'' \<or> rq_Method req = ''GET''"
    "request_model env hn (req \<lparr> rq_Header := h \<rparr>) (trim_space (hget h ''X-AEP-Model-ID'')) = Inr (body, m0)"
    "model = trim_space m0" "model \<noteq> []" "length model \<le> 256" "model \<in> set (mc_ModelScopes claims)"
    "h_requireEntitlement hn \<longrightarrow> mc_TokenUse claims = ''entitlement''"
    "entitlement_gate env hn claims model v1 = (Inr (), v')"
    "identity_for env (h_identityURL hn) claims model = Inr ident"
    "Headers model (mc_Subject claims) (gi_Teams ident) (gi_Roles ident) = Some policy"
    "H = forward_headers (trusted_headers (hget h ''X-Request-ID'') ident policy claims model) h"
proof -
  obtain raw claims v1 where a: "bearerToken (hget h ''Authorization'') = (raw, True)" "Verify env raw v = (Some claims, v1)"
    "rq_Method req = ''POST'' \<or> rq_Method req = ''GET'' \<and> trim_space (hget h ''X-AEP-Model-ID'') \<noteq> []"
    "serve_claims env hn (req \<lparr> rq_Header := h \<rparr>) (trim_space (hget h ''X-AEP-Model-ID'')) claims v1 = (Proxied H body, v')"
    using assms(1) unfolding assms(2) by (rule Proxied_verified)
  obtain m0 where b: "request_model env hn (req \<lparr> rq_Header := h \<rparr>) (trim_space (hget h ''X-AEP-Model-ID'')) = Inr (body, m0)"
    "serve_model env hn (req \<lparr> rq_Header := h \<rparr>) claims body (trim_space m0) v1 = (Proxied H body, v')"
    "h_requireEntitlement hn \<longrightarrow> mc_TokenUse claims = ''entitlement''"
    using a(4) by (rule Proxied_claims)
  obtain ident policy where c: "trim_space m0 \<noteq> []" "length (trim_space m0) \<le> 256" "trim_space m0 \<in> set (mc_ModelScopes claims)"
    "entitlement_gate env hn claims (trim_space m0) v1 = (Inr (), v')"
    "identity_for env (h_identityURL hn) claims (trim_space m0) = Inr ident"
    "Headers (trim_space m0) (mc_Subject claims) (gi_Teams ident) (gi_Roles ident) = Some policy"
    "H = forward_headers (trusted_headers (hget (rq_Header (req \<lparr> rq_Header := h \<rparr>)) ''X-Request-ID'') ident policy claims (trim_space m0))
       (rq_Header (req \<lparr> rq_Header := h \<rparr>))"
    using b(2) by (rule Proxied_model)
  from c(7) have H: "H = forward_headers (trusted_headers (hget h ''X-Request-ID'') ident policy claims (trim_space m0)) h" by simp
  have "rq_Method req = ''POST'' \<or> rq_Method req = ''GET''" using a(3) by blast
  then show thesis by (rule that [OF a(1,2) _ b(1) refl c(1-3) b(3) c(4-6) H])
qed

lemma Verify_ok:
  assumes "Verify env raw v = (Some claims, v')"
  obtains kid k where "ae_jwt_header env raw = Some (''EdDSA'', kid)" "kid \<noteq> []" "verifier_key env kid v = (Some k, v')"
    "ae_jwt_check env k (v_issuer v') [''model-gateway'', ''aep-entitlement''] (ae_now env) raw = Some claims" "aep_claims_ok claims"
  using assms by (auto simp: Verify_def split: option.splits if_splits prod.splits)

lemma refresh_cases:
  assumes "refresh env force v = (True, v')"
  obtains (cached) "\<not> force" "fresh env v" "v' = v"
    | (fetched) keys where "published_keys env = Some keys" "v' = v \<lparr> v_keys := keys, v_fetchedAt := Some (ae_fetched env) \<rparr>"
  using assms by (auto simp: refresh_def split: if_splits option.splits)

lemma verifier_key_current:
  assumes "verifier_key env kid v = (Some k, v')"
  shows "v_keys v' kid = Some k \<and> v_issuer v' = v_issuer v
    \<and> (v' = v \<and> fresh env v \<or> published_keys env = Some (v_keys v') \<and> v_fetchedAt v' = Some (ae_fetched env))"
proof (cases "v_keys v kid")
  case None
  then obtain v1 where "refresh env True v = (True, v1)" "v1 = v'" "v_keys v' kid = Some k"
    using assms by (auto simp: verifier_key_def split: prod.splits if_splits)
  then show ?thesis by (auto elim!: refresh_cases)
next
  case (Some k0)
  show ?thesis
  proof (cases "fresh env v")
    case True
    with Some assms show ?thesis by (simp add: verifier_key_def)
  next
    case False
    with Some obtain v1 where "refresh env False v = (True, v1)" "v1 = v'" "v_keys v' kid = Some k"
      using assms by (auto simp: verifier_key_def split: prod.splits if_splits)
    with False show ?thesis by (auto elim!: refresh_cases)
  qed
qed

section \<open>The entitlement cache over a history of requests\<close>

definition nul_free :: "ModelClaims \<Rightarrow> string \<Rightarrow> bool" where
  "nul_free c m \<longleftrightarrow> (\<forall>s \<in> {mc_LicenseID c, mc_LicenseDigest c, mc_DeploymentID c, mc_Subject c, mc_SessionID c, m}. CHR 0x00 \<notin> set s)"

lemma status_key_inject:
  assumes "status_key c m = status_key c' m'" "nul_free c m" "nul_free c' m'"
  shows "mc_LicenseID c = mc_LicenseID c' \<and> mc_LicenseDigest c = mc_LicenseDigest c' \<and> mc_DeploymentID c = mc_DeploymentID c'
    \<and> mc_Subject c = mc_Subject c' \<and> mc_SessionID c = mc_SessionID c' \<and> m = m'"
proof -
  let ?fs = "\<lambda>c m. [mc_LicenseID c, mc_LicenseDigest c, mc_DeploymentID c, mc_Subject c, mc_SessionID c, m]"
  have "split_byte (CHR 0x00) (status_key c m) = ?fs c m" if "nul_free c m" for c m
    unfolding status_key_def by (rule split_join) (use that in \<open>auto simp: nul_free_def\<close>)
  then have "?fs c m = ?fs c' m'" using assms by metis
  then show ?thesis by simp
qed

text \<open>A key made of fields without NUL bytes can only come from fields without NUL bytes.\<close>

lemma status_key_nul_free:
  assumes "status_key c m = status_key c' m'" "nul_free c m"
  shows "nul_free c' m'"
proof -
  let ?n = "\<lambda>s. count_list s (CHR 0x00)"
  have "?n (status_key c m) = 5" using assms(2) by (auto simp: status_key_def nul_free_def count_list_0_iff)
  with assms(1) have "?n (status_key c' m') = 5" by simp
  then show ?thesis by (auto simp: status_key_def nul_free_def count_list_0_iff)
qed

text \<open>The parts of the verifier that no request changes.\<close>

definition same_status_config :: "Verifier \<Rightarrow> Verifier \<Rightarrow> bool" where
  "same_status_config v w \<longleftrightarrow> v_licenseStatusURL v = v_licenseStatusURL w \<and> v_licenseStatusToken v = v_licenseStatusToken w
     \<and> v_licenseStatusTTL v = v_licenseStatusTTL w"

lemma status_answer_cong: "same_status_config v w \<Longrightarrow> status_answer env v c m = status_answer env w c m"
  by (simp add: status_answer_def same_status_config_def)

text \<open>Every cached approval was given by the status endpoint when one of the logged requests asked it.\<close>

definition approved :: "Verifier \<Rightarrow> authz_env \<Rightarrow> string \<Rightarrow> bool" where
  "approved v env k \<longleftrightarrow> (\<exists>c m. status_key c m = k \<and> status_answer env v c m = Some True)"

definition cache_inv :: "authz_env set \<Rightarrow> Verifier \<Rightarrow> bool" where
  "cache_inv log v \<longleftrightarrow> (\<forall>k e. v_statusCache v k = Some e \<and> sce_active e \<longrightarrow>
     (\<exists>env \<in> log. approved v env k \<and> sce_expiresAt e = ae_now env + v_licenseStatusTTL v))"

lemma approved_cong: "same_status_config v w \<Longrightarrow> approved v env k = approved w env k"
  unfolding approved_def using status_answer_cong by auto

lemma cache_inv_mono:
  assumes "cache_inv log v" "log \<subseteq> log'" "same_status_config v w"
    "\<And>k e. v_statusCache w k = Some e \<Longrightarrow> v_statusCache v k = Some e"
  shows "cache_inv log' w"
proof -
  have t: "v_licenseStatusTTL w = v_licenseStatusTTL v" using assms(3) by (simp add: same_status_config_def)
  show ?thesis
    unfolding cache_inv_def
  proof (intro allI impI)
    fix k e assume "v_statusCache w k = Some e \<and> sce_active e"
    then have "v_statusCache v k = Some e" "sce_active e" using assms(4) by auto
    with assms(1) obtain env where "env \<in> log" "approved v env k" "sce_expiresAt e = ae_now env + v_licenseStatusTTL v"
      unfolding cache_inv_def by blast
    with assms(2) t show "\<exists>env \<in> log'. approved w env k \<and> sce_expiresAt e = ae_now env + v_licenseStatusTTL w"
      using approved_cong [OF assms(3)] by auto
  qed
qed

lemma expire_sub: "expire now cache k = Some e \<Longrightarrow> cache k = Some e \<and> now < sce_expiresAt e"
  by (auto simp: expire_def split: option.splits if_splits)

lemma CheckEntitlement_cases:
  assumes "CheckEntitlement env claims model v = (res, v')"
  obtains (off) "res = Inl CheckUnavailable" "v' = v"
    | (hit) e where "expire (ae_now env) (v_statusCache v) (status_key claims model) = Some e"
        "res = (if sce_active e then Inr () else Inl EntitlementInactive)"
        "v' = v \<lparr> v_statusCache := expire (ae_now env) (v_statusCache v) \<rparr>"
    | (silent) "res = Inl CheckUnavailable" "v' = v \<lparr> v_statusCache := expire (ae_now env) (v_statusCache v) \<rparr>"
    | (answered) act where "status_answer env v claims model = Some act"
        "res = (if act then Inr () else Inl EntitlementInactive)"
        "v' = v \<lparr> v_statusCache := (expire (ae_now env) (v_statusCache v))(status_key claims model \<mapsto>
            \<lparr> sce_active = act, sce_expiresAt = ae_now env + v_licenseStatusTTL v \<rparr>) \<rparr>"
proof -
  have c: "status_answer env (v \<lparr> v_statusCache := x \<rparr>) claims model = status_answer env v claims model" for x
    by (rule status_answer_cong) (simp add: same_status_config_def)
  show thesis
  proof (cases "v_licenseStatusURL v = [] \<or> v_licenseStatusToken v = []")
    case True
    with assms off show ?thesis by (simp add: CheckEntitlement_def)
  next
    case False
    show ?thesis
    proof (cases "expire (ae_now env) (v_statusCache v) (status_key claims model)")
      case None
      with assms False silent answered show ?thesis
        by (cases "status_answer env v claims model") (simp_all add: CheckEntitlement_def Let_def c)
    next
      case (Some e)
      with assms False hit show ?thesis by (simp add: CheckEntitlement_def Let_def)
    qed
  qed
qed

lemma CheckEntitlement_inv:
  assumes "cache_inv log v" "CheckEntitlement env claims model v = (res, v')"
  shows "cache_inv (insert env log) v' \<and> same_status_config v v'"
proof -
  let ?v1 = "v \<lparr> v_statusCache := expire (ae_now env) (v_statusCache v) \<rparr>"
  have same1: "same_status_config v ?v1" by (simp add: same_status_config_def)
  have inv0: "cache_inv (insert env log) v"
    by (rule cache_inv_mono [OF assms(1)]) (auto simp: same_status_config_def)
  have inv1: "cache_inv (insert env log) ?v1"
    by (rule cache_inv_mono [OF assms(1) _ same1]) (auto dest: expire_sub)
  from assms(2) show ?thesis
  proof (cases rule: CheckEntitlement_cases)
    case off
    then show ?thesis using inv0 by (simp add: same_status_config_def)
  next
    case hit
    then show ?thesis using inv1 same1 by simp
  next
    case silent
    then show ?thesis using inv1 same1 by simp
  next
    case (answered act)
    have same: "same_status_config v v'" by (simp add: answered(3) same_status_config_def)
    have ok: "approved v' env (status_key claims model)" if "act"
      using answered(1) that status_answer_cong [OF same] unfolding approved_def by auto
    have eq: "approved ?v1 e k = approved v' e k" for e k
      using approved_cong [OF same] approved_cong [OF same1] by simp
    have "cache_inv (insert env log) v'"
      unfolding cache_inv_def
    proof (intro allI impI)
      fix k e assume e: "v_statusCache v' k = Some e \<and> sce_active e"
      show "\<exists>env' \<in> insert env log. approved v' env' k \<and> sce_expiresAt e = ae_now env' + v_licenseStatusTTL v'"
      proof (cases "k = status_key claims model")
        case True
        with e have "e = \<lparr> sce_active = act, sce_expiresAt = ae_now env + v_licenseStatusTTL v \<rparr>" "act"
          by (auto simp: answered(3))
        with ok True show ?thesis by (simp add: answered(3))
      next
        case False
        with e have "v_statusCache ?v1 k = Some e" by (simp add: answered(3))
        with inv1 e obtain env' where "env' \<in> insert env log" "approved v' env' k" "sce_expiresAt e = ae_now env' + v_licenseStatusTTL ?v1"
          unfolding cache_inv_def eq by blast
        then show ?thesis by (auto simp: answered(3))
      qed
    qed
    with same show ?thesis by simp
  qed
qed

lemma CheckEntitlement_backed:
  assumes "cache_inv log v" "CheckEntitlement env claims model v = (Inr (), v')" "0 < v_licenseStatusTTL v"
  shows "\<exists>env' \<in> insert env log. approved v env' (status_key claims model) \<and> ae_now env < ae_now env' + v_licenseStatusTTL v"
  using assms(2)
proof (cases rule: CheckEntitlement_cases)
  case (hit e)
  then have "v_statusCache v (status_key claims model) = Some e" "sce_active e" "ae_now env < sce_expiresAt e"
    using expire_sub by (auto split: if_splits)
  with assms(1) show ?thesis unfolding cache_inv_def by fastforce
next
  case (answered act)
  then have "approved v env (status_key claims model)" by (auto simp: approved_def split: if_splits)
  with assms(3) show ?thesis by auto
qed simp_all

lemma Verify_frame:
  assumes "Verify env raw v = (res, v')"
  shows "same_status_config v v' \<and> v_statusCache v' = v_statusCache v"
proof -
  have r: "same_status_config v (snd (refresh env f v)) \<and> v_statusCache (snd (refresh env f v)) = v_statusCache v" for f
    by (simp add: refresh_def same_status_config_def split: option.split)
  have k: "same_status_config v (snd (verifier_key env kid v)) \<and> v_statusCache (snd (verifier_key env kid v)) = v_statusCache v" for kid
    using r [of True] r [of False]
    by (auto simp: verifier_key_def same_status_config_def split: option.split prod.split)
  have "v' = v \<or> (\<exists>kid. v' = snd (verifier_key env kid v))"
  proof (cases "ae_jwt_header env raw")
    case (Some a)
    obtain alg kid where a: "a = (alg, kid)" by fastforce
    obtain o1 v1 where vk: "verifier_key env kid v = (o1, v1)" by fastforce
    have "v' = v \<or> v' = v1"
      using assms Some a vk by (auto simp: Verify_def split: option.splits if_splits)
    with vk show ?thesis by (metis snd_conv)
  qed (use assms in \<open>simp add: Verify_def\<close>)
  then show ?thesis using k by (auto simp: same_status_config_def)
qed

text \<open>A history of requests to one handler.\<close>

fun serve_run :: "Handler \<Rightarrow> (authz_env \<times> inference_request) list \<Rightarrow> Verifier \<Rightarrow> Verifier" where
  "serve_run hn [] v = v"
| "serve_run hn ((env, req) # rs) v = serve_run hn rs (snd (ServeHTTP env hn req v))"

lemma gate_inv:
  assumes "cache_inv log v" "entitlement_gate env hn claims model v = (res, v')"
  shows "cache_inv (insert env log) v' \<and> same_status_config v v'"
proof (cases "h_requireEntitlement hn \<and> h_canCheck hn")
  case True
  with assms CheckEntitlement_inv show ?thesis by (auto simp: entitlement_gate_def)
next
  case False
  then have "v' = v" using assms(2) by (auto simp: entitlement_gate_def split: if_splits)
  then show ?thesis
    using cache_inv_mono [OF assms(1), of "insert env log" v] by (auto simp: same_status_config_def)
qed

lemma serve_claims_state:
  "snd (serve_claims env hn req requested claims v) = v
   \<or> (\<exists>model. snd (serve_claims env hn req requested claims v) = snd (entitlement_gate env hn claims model v))"
proof -
  have "snd (serve_model env hn req claims body model v) = v
     \<or> snd (serve_model env hn req claims body model v) = snd (entitlement_gate env hn claims model v)" for body model
    unfolding serve_model_def by (auto split: prod.split sum.split check_error.split option.split)
  then show ?thesis
    unfolding serve_claims_def by (auto split: sum.split prod.split body_error.split)
qed

lemma ServeHTTP_inv:
  assumes "cache_inv log v"
  shows "cache_inv (insert env log) (snd (ServeHTTP env hn req v)) \<and> same_status_config v (snd (ServeHTTP env hn req v))"
proof -
  let ?v' = "snd (ServeHTTP env hn req v)"
  have keep: "cache_inv (insert env log) w \<and> same_status_config v w"
    if "same_status_config v w" "v_statusCache w = v_statusCache v" for w
    using cache_inv_mono [OF assms, of "insert env log" w] that by auto
  consider (same) "same_status_config v ?v' \<and> v_statusCache ?v' = v_statusCache v"
    | (claims) claims v1 rq rm raw where "Verify env raw v = (Some claims, v1)" "?v' = snd (serve_claims env hn rq rm claims v1)"
  proof -
    let ?h = "withRequestID (ae_uuid env) (rq_Header req)"
    obtain raw ok where b: "bearerToken (hget ?h ''Authorization'') = (raw, ok)" by fastforce
    obtain o1 v1 where w: "Verify env raw v = (o1, v1)" by fastforce
    have ready: "same_status_config v (snd (Ready env v)) \<and> v_statusCache (snd (Ready env v)) = v_statusCache v"
      by (simp add: Ready_def refresh_def same_status_config_def split: option.split)
    have "?v' = v \<or> ?v' = snd (Ready env v) \<or> ?v' = v1 \<or> (\<exists>claims rq rm. o1 = Some claims \<and> ?v' = snd (serve_claims env hn rq rm claims v1))"
      using b w by (auto simp: ServeHTTP_def Let_def split: prod.split option.split)
    with ready Verify_frame [OF w] w that show ?thesis by (auto simp: same_status_config_def)
  qed
  then show ?thesis
  proof cases
    case same
    then show ?thesis using keep by blast
  next
    case claims
    have inv1: "cache_inv log v1" and same1: "same_status_config v v1"
      using cache_inv_mono [OF assms, of log v1] Verify_frame [OF claims(1)] by auto
    from serve_claims_state [of env hn rq rm claims v1] show ?thesis
    proof (elim disjE exE)
      assume "snd (serve_claims env hn rq rm claims v1) = v1"
      with claims(2) keep Verify_frame [OF claims(1)] show ?thesis by simp
    next
      fix model
      assume m: "snd (serve_claims env hn rq rm claims v1) = snd (entitlement_gate env hn claims model v1)"
      have "cache_inv (insert env log) ?v' \<and> same_status_config v1 ?v'"
        using gate_inv [OF inv1, of env hn claims model] m claims(2) by (metis surjective_pairing)
      with same1 show ?thesis by (simp add: same_status_config_def)
    qed
  qed
qed

lemma serve_run_inv:
  "cache_inv log v \<Longrightarrow> cache_inv (fst ` set rs \<union> log) (serve_run hn rs v) \<and> same_status_config v (serve_run hn rs v)"
proof (induction rs arbitrary: log v)
  case (Cons r rs)
  obtain env req where r: "r = (env, req)" by fastforce
  have "cache_inv (insert env log) (snd (ServeHTTP env hn req v)) \<and> same_status_config v (snd (ServeHTTP env hn req v))"
    by (rule ServeHTTP_inv) (rule Cons.prems)
  with Cons.IH [of "insert env log" "snd (ServeHTTP env hn req v)"] show ?case
    by (auto simp: r same_status_config_def)
qed (simp add: same_status_config_def)

section \<open>A concrete exchange\<close>

definition demo_claims :: ModelClaims where
  "demo_claims = \<lparr> mc_DeploymentID = ''acme'', mc_SessionID = ''s1'', mc_LicenseID = ''lic'', mc_LicenseDigest = ''d'',
     mc_ModelScopes = [''gpt''], mc_TokenUse = ''entitlement'', mc_Subject = ''alice'', mc_Audience = [''aep-entitlement''] \<rparr>"

definition demo_authz :: "time \<Rightarrow> authz_env" where
  "demo_authz t = \<lparr> ae_now = t, ae_fetched = t, ae_uuid = ''id1'',
     ae_codec = \<lparr> bc_media = (\<lambda>_. None), bc_parts = (\<lambda>_ _. PartsEnd), bc_json = (\<lambda>_. Some ''gpt'') \<rparr>,
     ae_jwks = Reply 200 (Some ''keys''),
     ae_jwks_decode = (\<lambda>_. Some [\<lparr> jwk_Kty = ''OKP'', jwk_Kid = ''k'', jwk_Use = ''sig'', jwk_Alg = ''EdDSA'', jwk_Crv = ''Ed25519'',
        jwk_X = replicate 43 (CHR ''A'') \<rparr>]),
     ae_jwt_header = (\<lambda>_. Some (''EdDSA'', ''k'')), ae_jwt_check = (\<lambda>_ _ _ _ _. Some demo_claims),
     ae_join_path = (\<lambda>a b. Some a), ae_status = (\<lambda>_ c m. if c = demo_claims \<and> m = ''gpt'' then Reply 200 (Some ''status'') else NoReply),
     ae_status_decode = (\<lambda>_. Some (True, ''d'', ''acme'')),
     ae_identity = (\<lambda>_ _. NoReply), ae_identity_decode = (\<lambda>_. None) \<rparr>"

definition demo_handler :: Handler where
  "demo_handler = \<lparr> h_limit = 100, h_requireEntitlement = True, h_canCheck = True, h_identityURL = [] \<rparr>"

definition demo_verifier :: Verifier where
  "demo_verifier = ConfigureLicenseStatus ''http://status'' ''secret'' (15 * second) (NewVerifier ''http://issuer'' (5 * minute))"

definition demo_request :: inference_request where
  "demo_request = \<lparr> rq_Method = ''POST'', rq_Path = ''/v1/chat/completions'',
     rq_Header = [''Authorization'' \<mapsto> [''Bearer t0''], ''X-Aep-User-Id'' \<mapsto> [''root''], ''X-Request-Id'' \<mapsto> [''req-1'']],
     rq_Body = Some ''body'' \<rparr>"

lemma demo_header: "withRequestID (ae_uuid (demo_authz t)) (rq_Header demo_request) = rq_Header demo_request"
proof -
  have "runes ''req-1'' = map byte ''req-1''" by (rule runes_ascii) (simp add: byte_def)
  then have "validRequestID ''req-1''" by (simp add: validRequestID_def byte_def)
  then show ?thesis by (simp add: withRequestID_def demo_request_def hget_def hset_def canonical_names fun_eq_iff)
qed

lemma demo_bearer: "bearerToken (hget (rq_Header demo_request) ''Authorization'') = (''t0'', True)"
proof -
  have t: "trim_space ''Bearer t0'' = ''Bearer t0''" "trim_space ''t0'' = ''t0''"
    by (simp_all add: trim_space_def trim_right_def space1_def space2_def space3_def byte_def)
  have "to_lower ''Bearer'' = ''bearer''" by code_simp
  then show ?thesis by (simp add: bearerToken_def demo_request_def hget_def canonical_names t)
qed

lemma demo_published: "published_keys (demo_authz t) = Some [''k'' \<mapsto> replicate 32 (CHR 0x00)]"
proof -
  have "base64url_decode (replicate 43 (CHR ''A'')) = Some (replicate 32 (CHR 0x00))" by code_simp
  then show ?thesis by (simp add: published_keys_def demo_authz_def usable_key_def)
qed

lemma demo_verify:
  "Verify (demo_authz t) ''t0'' demo_verifier =
     (Some demo_claims, demo_verifier \<lparr> v_keys := [''k'' \<mapsto> replicate 32 (CHR 0x00)], v_fetchedAt := Some t \<rparr>)"
proof -
  have "v_keys demo_verifier ''k'' = None" by (simp add: demo_verifier_def ConfigureLicenseStatus_def NewVerifier_def)
  then have "verifier_key (demo_authz t) ''k'' demo_verifier =
      (Some (replicate 32 (CHR 0x00)), demo_verifier \<lparr> v_keys := [''k'' \<mapsto> replicate 32 (CHR 0x00)], v_fetchedAt := Some t \<rparr>)"
    by (simp add: verifier_key_def refresh_def demo_published) (simp add: demo_authz_def)
  moreover have "ae_jwt_header (demo_authz t) ''t0'' = Some (''EdDSA'', ''k'')"
    "ae_jwt_check (demo_authz t) k i a n ''t0'' = Some demo_claims" for k i a n
    by (simp_all add: demo_authz_def)
  moreover have "aep_claims_ok demo_claims" by (simp add: aep_claims_ok_def demo_claims_def)
  ultimately show ?thesis by (simp add: Verify_def)
qed

lemma demo_proxied: "\<exists>H v'. ServeHTTP (demo_authz t) demo_handler demo_request demo_verifier = (Proxied H ''body'', v')"
proof -
  let ?v = "demo_verifier \<lparr> v_keys := [''k'' \<mapsto> replicate 32 (CHR 0x00)], v_fetchedAt := Some t \<rparr>"
  have gpt: "trim_space ''gpt'' = ''gpt''"
    by (simp add: trim_space_def trim_right_def space1_def space2_def space3_def byte_def)
  have rm: "request_model (demo_authz t) demo_handler demo_request rq = Inr (''body'', ''gpt'')" for rq
    by (simp add: request_model_def readModelRequest_def jsonModelField_def demo_request_def demo_authz_def demo_handler_def gpt)
  have url: "v_licenseStatusURL ?v \<noteq> []" "v_licenseStatusToken ?v \<noteq> []" "v_statusCache ?v = (\<lambda>_. None)"
    by (simp_all add: demo_verifier_def ConfigureLicenseStatus_def NewVerifier_def trim_byte_right_def)
  have act: "status_answer (demo_authz t) v demo_claims ''gpt'' = Some True" for v
    by (simp add: status_answer_def demo_authz_def) (simp add: demo_claims_def)
  have "\<exists>v'. entitlement_gate (demo_authz t) demo_handler demo_claims ''gpt'' ?v = (Inr (), v')"
    using url by (simp add: entitlement_gate_def demo_handler_def CheckEntitlement_def expire_def Let_def act)
  moreover obtain policy where "Headers ''gpt'' ''alice'' [] [] = Some policy"
    using Headers_small [of "[]" "[]" "''gpt''" "''alice''"] by auto
  ultimately have "\<exists>H v'. serve_model (demo_authz t) demo_handler demo_request demo_claims ''body'' ''gpt'' ?v = (Proxied H ''body'', v')"
    by (auto simp: serve_model_def identity_for_def demo_handler_def Let_def demo_claims_def split: prod.split)
  then have "\<exists>H v'. serve_claims (demo_authz t) demo_handler demo_request rq demo_claims ?v = (Proxied H ''body'', v')" for rq
    by (simp add: serve_claims_def rm gpt) (simp add: demo_claims_def)
  then show ?thesis
    using demo_header [of t] demo_bearer demo_verify [of t]
    by (simp add: ServeHTTP_def Let_def) (simp add: demo_request_def)
qed

section \<open>Properties\<close>

text \<open>
  (C3) No request reaches the upstream without authorization. If the handler forwards a request, then
  the request carried a bearer token that the verifier accepted with valid AEP claims; the model it
  names (in the body, or in \<^verbatim>\<open>X-AEP-Model-ID\<close> for a GET) is one of the token's model scopes;
  when entitlements are enforced the token is an entitlement token and the entitlement check for that
  model succeeded in this very request; the identity source confirmed the subject; and the forwarded
  body is the one read, within the configured limit.
\<close>

theorem proxied_only_if_authorized:
  assumes "ServeHTTP env hn req v = (Proxied H body, v')"
    "h = withRequestID (ae_uuid env) (rq_Header req)"
  shows "\<exists>raw claims v1 model ident. bearerToken (hget h ''Authorization'') = (raw, True)
    \<and> Verify env raw v = (Some claims, v1) \<and> aep_claims_ok claims
    \<and> model \<noteq> [] \<and> length model \<le> 256 \<and> model \<in> set (mc_ModelScopes claims)
    \<and> (rq_Method req = ''GET'' \<and> body = [] \<and> model = trim_space (hget h ''X-AEP-Model-ID'')
       \<or> rq_Method req = ''POST'' \<and> length body \<le> h_limit hn
          \<and> (\<exists>m. readModelRequest (ae_codec env) (rq_Body req) h (h_limit hn) = Inr (body, m) \<and> model = trim_space m))
    \<and> (h_requireEntitlement hn \<longrightarrow> mc_TokenUse claims = ''entitlement'' \<and> CheckEntitlement env claims model v1 = (Inr (), v'))
    \<and> identity_for env (h_identityURL hn) claims model = Inr ident
    \<and> H ''X-Aep-User-Id'' = Some [mc_Subject claims] \<and> H ''X-Aep-Deployment-Id'' = Some [mc_DeploymentID claims]
    \<and> H ''X-Aep-Session-Id'' = Some [mc_SessionID claims] \<and> H ''X-Aep-Model-Id'' = Some [model]
    \<and> H ''X-Mse-Consumer'' = Some [gi_Consumer ident]"
proof (rule Proxied_facts [OF assms], goal_cases)
  case (1 raw claims v1 m0 model ident policy)
  have body: "length body \<le> h_limit hn" if "rq_Method req = ''POST''"
    using 1(4) that by (auto simp: request_model_def readModelRequest_def Let_def split: option.splits if_splits sum.splits)
  have ent: "CheckEntitlement env claims model v1 = (Inr (), v')" if "h_requireEntitlement hn"
    using 1(10) that by (simp add: entitlement_gate_def split: if_splits)
  have "rq_Method req = ''GET'' \<and> body = [] \<and> model = trim_space (hget h ''X-AEP-Model-ID'')
       \<or> rq_Method req = ''POST'' \<and> length body \<le> h_limit hn
          \<and> (\<exists>m. readModelRequest (ae_codec env) (rq_Body req) h (h_limit hn) = Inr (body, m) \<and> model = trim_space m)"
    using 1(3-5) body by (auto simp: request_model_def)
  moreover have "aep_claims_ok claims" using 1(2) by (rule Verify_ok)
  ultimately show ?case
    using 1(1,2,6-9,11) ent forwarded_identity [OF 1(12,13)]
    by (intro exI [of _ raw] exI [of _ claims] exI [of _ v1] exI [of _ model] exI [of _ ident] conjI) simp_all
qed

theorem proxied_only_if_authorized_witness:
  "\<exists>H v' (claims :: ModelClaims). ServeHTTP (demo_authz 0) demo_handler demo_request demo_verifier = (Proxied H ''body'', v')
     \<and> H ''X-Aep-User-Id'' = Some [mc_Subject claims] \<and> mc_TokenUse claims = ''entitlement''"
proof -
  obtain H v' where p: "ServeHTTP (demo_authz 0) demo_handler demo_request demo_verifier = (Proxied H ''body'', v')"
    using demo_proxied by blast
  have r: "h_requireEntitlement demo_handler" by (simp add: demo_handler_def)
  show ?thesis using proxied_only_if_authorized [OF p refl] p r by blast
qed



text \<open>
  Tokens are only checked against current keys. A token is accepted under a key that is in the
  verifier's key set after the call, and that set either is younger than the cache lifetime or was
  fetched from the JWKS endpoint by this very call; when the cache is stale and the endpoint does not
  deliver usable keys the token is refused.
\<close>

theorem accepted_token_used_current_key:
  assumes "Verify env raw v = (Some claims, v')"
  shows "\<exists>kid k. ae_jwt_header env raw = Some (''EdDSA'', kid) \<and> v_keys v' kid = Some k
    \<and> ae_jwt_check env k (v_issuer v) [''model-gateway'', ''aep-entitlement''] (ae_now env) raw = Some claims
    \<and> ((\<exists>t. v' = v \<and> v_fetchedAt v = Some t \<and> ae_now env - t < v_ttl v)
       \<or> (published_keys env = Some (v_keys v') \<and> v_fetchedAt v' = Some (ae_fetched env)))"
proof -
  from assms obtain kid k where *: "ae_jwt_header env raw = Some (''EdDSA'', kid)" "verifier_key env kid v = (Some k, v')"
    "ae_jwt_check env k (v_issuer v') [''model-gateway'', ''aep-entitlement''] (ae_now env) raw = Some claims"
    by (rule Verify_ok)
  from verifier_key_current [OF *(2)] * show ?thesis by (auto simp: fresh_def split: option.splits)
qed

theorem accepted_token_used_current_key_witness:
  "\<exists>v'. Verify (demo_authz 0) ''t0'' demo_verifier = (Some demo_claims, v') \<and> v_fetchedAt v' = Some 0
     \<and> (\<exists>kid k. v_keys v' kid = Some k)"
proof -
  let ?v' = "demo_verifier \<lparr> v_keys := [''k'' \<mapsto> replicate 32 (CHR 0x00)], v_fetchedAt := Some 0 \<rparr>"
  from accepted_token_used_current_key [OF demo_verify [of 0]] have "\<exists>kid k. v_keys ?v' kid = Some k" by blast
  with demo_verify [of 0] show ?thesis by (intro exI [of _ ?v']) simp
qed

text \<open>A forwarded request is backed by an answer of the status endpoint.\<close>

lemma forwarded_backed_by_status:
  assumes cfg: "Validate parse cfg" "ac_Environment cfg = ''production''" "0 < ac_LicenseStatusTTL cfg"
    and hn: "h_requireEntitlement hn = ac_RequireEntitlement cfg"
    and v0: "v0 = ConfigureLicenseStatus (ac_LicenseStatusURL cfg) (ac_LicenseStatusToken cfg) (ac_LicenseStatusTTL cfg) (NewVerifier issuer ttl)"
    and fwd: "ServeHTTP env hn req (serve_run hn history v0) = (Proxied H body, v')"
  shows "\<exists>raw claims v1 model env' c m. Verify env raw (serve_run hn history v0) = (Some claims, v1)
      \<and> H ''X-Aep-User-Id'' = Some [mc_Subject claims] \<and> H ''X-Aep-Model-Id'' = Some [model]
      \<and> env' \<in> insert env (fst ` set history) \<and> ae_now env < ae_now env' + 15 * second
      \<and> status_key c m = status_key claims model \<and> status_answer env' v0 c m = Some True
      \<and> (nul_free c m \<and> nul_free claims model \<longrightarrow> mc_LicenseID c = mc_LicenseID claims \<and> mc_DeploymentID c = mc_DeploymentID claims
           \<and> mc_Subject c = mc_Subject claims \<and> mc_SessionID c = mc_SessionID claims \<and> m = model)"
proof -
  let ?v = "serve_run hn history v0"
  have cfg': "ac_RequireEntitlement cfg" "ac_LicenseStatusTTL cfg \<le> 15 * second"
    using cfg(1,2) by (simp_all add: Validate_def)
  have "cache_inv {} v0" by (simp add: v0 cache_inv_def ConfigureLicenseStatus_def)
  from serve_run_inv [OF this, of history hn] have inv: "cache_inv (fst ` set history) ?v" "same_status_config v0 ?v" by simp_all
  obtain raw claims v1 model ident policy rid where vf: "Verify env raw ?v = (Some claims, v1)"
    and g: "entitlement_gate env hn claims model v1 = (Inr (), v')"
    and hs: "Headers model (mc_Subject claims) (gi_Teams ident) (gi_Roles ident) = Some policy"
      "H = forward_headers (trusted_headers rid ident policy claims model) (withRequestID (ae_uuid env) (rq_Header req))"
    by (rule Proxied_facts [OF fwd refl]) (rule that)
  have ce: "CheckEntitlement env claims model v1 = (Inr (), v')"
    using g cfg'(1) hn by (simp add: entitlement_gate_def split: if_splits)
  have same: "same_status_config v0 v1" "v_statusCache v1 = v_statusCache ?v" "same_status_config ?v v1"
    using Verify_frame [OF vf] inv(2) by (auto simp: same_status_config_def)
  have inv1: "cache_inv (fst ` set history) v1"
    by (rule cache_inv_mono [OF inv(1) _ same(3)]) (simp_all add: same(2))
  have ttl: "v_licenseStatusTTL v1 = ac_LicenseStatusTTL cfg"
    using same(1) by (simp add: same_status_config_def v0 ConfigureLicenseStatus_def)
  have "0 < v_licenseStatusTTL v1" using ttl cfg(3) by simp
  from CheckEntitlement_backed [OF inv1 ce this] obtain env' where e: "env' \<in> insert env (fst ` set history)"
    "approved v1 env' (status_key claims model)" "ae_now env < ae_now env' + ac_LicenseStatusTTL cfg" unfolding ttl by blast
  then obtain c m where c: "status_key c m = status_key claims model" "status_answer env' v0 c m = Some True"
    using status_answer_cong [OF same(1)] unfolding approved_def by auto
  have "ae_now env < ae_now env' + 15 * second" using e(3) cfg'(2) by linarith
  with vf forwarded_identity(6,8) [OF hs] e(1) c status_key_inject [OF c(1)] show ?thesis by blast
qed

text \<open>
  (C17) A withdrawn entitlement is honoured for less than 15 seconds in production. Take a
  configuration that the service accepts for production and any history of requests: if a further
  request is forwarded, then the status endpoint itself answered ``active'' for the same cache key
  (the same license, deployment, user, session and model, as long as these contain no NUL byte), in a
  request that was made less than 15 seconds before.
\<close>

theorem entitlement_revocation_bound:
  assumes cfg: "Validate parse cfg" "ac_Environment cfg = ''production''" "0 < ac_LicenseStatusTTL cfg"
    and hn: "h_requireEntitlement hn = ac_RequireEntitlement cfg"
    and v0: "v0 = ConfigureLicenseStatus (ac_LicenseStatusURL cfg) (ac_LicenseStatusToken cfg) (ac_LicenseStatusTTL cfg) (NewVerifier issuer ttl)"
    and fwd: "ServeHTTP env hn req (serve_run hn history v0) = (Proxied H body, v')"
  shows "\<exists>raw claims v1 model env' c m. Verify env raw (serve_run hn history v0) = (Some claims, v1)
      \<and> H ''X-Aep-User-Id'' = Some [mc_Subject claims] \<and> H ''X-Aep-Model-Id'' = Some [model]
      \<and> env' \<in> insert env (fst ` set history) \<and> ae_now env < ae_now env' + 15 * second
      \<and> status_key c m = status_key claims model \<and> status_answer env' v0 c m = Some True
      \<and> (nul_free c m \<and> nul_free claims model \<longrightarrow> mc_LicenseID c = mc_LicenseID claims \<and> mc_DeploymentID c = mc_DeploymentID claims
           \<and> mc_Subject c = mc_Subject claims \<and> mc_SessionID c = mc_SessionID claims \<and> m = model)"
  using assms by (rule forwarded_backed_by_status)

definition demo_config_prod :: authorizer_config where
  "demo_config_prod = \<lparr> ac_Environment = ''production'', ac_LogFormat = ''json'', ac_LogLevel = ''info'', ac_UpstreamURL = ''u'',
     ac_JWKSURL = ''j'', ac_Issuer = ''i'', ac_RequireEntitlement = True, ac_LicenseStatusURL = ''http://status'',
     ac_LicenseStatusToken = ''secret'', ac_LicenseStatusTTL = 15 * second, ac_IdentityURL = [] \<rparr>"

theorem entitlement_revocation_bound_witness:
  "\<exists>H v' env' c m. ServeHTTP (demo_authz 0) demo_handler demo_request demo_verifier = (Proxied H ''body'', v')
     \<and> status_answer env' demo_verifier c m = Some True \<and> ae_now (demo_authz 0) < ae_now env' + 15 * second"
proof -
  let ?parse = "\<lambda>_. Some \<lparr> url_Scheme = ''https'', url_Host = ''h'', url_User = False, url_RawQuery = [], url_Fragment = [] \<rparr>"
  have v: "Validate ?parse demo_config_prod" "ac_Environment demo_config_prod = ''production''" "0 < ac_LicenseStatusTTL demo_config_prod"
    "h_requireEntitlement demo_handler = ac_RequireEntitlement demo_config_prod"
    "demo_verifier = ConfigureLicenseStatus (ac_LicenseStatusURL demo_config_prod) (ac_LicenseStatusToken demo_config_prod)
       (ac_LicenseStatusTTL demo_config_prod) (NewVerifier ''http://issuer'' (5 * minute))"
    by (simp_all add: Validate_def absolute_http_def demo_config_prod_def demo_handler_def demo_verifier_def)
  obtain H v' where p: "ServeHTTP (demo_authz 0) demo_handler demo_request (serve_run demo_handler [] demo_verifier) = (Proxied H ''body'', v')"
    using demo_proxied [of 0] unfolding serve_run.simps by blast
  from entitlement_revocation_bound [OF v p] p show ?thesis by (simp only: serve_run.simps) blast
qed

text \<open>
  The membership headers carry exactly the memberships: a team (or role) identifier is found in
  the header by the filter of the log queries, the identifier's encoding between two bars, if and only
  if it is one of the identifiers the header was made from; and the header does not depend on the order
  or repetition of the identifiers.
\<close>

theorem membership_header_exact:
  assumes "membershipHeader ids = Some h" "set ids' = set ids"
  shows "(str_contains h (''|'' @ encodeID i @ ''|'') \<longleftrightarrow> i \<in> set ids)
    \<and> membership_pattern i = ''.*'' @ [bs, CHR ''|''] @ encodeID i @ [bs, CHR ''|''] @ ''.*''
    \<and> membershipHeader ids' = Some h"
  using membershipHeader_contains [OF assms(1)] membershipHeader_set [OF assms(2)] assms(1) membership_pattern_literal
  by (simp add: encodeID_def)

theorem membership_header_exact_witness:
  "\<exists>h. membershipHeader [''b'', ''a''] = Some h \<and> membershipHeader [''a'', ''b'', ''a''] = Some h
     \<and> \<not> str_contains h (''|'' @ encodeID ''c'' @ ''|'')"
proof -
  obtain h where h: "membershipHeader [''b'', ''a''] = Some h"
    by (auto simp: membershipHeader_def)
  from membership_header_exact [OF h, of "[''a'', ''b'', ''a'']" "''c''"] h show ?thesis by auto
qed

end
