(* ===== verification/Token_Service.thy ===== *)
theory Token_Service
  imports Authorizer
begin

text \<open>
  Token issuing and parsing of the control service (\<^verbatim>\<open>internal/auth/tokens.go\<close>,
  \<^verbatim>\<open>jwt_discovery.go\<close>) and how its tokens meet the gateway authorizer. The JWT library and the
  Ed25519 primitive are the record \<open>jwt_lib\<close>; what the code relies on of them is \<open>jwt_laws\<close>.
\<close>

section \<open>Claims and the token library\<close>

record Claims =
  tc_DeploymentID :: string
  tc_SessionID :: string
  tc_LicenseID :: string
  tc_LicenseDigest :: string
  tc_Features :: "string list"
  tc_Admin :: bool
  tc_Roles :: "string list"
  tc_ModelScopes :: "string list"
  tc_PasswordChangeRequired :: bool
  tc_TokenUse :: string
  tc_Issuer :: string
  tc_Subject :: string
  tc_Audience :: "string list"
  tc_ExpiresAt :: time
  tc_IssuedAt :: time
  tc_ID :: string

text \<open>
  \<open>jl_public\<close> is the public key of an Ed25519 seed, \<open>jl_date\<close> is
  \<^verbatim>\<open>jwt.NewNumericDate\<close>, \<open>jl_sign seed kid claims\<close> is \<^verbatim>\<open>SignedString\<close> with EdDSA,
  \<open>jl_decode\<close> yields algorithm, key identifier and claims of a token that is well formed, and
  \<open>jl_valid key issuer audiences issuedAt now raw\<close> says that its signature verifies under
  \<open>key\<close> and that issuer, audience and expiry (and the issue time, when asked for) are accepted.
\<close>

record jwt_lib =
  jl_public :: "string \<Rightarrow> string"
  jl_date :: "time \<Rightarrow> time"
  jl_sign :: "string \<Rightarrow> string \<Rightarrow> Claims \<Rightarrow> string option"
  jl_decode :: "string \<Rightarrow> (string \<times> string \<times> Claims) option"
  jl_valid :: "string \<Rightarrow> string \<Rightarrow> string list \<Rightarrow> bool \<Rightarrow> time \<Rightarrow> string \<Rightarrow> bool"

text \<open>Text that JSON carries unchanged: valid UTF-8.\<close>

definition json_text :: "string \<Rightarrow> bool" where
  "json_text s \<longleftrightarrow> concat (map encode_rune (runes s)) = s"

lemma json_ascii: "list_all (\<lambda>c. byte c < 128) s \<Longrightarrow> json_text s"
  unfolding json_text_def by (induction s) (simp_all add: runes_ascii_Cons encode_rune_def)

definition claims_text :: "Claims \<Rightarrow> bool" where
  "claims_text c \<longleftrightarrow> list_all json_text ([tc_DeploymentID c, tc_SessionID c, tc_LicenseID c, tc_LicenseDigest c, tc_TokenUse c,
     tc_Issuer c, tc_Subject c, tc_ID c] @ tc_Features c @ tc_Roles c @ tc_ModelScopes c @ tc_Audience c)"

definition jwt_laws :: "jwt_lib \<Rightarrow> bool" where
  "jwt_laws lib \<longleftrightarrow>
     (\<forall>seed. length seed = 32 \<longrightarrow> length (jl_public lib seed) = 32)
   \<and> (\<forall>t. jl_date lib t \<le> t \<and> t < jl_date lib t + second)
   \<and> (\<forall>seed kid c raw. claims_text c \<longrightarrow> jl_sign lib seed kid c = Some raw \<longrightarrow>
        jl_decode lib raw = Some (''EdDSA'', kid, c)
      \<and> (\<forall>issuer auds iat now. issuer \<noteq> [] \<longrightarrow> auds \<noteq> [] \<longrightarrow>
           (jl_valid lib (jl_public lib seed) issuer auds iat now raw \<longleftrightarrow>
              tc_Issuer c = issuer \<and> set (tc_Audience c) \<inter> set auds \<noteq> {} \<and> now < tc_ExpiresAt c
            \<and> (iat \<longrightarrow> tc_IssuedAt c \<le> now))))"

section \<open>The service\<close>

record Service =
  sv_issuer :: string
  sv_keyID :: string
  sv_private :: string
  sv_public :: string
  sv_accessTTL :: duration
  sv_modelTTL :: duration

text \<open>\<open>generated\<close> is the seed of \<^verbatim>\<open>ed25519.GenerateKey\<close>, which may fail.\<close>

definition NewService :: "jwt_lib \<Rightarrow> string option \<Rightarrow> string \<Rightarrow> string \<Rightarrow> duration \<Rightarrow> duration \<Rightarrow> Service option" where
  "NewService lib generated issuer encodedSeed accessTTL modelTTL =
     (case (if encodedSeed = [] then generated
            else case base64std_decode encodedSeed of
              None \<Rightarrow> None
            | Some seed \<Rightarrow> if length seed \<noteq> 32 then None else Some seed) of
        None \<Rightarrow> None
      | Some private \<Rightarrow>
         (let public = jl_public lib private; dig = sha256 public in
          Some \<lparr> sv_issuer = issuer, sv_keyID = base64url (take 8 dig), sv_private = private, sv_public = public,
                 sv_accessTTL = accessTTL, sv_modelTTL = modelTTL \<rparr>))"

definition sign ::
  "jwt_lib \<Rightarrow> Service \<Rightarrow> time \<Rightarrow> string \<Rightarrow> string \<Rightarrow> string \<Rightarrow> string \<Rightarrow> bool \<Rightarrow> bool \<Rightarrow> string list \<Rightarrow> string list
     \<Rightarrow> string \<Rightarrow> string \<Rightarrow> duration \<Rightarrow> string option" where
  "sign lib s now uuid userID deploymentID sessionID admin passwordChangeRequired roles modelScopes tokenUse audience ttl =
     (let claims = \<lparr> tc_DeploymentID = deploymentID, tc_SessionID = sessionID, tc_LicenseID = [], tc_LicenseDigest = [], tc_Features = [],
            tc_Admin = admin, tc_Roles = roles, tc_ModelScopes = modelScopes, tc_PasswordChangeRequired = passwordChangeRequired,
            tc_TokenUse = tokenUse, tc_Issuer = sv_issuer s, tc_Subject = userID, tc_Audience = [audience],
            tc_ExpiresAt = jl_date lib (now + ttl), tc_IssuedAt = jl_date lib now, tc_ID = uuid \<rparr> in
      jl_sign lib (sv_private s) (sv_keyID s) claims)"

text \<open>The two signatures of one call read the clock and draw an identifier each.\<close>

definition issue ::
  "jwt_lib \<Rightarrow> Service \<Rightarrow> time \<times> string \<Rightarrow> time \<times> string \<Rightarrow> string \<Rightarrow> string \<Rightarrow> string \<Rightarrow> bool \<Rightarrow> bool \<Rightarrow> string list \<Rightarrow> string list
     \<Rightarrow> (string \<times> string) option" where
  "issue lib s draw1 draw2 userID deploymentID sessionID admin passwordChangeRequired roles modelScopes =
     (case sign lib s (fst draw1) (snd draw1) userID deploymentID sessionID admin passwordChangeRequired roles [] ''aep'' ''aep-control'' (sv_accessTTL s) of
        None \<Rightarrow> None
      | Some access \<Rightarrow>
         (case sign lib s (fst draw2) (snd draw2) userID deploymentID sessionID False passwordChangeRequired [] modelScopes ''model'' ''model-gateway'' (sv_modelTTL s) of
            None \<Rightarrow> None
          | Some model \<Rightarrow> Some (access, model)))"

definition IssueWithDeploymentSession ::
  "jwt_lib \<Rightarrow> Service \<Rightarrow> time \<times> string \<Rightarrow> time \<times> string \<Rightarrow> string \<Rightarrow> string \<Rightarrow> string \<Rightarrow> bool \<Rightarrow> bool \<Rightarrow> string list \<Rightarrow> string list
     \<Rightarrow> (string \<times> string) option" where
  "IssueWithDeploymentSession = issue"

definition parse :: "jwt_lib \<Rightarrow> Service \<Rightarrow> string \<Rightarrow> string \<Rightarrow> time \<Rightarrow> string \<Rightarrow> Claims option" where
  "parse lib s audience tokenUse now raw =
     (case jl_decode lib raw of
        None \<Rightarrow> None
      | Some (alg, _, claims) \<Rightarrow>
          if alg \<noteq> ''EdDSA'' then None
          else if \<not> jl_valid lib (sv_public s) (sv_issuer s) [audience] False now raw then None
          else if tc_TokenUse claims \<noteq> tokenUse then None
          else Some claims)"

definition ParseAccess :: "jwt_lib \<Rightarrow> Service \<Rightarrow> time \<Rightarrow> string \<Rightarrow> Claims option" where
  "ParseAccess lib s = parse lib s ''aep-control'' ''aep''"

definition ParseModel :: "jwt_lib \<Rightarrow> Service \<Rightarrow> time \<Rightarrow> string \<Rightarrow> Claims option" where
  "ParseModel lib s = parse lib s ''model-gateway'' ''model''"

definition ParseEntitlement :: "jwt_lib \<Rightarrow> Service \<Rightarrow> time \<Rightarrow> string \<Rightarrow> Claims option" where
  "ParseEntitlement lib s = parse lib s ''aep-entitlement'' ''entitlement''"

text \<open>\<open>later\<close> is the clock when the new token is parsed back.\<close>

definition IssueModelToken ::
  "jwt_lib \<Rightarrow> Service \<Rightarrow> time \<Rightarrow> time \<Rightarrow> string \<Rightarrow> string \<Rightarrow> string \<Rightarrow> string \<Rightarrow> string list \<Rightarrow> (string \<times> time) option" where
  "IssueModelToken lib s now later uuid userID deploymentID sessionID modelScopes =
     (if userID = [] \<or> deploymentID = [] \<or> sessionID = [] then None
      else case sign lib s now uuid userID deploymentID sessionID False False [] modelScopes ''model'' ''model-gateway'' (sv_modelTTL s) of
        None \<Rightarrow> None
      | Some raw \<Rightarrow> map_option (\<lambda>claims. (raw, tc_ExpiresAt claims)) (ParseModel lib s later raw))"

definition IssueModelTestAccess ::
  "jwt_lib \<Rightarrow> Service \<Rightarrow> time \<Rightarrow> time \<Rightarrow> string \<Rightarrow> string \<Rightarrow> string \<Rightarrow> string \<Rightarrow> string \<Rightarrow> (string \<times> time) option" where
  "IssueModelTestAccess lib s now later uuid userID deploymentID sessionID modelID =
     (if userID = [] \<or> deploymentID = [] \<or> sessionID = [] \<or> modelID = [] then None
      else
       (let ttl = 2 * minute in
        case sign lib s now uuid userID deploymentID sessionID False False [] [modelID] ''model'' ''model-gateway'' ttl of
          None \<Rightarrow> None
        | Some raw \<Rightarrow> map_option (\<lambda>claims. (raw, tc_ExpiresAt claims)) (ParseModel lib s later raw)))"

definition entitlement_expiry :: "time \<Rightarrow> time option \<Rightarrow> time option" where
  "entitlement_expiry now licenseExpiresAt =
     (let maximum = now + 24 * hour in
      case (case licenseExpiresAt of
              None \<Rightarrow> Some maximum
            | Some e \<Rightarrow> if \<not> e > now then None else Some e) of
        None \<Rightarrow> None
      | Some expiresAt \<Rightarrow> Some (if expiresAt > maximum then maximum else expiresAt))"

definition IssueEntitlement ::
  "jwt_lib \<Rightarrow> Service \<Rightarrow> time \<Rightarrow> string \<Rightarrow> string \<Rightarrow> string \<Rightarrow> string \<Rightarrow> string \<Rightarrow> string \<Rightarrow> string list \<Rightarrow> string list \<Rightarrow> time option
     \<Rightarrow> (string \<times> time) option" where
  "IssueEntitlement lib s now uuid userID deploymentID sessionID licenseID licenseDigest features modelScopes licenseExpiresAt =
     (if userID = [] \<or> deploymentID = [] \<or> sessionID = [] \<or> licenseID = [] \<or> licenseDigest = [] then None
      else case entitlement_expiry now licenseExpiresAt of
        None \<Rightarrow> None
      | Some expiresAt \<Rightarrow>
         (let claims = \<lparr> tc_DeploymentID = deploymentID, tc_SessionID = sessionID, tc_LicenseID = licenseID, tc_LicenseDigest = licenseDigest,
                tc_Features = features, tc_Admin = False, tc_Roles = [], tc_ModelScopes = modelScopes, tc_PasswordChangeRequired = False,
                tc_TokenUse = ''entitlement'', tc_Issuer = sv_issuer s, tc_Subject = userID, tc_Audience = [''aep-entitlement''],
                tc_ExpiresAt = jl_date lib expiresAt, tc_IssuedAt = jl_date lib now, tc_ID = uuid \<rparr> in
          map_option (\<lambda>raw. (raw, expiresAt)) (jl_sign lib (sv_private s) (sv_keyID s) claims)))"

definition JWKS :: "Service \<Rightarrow> jwk list" where
  "JWKS s = [\<lparr> jwk_Kty = ''OKP'', jwk_Kid = sv_keyID s, jwk_Use = ''sig'', jwk_Alg = ''EdDSA'', jwk_Crv = ''Ed25519'',
               jwk_X = base64url (sv_public s) \<rparr>]"

text \<open>\<open>random\<close> is the outcome of \<^verbatim>\<open>rand.Read\<close>.\<close>

definition HashRefreshToken :: "string \<Rightarrow> string" where
  "HashRefreshToken raw = base64url (sha256 raw)"

definition NewRefreshToken :: "string option \<Rightarrow> (string \<times> string) option" where
  "NewRefreshToken random = map_option (\<lambda>bytes. let raw = base64url bytes in (raw, HashRefreshToken raw)) random"

record VerifierConfiguration =
  vc_Issuer :: string
  vc_JWKSURI :: string
  vc_SigningAlgorithms :: "string list"

definition VerifierConfiguration_of :: "(string \<Rightarrow> url option) \<Rightarrow> Service option \<Rightarrow> VerifierConfiguration option" where
  "VerifierConfiguration_of url_parse service =
     (case service of
        None \<Rightarrow> None
      | Some s \<Rightarrow>
         (case url_parse (sv_issuer s) of
            None \<Rightarrow> None
          | Some u \<Rightarrow>
              if url_Host u = [] \<or> (url_Scheme u \<noteq> ''http'' \<and> url_Scheme u \<noteq> ''https'') \<or> url_User u
                 \<or> list_ex (\<lambda>c. c = CHR ''?'' \<or> c = CHR ''#'') (sv_issuer s) then None
              else Some \<lparr> vc_Issuer = sv_issuer s,
                          vc_JWKSURI = trim_byte_right (CHR ''/'') (sv_issuer s) @ ''/.well-known/jwks.json'',
                          vc_SigningAlgorithms = [''EdDSA''] \<rparr>))"

section \<open>Token kinds\<close>

text \<open>
  What a parser of one kind of token promises its callers: the claims are those the token carries, and
  their use is the parser's. Two parsers of different use therefore never accept the same token, whoever
  signed it.
\<close>

locale token_parser =
  fixes parse_kind :: "time \<Rightarrow> string \<Rightarrow> Claims option"
    and carried :: "string \<Rightarrow> Claims option"
    and kind :: string
  assumes carried: "parse_kind now raw = Some c \<Longrightarrow> carried raw = Some c"
    and kind: "parse_kind now raw = Some c \<Longrightarrow> tc_TokenUse c = kind"

locale token_parsers = fst_parser: token_parser parse1 carried kind1 + snd_parser: token_parser parse2 carried kind2
  for parse1 parse2 :: "time \<Rightarrow> string \<Rightarrow> Claims option" and carried :: "string \<Rightarrow> Claims option"
    and kind1 kind2 :: string +
  assumes apart: "kind1 \<noteq> kind2"
begin

lemma never_both: "parse1 now raw = None \<or> parse2 later raw = None"
proof (rule ccontr)
  assume "\<not> ?thesis"
  then obtain c d where c: "parse1 now raw = Some c" and d: "parse2 later raw = Some d" by auto
  then have "c = d" using fst_parser.carried [OF c] snd_parser.carried [OF d] by simp
  then show False using fst_parser.kind [OF c] snd_parser.kind [OF d] apart by simp
qed

end

definition carried_claims :: "jwt_lib \<Rightarrow> string \<Rightarrow> Claims option" where
  "carried_claims lib raw = map_option (\<lambda>(_, _, c). c) (jl_decode lib raw)"

lemma parse_SomeD:
  assumes "parse lib s audience tokenUse now raw = Some c"
  shows "tc_TokenUse c = tokenUse" "carried_claims lib raw = Some c" "\<exists>kid. jl_decode lib raw = Some (''EdDSA'', kid, c)"
    "jl_valid lib (sv_public s) (sv_issuer s) [audience] False now raw"
  using assms by (auto simp: parse_def carried_claims_def split: option.splits prod.splits if_splits)

interpretation access_model: token_parsers "ParseAccess lib s" "ParseModel lib s" "carried_claims lib" "''aep''" "''model''" for lib s
  by unfold_locales (auto simp: ParseAccess_def ParseModel_def dest: parse_SomeD)

interpretation access_entitlement:
  token_parsers "ParseAccess lib s" "ParseEntitlement lib s" "carried_claims lib" "''aep''" "''entitlement''" for lib s
  by unfold_locales (auto simp: ParseAccess_def ParseEntitlement_def dest: parse_SomeD)

interpretation model_entitlement:
  token_parsers "ParseModel lib s" "ParseEntitlement lib s" "carried_claims lib" "''model''" "''entitlement''" for lib s
  by unfold_locales (auto simp: ParseModel_def ParseEntitlement_def dest: parse_SomeD)

section \<open>The authorizer reading these tokens\<close>

text \<open>\<^verbatim>\<open>ModelClaims\<close> declares a part of the members a token carries.\<close>

definition model_claims :: "Claims \<Rightarrow> ModelClaims" where
  "model_claims c = \<lparr> mc_DeploymentID = tc_DeploymentID c, mc_SessionID = tc_SessionID c, mc_LicenseID = tc_LicenseID c,
     mc_LicenseDigest = tc_LicenseDigest c, mc_ModelScopes = tc_ModelScopes c, mc_TokenUse = tc_TokenUse c,
     mc_Subject = tc_Subject c, mc_Audience = tc_Audience c \<rparr>"

definition authorizer_uses :: "jwt_lib \<Rightarrow> authz_env \<Rightarrow> bool" where
  "authorizer_uses lib env \<longleftrightarrow>
     (\<forall>raw. ae_jwt_header env raw = map_option (\<lambda>(alg, kid, _). (alg, kid)) (jl_decode lib raw))
   \<and> (\<forall>k issuer auds now raw. ae_jwt_check env k issuer auds now raw =
        (case jl_decode lib raw of
           None \<Rightarrow> None
         | Some (_, _, c) \<Rightarrow> if jl_valid lib k issuer auds True now raw then Some (model_claims c) else None))"

text \<open>The JWKS endpoint serves the key set of \<open>s\<close>.\<close>

definition serves_keys :: "Service \<Rightarrow> authz_env \<Rightarrow> bool" where
  "serves_keys s env \<longleftrightarrow>
     (case ae_jwks env of Reply status (Some doc) \<Rightarrow> status = 200 \<and> length doc \<le> 1048576 \<and> ae_jwks_decode env doc = Some (JWKS s)
      | _ \<Rightarrow> False)"

lemma keyID_nonempty: "NewService lib g issuer seed a m = Some s \<Longrightarrow> sv_keyID s \<noteq> []"
proof -
  assume "NewService lib g issuer seed a m = Some s"
  then obtain x where k: "sv_keyID s = base64url (take 8 (sha256 x))"
    by (auto simp: NewService_def Let_def split: option.splits)
  have "take 8 (sha256 x) \<noteq> []" using length_sha256 [of x] by (metis length_0_conv length_take min_0R nat.simps(3) numeral_eq_Suc take_eq_Nil zero_neq_numeral)
  then show "sv_keyID s \<noteq> []" using base64url_nonempty k by simp
qed

lemma NewService_fields:
  assumes "NewService lib g issuer seed a m = Some s"
  shows "sv_issuer s = issuer" "sv_public s = jl_public lib (sv_private s)" "sv_accessTTL s = a" "sv_modelTTL s = m"
    "seed \<noteq> [] \<Longrightarrow> length (sv_private s) = 32"
  using assms by (auto simp: NewService_def Let_def split: option.splits if_splits)

lemma jwt_signed:
  assumes "jwt_laws lib" "claims_text c" "jl_sign lib seed kid c = Some raw"
  shows "jl_decode lib raw = Some (''EdDSA'', kid, c)"
    "issuer \<noteq> [] \<Longrightarrow> auds \<noteq> [] \<Longrightarrow> jl_valid lib (jl_public lib seed) issuer auds iat now raw \<longleftrightarrow>
       tc_Issuer c = issuer \<and> set (tc_Audience c) \<inter> set auds \<noteq> {} \<and> now < tc_ExpiresAt c \<and> (iat \<longrightarrow> tc_IssuedAt c \<le> now)"
  using assms unfolding jwt_laws_def by blast+

lemma jwt_date: "jwt_laws lib \<Longrightarrow> jl_date lib t \<le> t" "jwt_laws lib \<Longrightarrow> t < jl_date lib t + second"
  unfolding jwt_laws_def by blast+

lemma parse_signed:
  assumes laws: "jwt_laws lib" and utf: "claims_text c" and raw: "jl_sign lib (sv_private s) kid c = Some raw"
    and key: "sv_public s = jl_public lib (sv_private s)" and iss: "tc_Issuer c = sv_issuer s" "sv_issuer s \<noteq> []"
  shows "parse lib s audience tokenUse now raw =
    (if audience \<in> set (tc_Audience c) \<and> now < tc_ExpiresAt c \<and> tc_TokenUse c = tokenUse then Some c else None)"
  using jwt_signed [OF laws utf raw] iss by (simp add: parse_def key)

lemma served_key:
  assumes "jwt_laws lib" "NewService lib g issuer seed a m = Some s" "seed \<noteq> []" "serves_keys s env"
  shows "published_keys env = Some [sv_keyID s \<mapsto> sv_public s]"
proof -
  note f = NewService_fields [OF assms(2)]
  have "length (sv_public s) = 32" using assms(1) f(2) f(5) [OF assms(3)] unfolding jwt_laws_def by simp
  moreover have "sv_keyID s \<noteq> []" using keyID_nonempty [OF assms(2)] .
  ultimately have "usable_key (hd (JWKS s)) = Some (sv_public s)" "JWKS s = [hd (JWKS s)]" "jwk_Kid (hd (JWKS s)) = sv_keyID s"
    by (simp_all add: JWKS_def usable_key_def)
  then have "jwks_keys (JWKS s) (\<lambda>_. None) = [sv_keyID s \<mapsto> sv_public s]" "\<not> list_all (\<lambda>i. usable_key i = None) (JWKS s)"
    by (metis jwks_keys.simps option.simps(5), metis list.pred_inject(2) option.discI)
  then show ?thesis
    using assms(4) by (auto simp: serves_keys_def published_keys_def split: http_reply.splits option.splits)
qed

lemma served_verifier_key:
  assumes "published_keys env = Some [kid \<mapsto> pub]" "\<not> fresh env v"
  shows "\<exists>v1. verifier_key env kid v = (Some pub, v1) \<and> v_issuer v1 = v_issuer v"
  using assms by (auto simp: verifier_key_def refresh_def split: option.splits)

lemma Verify_signed:
  assumes laws: "jwt_laws lib" and utf: "claims_text c" and raw: "jl_sign lib (sv_private s) (sv_keyID s) c = Some raw"
    and svc: "NewService lib g issuer seed a m = Some s" "seed \<noteq> []" and iss: "tc_Issuer c = issuer" "issuer \<noteq> []" "v_issuer v = issuer"
    and env: "authorizer_uses lib env" "serves_keys s env" "\<not> fresh env v"
  shows "fst (Verify env raw v) =
    (if set (tc_Audience c) \<inter> {''model-gateway'', ''aep-entitlement''} \<noteq> {} \<and> ae_now env < tc_ExpiresAt c \<and> tc_IssuedAt c \<le> ae_now env
        \<and> aep_claims_ok (model_claims c) then Some (model_claims c) else None)"
proof -
  obtain v1 where v1: "verifier_key env (sv_keyID s) v = (Some (sv_public s), v1)" "v_issuer v1 = issuer"
    using served_verifier_key [OF served_key [OF laws svc env(2)] env(3)] iss(3) by blast
  have hdr: "ae_jwt_header env raw = Some (''EdDSA'', sv_keyID s)"
    using env(1) jwt_signed(1) [OF laws utf raw] by (simp add: authorizer_uses_def)
  have chk: "ae_jwt_check env (sv_public s) issuer [''model-gateway'', ''aep-entitlement''] (ae_now env) raw =
    (if set (tc_Audience c) \<inter> {''model-gateway'', ''aep-entitlement''} \<noteq> {} \<and> ae_now env < tc_ExpiresAt c \<and> tc_IssuedAt c \<le> ae_now env
     then Some (model_claims c) else None)"
    using env(1) jwt_signed [OF laws utf raw] iss NewService_fields(2) [OF svc(1)] by (simp add: authorizer_uses_def)
  show ?thesis
    using keyID_nonempty [OF svc(1)] v1 by (simp add: Verify_def hdr chk)
qed

lemma Verify_use:
  assumes "authorizer_uses lib env" "fst (Verify env raw v) = Some mc"
  shows "\<exists>alg kid c. jl_decode lib raw = Some (alg, kid, c) \<and> mc = model_claims c \<and> aep_claims_ok mc"
  using assms by (auto simp: Verify_def authorizer_uses_def split: option.splits prod.splits if_splits)

section \<open>A concrete token library\<close>

text \<open>A library that signs the tokens of a table under one key: it satisfies the laws.\<close>

definition demo_seed :: string where
  "demo_seed = replicate 32 (CHR 0x00)"

definition demo_kid :: string where
  "demo_kid = base64url (take 8 (sha256 demo_seed))"

definition demo_jwt :: "(string \<times> Claims) list \<Rightarrow> jwt_lib" where
  "demo_jwt tab = \<lparr> jl_public = (\<lambda>seed. seed), jl_date = (\<lambda>t. t div second * second),
     jl_sign = (\<lambda>seed kid c. if seed = demo_seed \<and> kid = demo_kid then map_of (map (\<lambda>(r, d). (d, r)) tab) c else None),
     jl_decode = (\<lambda>raw. map_option (\<lambda>c. (''EdDSA'', demo_kid, c)) (map_of tab raw)),
     jl_valid = (\<lambda>k issuer auds iat now raw. k = demo_seed \<and>
        (case map_of tab raw of None \<Rightarrow> False
         | Some c \<Rightarrow> tc_Issuer c = issuer \<and> set (tc_Audience c) \<inter> set auds \<noteq> {} \<and> now < tc_ExpiresAt c \<and> (iat \<longrightarrow> tc_IssuedAt c \<le> now))) \<rparr>"

lemma demo_laws: "distinct (map fst tab) \<Longrightarrow> jwt_laws (demo_jwt tab)"
proof -
  assume d: "distinct (map fst tab)"
  have "map_of tab raw = Some c" if "map_of (map (\<lambda>(r, d). (d, r)) tab) c = Some raw" for c raw
    using map_of_SomeD [OF that] map_of_is_SomeI [OF d] by auto
  moreover have "t div second * second \<le> t \<and> t < t div second * second + second" for t :: time by presburger
  ultimately show ?thesis by (simp add: jwt_laws_def demo_jwt_def)
qed

definition demo_service :: Service where
  "demo_service = \<lparr> sv_issuer = ''iss'', sv_keyID = demo_kid, sv_private = demo_seed, sv_public = demo_seed,
     sv_accessTTL = 900 * second, sv_modelTTL = 900 * second \<rparr>"

lemma demo_encoded: "base64std demo_seed \<noteq> []"
  using base64std_roundtrip [of demo_seed]
  by (auto simp: base64std_decode_def demo_seed_def strip_newlines_def has_suffix_def has_prefix_def)

lemma demo_new_service:
  "NewService (demo_jwt tab) None ''iss'' (base64std demo_seed) (900 * second) (900 * second) = Some demo_service"
  using demo_encoded by (simp add: NewService_def demo_service_def demo_kid_def demo_jwt_def demo_seed_def Let_def)

definition demo_token :: "string \<Rightarrow> string \<Rightarrow> bool \<Rightarrow> Claims" where
  "demo_token tokenUse audience admin = \<lparr> tc_DeploymentID = ''acme'', tc_SessionID = ''s1'', tc_LicenseID = [], tc_LicenseDigest = [], tc_Features = [],
     tc_Admin = admin, tc_Roles = [], tc_ModelScopes = [], tc_PasswordChangeRequired = False, tc_TokenUse = tokenUse, tc_Issuer = ''iss'',
     tc_Subject = ''bob'', tc_Audience = [audience], tc_ExpiresAt = 900 * second, tc_IssuedAt = 0, tc_ID = ''i'' \<rparr>"

definition demo_table :: "(string \<times> Claims) list" where
  "demo_table = [(''A'', demo_token ''aep'' ''aep-control'' True), (''M'', demo_token ''model'' ''model-gateway'' False),
     (''E'', (demo_token ''entitlement'' ''aep-entitlement'' False) \<lparr> tc_LicenseID := ''lic'', tc_LicenseDigest := ''d'', tc_ExpiresAt := 86400 * second \<rparr>)]"

definition token_authz :: "jwt_lib \<Rightarrow> Service \<Rightarrow> authz_env" where
  "token_authz lib s = (demo_authz 0) \<lparr> ae_jwks := Reply 200 (Some []), ae_jwks_decode := (\<lambda>_. Some (JWKS s)),
     ae_jwt_header := (\<lambda>raw. map_option (\<lambda>(alg, kid, _). (alg, kid)) (jl_decode lib raw)),
     ae_jwt_check := (\<lambda>k issuer auds now raw. case jl_decode lib raw of None \<Rightarrow> None
        | Some (_, _, c) \<Rightarrow> if jl_valid lib k issuer auds True now raw then Some (model_claims c) else None) \<rparr>"

lemma token_authz_ok: "authorizer_uses lib (token_authz lib s)" "serves_keys s (token_authz lib s)" "\<not> fresh (token_authz lib s) (NewVerifier i t)"
  by (simp_all add: authorizer_uses_def serves_keys_def token_authz_def fresh_def NewVerifier_def)

section \<open>Properties\<close>

text \<open>
  \<^bold>\<open>Token kinds never mix (C18).\<close> Whoever signed it, a token is accepted by at most one of the control
  service's three parsers, whatever the times of the calls; and a token the gateway authorizer accepts is
  never an access token of the control API, so a model or entitlement token cannot call the management
  API and an access token cannot call models.
\<close>

theorem token_kinds_never_mix:
  assumes "authorizer_uses lib env"
  shows "(ParseAccess lib s t1 raw = None \<or> ParseModel lib s t2 raw = None)
       \<and> (ParseAccess lib s t1 raw = None \<or> ParseEntitlement lib s t3 raw = None)
       \<and> (ParseModel lib s t2 raw = None \<or> ParseEntitlement lib s t3 raw = None)
       \<and> (fst (Verify env raw v) = None \<or> ParseAccess lib s t1 raw = None)"
proof -
  have "ParseAccess lib s t1 raw = None" if "fst (Verify env raw v) = Some mc" for mc
  proof (rule ccontr)
    assume "ParseAccess lib s t1 raw \<noteq> None"
    then obtain d where d: "parse lib s ''aep-control'' ''aep'' t1 raw = Some d" by (auto simp: ParseAccess_def)
    from Verify_use [OF assms that] obtain alg kid c where c: "jl_decode lib raw = Some (alg, kid, c)"
      and mc: "mc = model_claims c" "aep_claims_ok mc" by blast
    from c parse_SomeD(2) [OF d] have "c = d" by (simp add: carried_claims_def)
    with parse_SomeD(1) [OF d] mc show False by (simp add: aep_claims_ok_def model_claims_def)
  qed
  then show ?thesis
    using access_model.never_both access_entitlement.never_both model_entitlement.never_both by (metis not_None_eq)
qed

theorem token_kinds_never_mix_witness:
  "ParseAccess (demo_jwt demo_table) demo_service 0 ''A'' \<noteq> None
   \<and> fst (Verify (token_authz (demo_jwt demo_table) demo_service) ''A'' (NewVerifier ''iss'' hour)) = None
   \<and> ParseModel (demo_jwt demo_table) demo_service 0 ''A'' = None"
proof -
  have a: "ParseAccess (demo_jwt demo_table) demo_service 0 ''A'' \<noteq> None"
    by (simp add: ParseAccess_def parse_def demo_jwt_def demo_table_def demo_token_def demo_service_def)
  show ?thesis
    using token_kinds_never_mix [OF token_authz_ok(1) [of "demo_jwt demo_table" demo_service], of demo_service 0 "''A''" 0 0 "NewVerifier ''iss'' hour"] a
    by simp
qed

text \<open>
  \<^bold>\<open>A session's tokens work where they should (C33).\<close> The access token of a new session is accepted by
  the control API exactly until its expiry, with the user, session and roles it was issued for. An
  authorizer that trusts the same issuer and fetches this service's key set accepts the model token
  during its lifetime with exactly the issued scopes, and never accepts the access token.
\<close>

theorem issued_session_tokens_work:
  assumes laws: "jwt_laws lib" and svc: "NewService lib g issuer seed accessTTL modelTTL = Some s" "seed \<noteq> []" "issuer \<noteq> []"
    and out: "IssueWithDeploymentSession lib s (t1, u1) (t2, u2) user dep session admin pcr roles scopes = Some (access, model)"
    and utf: "list_all json_text ([issuer, user, dep, session, u1, u2] @ roles @ scopes)"
    and ids: "user \<noteq> []" "dep \<noteq> []" "session \<noteq> []"
    and env: "authorizer_uses lib env" "serves_keys s env" "\<not> fresh env v" "v_issuer v = issuer"
  shows "(ParseAccess lib s now access \<noteq> None \<longleftrightarrow> now < jl_date lib (t1 + accessTTL))
    \<and> (\<forall>c. ParseAccess lib s now access = Some c \<longrightarrow>
          tc_Subject c = user \<and> tc_DeploymentID c = dep \<and> tc_SessionID c = session \<and> tc_Admin c = admin \<and> tc_Roles c = roles)
    \<and> fst (Verify env access v) = None
    \<and> (jl_date lib t2 \<le> ae_now env \<and> ae_now env < jl_date lib (t2 + modelTTL) \<longrightarrow>
        (\<exists>mc. fst (Verify env model v) = Some mc \<and> mc_Subject mc = user \<and> mc_DeploymentID mc = dep \<and> mc_SessionID mc = session
           \<and> mc_ModelScopes mc = scopes \<and> mc_TokenUse mc = ''model''))"
proof -
  note f = NewService_fields [OF svc(1)]
  have lits: "json_text []" "json_text ''aep''" "json_text ''model''" "json_text ''aep-control''" "json_text ''model-gateway''"
    by (rule json_ascii, simp add: byte_def)+
  obtain ca where ca: "jl_sign lib (sv_private s) (sv_keyID s) ca = Some access"
    and caf: "claims_text ca" "tc_Issuer ca = issuer" "tc_Audience ca = [''aep-control'']" "tc_TokenUse ca = ''aep''" "tc_Subject ca = user"
      "tc_DeploymentID ca = dep" "tc_SessionID ca = session" "tc_Admin ca = admin" "tc_Roles ca = roles" "tc_ExpiresAt ca = jl_date lib (t1 + accessTTL)"
    using out utf lits f by (fastforce simp: IssueWithDeploymentSession_def issue_def sign_def claims_text_def split: option.splits)
  obtain cm where cm: "jl_sign lib (sv_private s) (sv_keyID s) cm = Some model"
    and cmf: "claims_text cm" "tc_Issuer cm = issuer" "tc_Audience cm = [''model-gateway'']" "tc_TokenUse cm = ''model''" "tc_Subject cm = user"
      "tc_DeploymentID cm = dep" "tc_SessionID cm = session" "tc_ModelScopes cm = scopes" "tc_IssuedAt cm = jl_date lib t2"
      "tc_ExpiresAt cm = jl_date lib (t2 + modelTTL)"
    using out utf lits f by (fastforce simp: IssueWithDeploymentSession_def issue_def sign_def claims_text_def split: option.splits)
  have acc: "ParseAccess lib s now access = (if now < jl_date lib (t1 + accessTTL) then Some ca else None)"
    unfolding ParseAccess_def using parse_signed [OF laws caf(1) ca f(2)] caf f(1) svc(3) by simp
  have "fst (Verify env access v) = None"
    using Verify_signed [OF laws caf(1) ca svc(1,2) caf(2) svc(3) env(4) env(1,2,3)] caf(3) by simp
  moreover have "fst (Verify env model v) = Some (model_claims cm)"
    if "jl_date lib t2 \<le> ae_now env" "ae_now env < jl_date lib (t2 + modelTTL)"
    using Verify_signed [OF laws cmf(1) cm svc(1,2) cmf(2) svc(3) env(4) env(1,2,3)] that cmf ids
    by (simp add: aep_claims_ok_def model_claims_def)
  ultimately show ?thesis using acc caf cmf by (auto simp: model_claims_def)
qed

theorem issued_session_tokens_work_witness:
  "let lib = demo_jwt demo_table; env = token_authz lib demo_service; v = NewVerifier ''iss'' hour in
   IssueWithDeploymentSession lib demo_service (0, ''i'') (0, ''i'') ''bob'' ''acme'' ''s1'' True False [] [] = Some (''A'', ''M'')
   \<and> ParseAccess lib demo_service (899 * second) ''A'' \<noteq> None \<and> ParseAccess lib demo_service (900 * second) ''A'' = None
   \<and> fst (Verify env ''A'' v) = None \<and> (\<exists>mc. fst (Verify env ''M'' v) = Some mc \<and> mc_Subject mc = ''bob'')"
proof -
  let ?lib = "demo_jwt demo_table" and ?v = "NewVerifier ''iss'' hour"
  let ?env = "token_authz ?lib demo_service"
  have laws: "jwt_laws ?lib" by (rule demo_laws) (simp add: demo_table_def)
  have out: "IssueWithDeploymentSession ?lib demo_service (0, ''i'') (0, ''i'') ''bob'' ''acme'' ''s1'' True False [] [] = Some (''A'', ''M'')"
    by (simp add: IssueWithDeploymentSession_def issue_def sign_def demo_jwt_def demo_table_def demo_token_def demo_service_def)
  have utf: "list_all json_text ([''iss'', ''bob'', ''acme'', ''s1'', ''i'', ''i''] @ [] @ [])"
    by (simp, intro conjI; rule json_ascii, simp add: byte_def)
  have v: "v_issuer ?v = ''iss''" "ae_now ?env = 0" by (simp_all add: NewVerifier_def token_authz_def demo_authz_def)
  have d: "jl_date ?lib (0 + 900 * second) = 900 * second" "jl_date ?lib 0 = 0" by (simp_all add: demo_jwt_def)
  have t: "(ParseAccess ?lib demo_service now ''A'' \<noteq> None \<longleftrightarrow> now < 900 * second) \<and> fst (Verify ?env ''A'' ?v) = None
      \<and> (\<exists>mc. fst (Verify ?env ''M'' ?v) = Some mc \<and> mc_Subject mc = ''bob'')" for now
    using issued_session_tokens_work [OF laws demo_new_service demo_encoded _ out utf _ _ _ token_authz_ok v(1), of now]
    unfolding d v by auto
  show ?thesis unfolding Let_def using out t [of "899 * second"] t [of "900 * second"] by simp
qed

text \<open>
  \<^bold>\<open>Entitlements are short-lived (C34).\<close> An issued entitlement ends in the future, at most 24 hours ahead and
  never after the license. The entitlement parser accepts the token up to a second before that moment and
  never at or after it, with the user, license digest and scopes it was issued for.
\<close>

theorem entitlement_lifetime_bounded:
  assumes laws: "jwt_laws lib" and svc: "NewService lib g issuer seed a m = Some s" "issuer \<noteq> []"
    and out: "IssueEntitlement lib s now uuid user dep session lic dig features scopes licenseExpiresAt = Some (raw, e)"
    and utf: "list_all json_text ([issuer, user, dep, session, lic, dig, uuid] @ features @ scopes)"
  shows "now < e \<and> e \<le> now + 24 * hour \<and> (\<forall>l. licenseExpiresAt = Some l \<longrightarrow> e \<le> l)
    \<and> (\<forall>t c. ParseEntitlement lib s t raw = Some c \<longrightarrow> t < e \<and> tc_Subject c = user \<and> tc_LicenseDigest c = dig \<and> tc_ModelScopes c = scopes)
    \<and> (\<forall>t. t + second \<le> e \<longrightarrow> ParseEntitlement lib s t raw \<noteq> None)"
proof -
  note f = NewService_fields [OF svc(1)]
  have lits: "json_text []" "json_text ''entitlement''" "json_text ''aep-entitlement''"
    by (rule json_ascii, simp add: byte_def)+
  have exp: "entitlement_expiry now licenseExpiresAt = Some e" and
    "\<exists>c. jl_sign lib (sv_private s) (sv_keyID s) c = Some raw \<and> claims_text c \<and> tc_Issuer c = issuer \<and> tc_Audience c = [''aep-entitlement'']
      \<and> tc_TokenUse c = ''entitlement'' \<and> tc_Subject c = user \<and> tc_LicenseDigest c = dig \<and> tc_ModelScopes c = scopes \<and> tc_ExpiresAt c = jl_date lib e"
    using out utf lits f(1) by (fastforce simp: IssueEntitlement_def claims_text_def split: option.splits if_splits)+
  then obtain c where c: "jl_sign lib (sv_private s) (sv_keyID s) c = Some raw" and cf: "claims_text c" "tc_Issuer c = issuer"
    "tc_Audience c = [''aep-entitlement'']" "tc_TokenUse c = ''entitlement''" "tc_Subject c = user" "tc_LicenseDigest c = dig"
    "tc_ModelScopes c = scopes" "tc_ExpiresAt c = jl_date lib e" by blast
  have pe: "ParseEntitlement lib s t raw = (if t < jl_date lib e then Some c else None)" for t
    unfolding ParseEntitlement_def using parse_signed [OF laws cf(1) c f(2)] cf f(1) svc(2) by simp
  have "now < e \<and> e \<le> now + 24 * hour \<and> (\<forall>l. licenseExpiresAt = Some l \<longrightarrow> e \<le> l)"
    using exp by (auto simp: entitlement_expiry_def Let_def split: option.splits if_splits)
  then show ?thesis using jwt_date [OF laws, of e] cf by (auto simp: pe split: if_splits)
qed

theorem entitlement_lifetime_bounded_witness:
  "let lib = demo_jwt demo_table in
   IssueEntitlement lib demo_service 0 ''i'' ''bob'' ''acme'' ''s1'' ''lic'' ''d'' [] [] (Some (100 * hour)) = Some (''E'', 24 * hour)
   \<and> ParseEntitlement lib demo_service hour ''E'' \<noteq> None \<and> ParseEntitlement lib demo_service (24 * hour) ''E'' = None"
proof -
  let ?lib = "demo_jwt demo_table"
  have laws: "jwt_laws ?lib" by (rule demo_laws) (simp add: demo_table_def)
  have out: "IssueEntitlement ?lib demo_service 0 ''i'' ''bob'' ''acme'' ''s1'' ''lic'' ''d'' [] [] (Some (100 * hour)) = Some (''E'', 24 * hour)"
    by (simp add: IssueEntitlement_def entitlement_expiry_def demo_jwt_def demo_table_def demo_token_def demo_service_def)
  have utf: "list_all json_text ([''iss'', ''bob'', ''acme'', ''s1'', ''lic'', ''d'', ''i''] @ [] @ [])"
    by (simp, intro conjI; rule json_ascii, simp add: byte_def)
  note b = entitlement_lifetime_bounded [OF laws demo_new_service _ out utf, simplified]
  then have "ParseEntitlement ?lib demo_service hour ''E'' \<noteq> None" by simp
  moreover have "ParseEntitlement ?lib demo_service (24 * hour) ''E'' = None"
  proof (rule ccontr)
    assume "ParseEntitlement ?lib demo_service (24 * hour) ''E'' \<noteq> None"
    then obtain c where "ParseEntitlement ?lib demo_service (24 * hour) ''E'' = Some c" by auto
    then show False using b by fastforce
  qed
  ultimately show ?thesis unfolding Let_def using out by simp
qed

end
