(* ===== verification/Passwords.thy ===== *)
theory Passwords
  imports Aep_Prelude
begin

text \<open>
  Password policy and the stored password format: \<^verbatim>\<open>auth/password.go\<close>. The key
  derivation \<^verbatim>\<open>argon2.IDKey\<close> is a third-party function and a parameter
  \<open>idkey password salt iterations memory parallelism keyLength\<close>.
\<close>

type_synonym idkey = "string \<Rightarrow> string \<Rightarrow> nat \<Rightarrow> nat \<Rightarrow> nat \<Rightarrow> nat \<Rightarrow> string"

datatype password_error = ErrPasswordPolicy | RandomError

abbreviation argonMemory :: nat where "argonMemory \<equiv> 65536"
abbreviation argonIterations :: nat where "argonIterations \<equiv> 3"
abbreviation argonParallelism :: nat where "argonParallelism \<equiv> 2"
abbreviation argonSaltLength :: nat where "argonSaltLength \<equiv> 16"
abbreviation argonKeyLength :: nat where "argonKeyLength \<equiv> 32"

definition ValidatePassword :: "string \<Rightarrow> password_error option" where
  "ValidatePassword password =
     (let n = rune_count password in if n < 6 \<or> n > 1024 then Some ErrPasswordPolicy else None)"

definition EdgeWhitespace :: "string \<Rightarrow> bool" where
  "EdgeWhitespace password \<longleftrightarrow> trim_space password \<noteq> password"

definition TrimPassword :: "string \<Rightarrow> string" where
  "TrimPassword password = trim_space password"

definition encodePassword :: "idkey \<Rightarrow> string \<Rightarrow> string \<Rightarrow> string" where
  "encodePassword idkey password salt =
     (let hash = idkey password salt argonIterations argonMemory argonParallelism argonKeyLength in
      ''$argon2id$v=19$m='' @ show_nat argonMemory @ '',t='' @ show_nat argonIterations @ '',p=''
      @ show_nat argonParallelism @ ''$'' @ base64rawstd salt @ ''$'' @ base64rawstd hash)"

text \<open>\<open>random\<close> is the outcome of filling the salt buffer from \<^verbatim>\<open>crypto/rand\<close>.\<close>

definition HashPassword :: "idkey \<Rightarrow> string option \<Rightarrow> string \<Rightarrow> password_error + string" where
  "HashPassword idkey random password =
     (case ValidatePassword password of
        Some e \<Rightarrow> Inl e
      | None \<Rightarrow> (case random of None \<Rightarrow> Inl RandomError | Some salt \<Rightarrow> Inr (encodePassword idkey password salt)))"

text \<open>
  \<^verbatim>\<open>fmt.Sscanf(s, "m=%d,t=%d,p=%d", ...)\<close>: literal bytes must match; \<^verbatim>\<open>%d\<close>
  skips ASCII blanks other than a newline, reads the longest run of digits (at least one) and fails when the value does not
  fit the target; input after the last verb is ignored.
\<close>

definition scan_literal :: "string \<Rightarrow> string \<Rightarrow> string option" where
  "scan_literal lit s = (if has_prefix s lit then Some (drop (length lit) s) else None)"

definition scan_uint :: "nat \<Rightarrow> string \<Rightarrow> (nat \<times> string) option" where
  "scan_uint bits s =
     (let t = dropWhile (\<lambda>c. space1 c \<and> byte c \<noteq> 10) s;
          digits = takeWhile is_digit t in
      if digits = [] \<or> 2 ^ bits \<le> decimal_value digits then None
      else Some (decimal_value digits, dropWhile is_digit t))"

definition scan_params :: "string \<Rightarrow> (nat \<times> nat \<times> nat) option" where
  "scan_params s =
     Option.bind (scan_literal ''m='' s) (\<lambda>s1.
     Option.bind (scan_uint 32 s1) (\<lambda>(memory, s2).
     Option.bind (scan_literal '',t='' s2) (\<lambda>s3.
     Option.bind (scan_uint 32 s3) (\<lambda>(iterations, s4).
     Option.bind (scan_literal '',p='' s4) (\<lambda>s5.
     Option.bind (scan_uint 8 s5) (\<lambda>(parallelism, s6).
     Some (memory, iterations, parallelism)))))))"

definition VerifyPassword :: "idkey \<Rightarrow> string \<Rightarrow> string \<Rightarrow> bool" where
  "VerifyPassword idkey encoded password =
     (let parts = split_byte (CHR ''$'') encoded in
      if length parts \<noteq> 6 \<or> parts ! 1 \<noteq> ''argon2id'' \<or> parts ! 2 \<noteq> ''v=19'' then False
      else case scan_params (parts ! 3) of
        None \<Rightarrow> False
      | Some (memory, iterations, parallelism) \<Rightarrow>
         (case base64rawstd_decode (parts ! 4) of
            None \<Rightarrow> False
          | Some salt \<Rightarrow>
             (case base64rawstd_decode (parts ! 5) of
                None \<Rightarrow> False
              | Some expected \<Rightarrow>
                  idkey password salt iterations memory parallelism (length expected) = expected)))"

definition dummyPasswordHash :: "idkey \<Rightarrow> string" where
  "dummyPasswordHash idkey =
     encodePassword idkey ''aep-dummy-password'' (replicate argonSaltLength (CHR 0x00))"

definition VerifyPasswordOrDummy :: "idkey \<Rightarrow> string \<Rightarrow> string \<Rightarrow> bool" where
  "VerifyPasswordOrDummy idkey encoded password =
     VerifyPassword idkey (if encoded = [] then dummyPasswordHash idkey else encoded) password"

section \<open>Reading back what was written\<close>

lemma encoded_parts:
  "split_byte (CHR ''$'') (encodePassword idkey password salt) =
     [[], ''argon2id'', ''v=19'', ''m=65536,t=3,p=2'', base64rawstd salt,
      base64rawstd (idkey password salt argonIterations argonMemory argonParallelism argonKeyLength)]"
proof -
  have n: "show_nat 65536 = ''65536''" "show_nat 3 = ''3''" "show_nat 2 = ''2''"
    by (simp_all add: show_nat.simps)
  let ?h = "base64rawstd (idkey password salt argonIterations argonMemory argonParallelism argonKeyLength)"
  let ?parts = "[[], ''argon2id'', ''v=19'', ''m=65536,t=3,p=2'', base64rawstd salt, ?h]"
  have nd: "CHR ''$'' \<notin> set (base64rawstd x)" for x
    using base64rawstd_alphabet [of "CHR ''$''" x]
    by (auto simp: is_alnum_def is_lower_def is_upper_def is_digit_def byte_def)
  have "encodePassword idkey password salt = join [CHR ''$''] ?parts"
    by (simp add: encodePassword_def n)
  moreover have "split_byte (CHR ''$'') (join [CHR ''$''] ?parts) = ?parts"
    by (rule split_join) (use nd in auto)
  ultimately show ?thesis by simp
qed

lemma scan_own_params: "scan_params ''m=65536,t=3,p=2'' = Some (65536, 3, 2)"
  by (simp add: scan_params_def scan_literal_def scan_uint_def has_prefix_def is_digit_def
      space1_def decimal_value_def byte_def)

lemma verify_encoded:
  assumes "length (idkey password salt argonIterations argonMemory argonParallelism argonKeyLength) = argonKeyLength"
  shows "VerifyPassword idkey (encodePassword idkey password salt) candidate \<longleftrightarrow>
     idkey candidate salt argonIterations argonMemory argonParallelism argonKeyLength
     = idkey password salt argonIterations argonMemory argonParallelism argonKeyLength"
  using assms by (simp add: VerifyPassword_def encoded_parts scan_own_params)

section \<open>Properties\<close>



end
