(* ===== verification/Login_Throttle.thy ===== *)
theory Login_Throttle
  imports Sha256 Passwords
begin

text \<open>
  Password login and its brute-force protection: \<^verbatim>\<open>httpapi/auth_security.go\<close>, the
  handler \<^verbatim>\<open>passwordLogin\<close> and \<^verbatim>\<open>resolveTenant\<close> of
  \<^verbatim>\<open>httpapi/auth_handlers.go\<close>, and \<^verbatim>\<open>httpapi/session_client.go\<close>.
  The table \<^verbatim>\<open>login_rate_limits\<close> is a map from key hashes to rows, the table
  \<^verbatim>\<open>authentication_audit_events\<close> a list. A database statement may fail: the argument
  \<open>ok\<close> says which of the named statements succeed, and a failed transaction leaves the
  tables as they were.
\<close>

section \<open>State and configuration\<close>

record rate_row =
  failure_count :: int
  blocked_until :: "time option"
  updated_at :: time

type_synonym rate_table = "string \<rightharpoonup> rate_row"

record audit_event =
  deployment_id :: string
  audit_user :: "string option"
  event_type :: string
  audit_outcome :: string
  audit_reason :: "string option"
  principal_hash :: string
  source_hash :: string
  created_at :: time

record auth_db =
  rate_limits :: rate_table
  audit_events :: "audit_event list"

record loginFingerprint =
  PrincipalSourceKeyHash :: string
  SourceKeyHash :: string
  PrincipalHash :: string
  SourceHash :: string

record login_config =
  LoginFailureLimit :: int
  LoginSourceFailureLimit :: int
  LoginFailureWindow :: duration
  LoginBackoffBase :: duration
  LoginBackoffMax :: duration

datatype login_error = DatabaseError | AgentExpired

type_synonym stmt_ok = "string \<Rightarrow> bool"

text \<open>A \<^verbatim>\<open>timestamptz\<close> holds whole microseconds.\<close>

definition pg_time :: "time \<Rightarrow> time" where
  "pg_time t = t div 1000 * 1000"

section \<open>The source of a login\<close>

text \<open>The operations of \<^verbatim>\<open>net/netip\<close> that the code calls.\<close>

record ('a, 'p) netip =
  ParseAddr :: "string \<Rightarrow> 'a option"
  ParseAddrPort :: "string \<Rightarrow> 'a option"
  Unmap :: "'a \<Rightarrow> 'a"
  AddrString :: "'a \<Rightarrow> string"
  Contains :: "'p \<Rightarrow> 'a \<Rightarrow> bool"

definition parseRemoteAddress :: "('a, 'p) netip \<Rightarrow> string \<Rightarrow> 'a option" where
  "parseRemoteAddress net value =
     (case ParseAddrPort net value of
        Some address \<Rightarrow> Some (Unmap net address)
      | None \<Rightarrow> (case ParseAddr net value of None \<Rightarrow> None | Some address \<Rightarrow> Some (Unmap net address)))"

definition addressInPrefixes :: "('a, 'p) netip \<Rightarrow> 'a \<Rightarrow> 'p list \<Rightarrow> bool" where
  "addressInPrefixes net address prefixes = list_ex (\<lambda>p. Contains net p address) prefixes"

text \<open>The loop runs over the forwarded chain from its right end; \<open>leftmost\<close> is the address
  seen last.\<close>

fun forwarded_loop :: "('a, 'p) netip \<Rightarrow> 'p list \<Rightarrow> 'a \<Rightarrow> 'a \<Rightarrow> string list \<Rightarrow> string" where
  "forwarded_loop net trusted peer leftmost [] = AddrString net leftmost"
| "forwarded_loop net trusted peer leftmost (entry # rest) =
     (case ParseAddr net (trim_space entry) of
        None \<Rightarrow> AddrString net peer
      | Some raw \<Rightarrow>
         (let address = Unmap net raw in
          if \<not> addressInPrefixes net address trusted then AddrString net address
          else forwarded_loop net trusted peer address rest))"

definition loginSource :: "('a, 'p) netip \<Rightarrow> 'p list \<Rightarrow> string \<Rightarrow> string \<Rightarrow> string" where
  "loginSource net trusted remoteAddr forwardedFor =
     (case parseRemoteAddress net remoteAddr of
        None \<Rightarrow> ''unknown''
      | Some peer \<Rightarrow>
          if \<not> addressInPrefixes net peer trusted then AddrString net peer
          else
           (let forwarded = trim_space forwardedFor in
            if forwarded = [] then AddrString net peer
            else forwarded_loop net trusted peer peer (rev (split_byte (CHR '','') forwarded))))"

definition hash_input :: "string list \<Rightarrow> string" where
  "hash_input parts = concat (map (\<lambda>part. part @ [CHR 0x00]) parts)"

definition opaqueHash :: "string list \<Rightarrow> string" where
  "opaqueHash parts = base64url (sha256 (hash_input parts))"

definition loginFingerprint_of :: "(nat \<Rightarrow> nat) \<Rightarrow> string \<Rightarrow> string \<Rightarrow> string \<Rightarrow> loginFingerprint" where
  "loginFingerprint_of unicode source enterpriseID username =
     (let principal = opaqueHash [''principal'', enterpriseID, go_lower unicode (trim_space username)];
          sourceHash = opaqueHash [''source'', source] in
      \<lparr> PrincipalSourceKeyHash = opaqueHash [''login-principal-source'', principal, sourceHash],
        SourceKeyHash = opaqueHash [''login-source'', sourceHash],
        PrincipalHash = principal,
        SourceHash = sourceHash \<rparr>)"

definition boundedAuditID :: "string \<Rightarrow> string" where
  "boundedAuditID value = (if length value \<le> 256 then value else ''sha256:'' @ opaqueHash [value])"

section \<open>Back-off and throttling\<close>

function backoff_loop :: "int \<Rightarrow> int \<Rightarrow> duration \<Rightarrow> duration \<Rightarrow> duration" where
  "backoff_loop step failureCount delay maximum =
     (if step < failureCount then
        (if delay \<ge> maximum \<or> delay > go_div maximum 2 then maximum
         else backoff_loop (step + 1) failureCount (delay * 2) maximum)
      else if delay > maximum then maximum else delay)"
  by pat_completeness auto
termination
  by (relation "measure (\<lambda>(step, n, _, _). nat (n - step))") auto

declare backoff_loop.simps [simp del]

definition loginBackoff :: "int \<Rightarrow> int \<Rightarrow> duration \<Rightarrow> duration \<Rightarrow> duration" where
  "loginBackoff failureCount failureLimit base maximum =
     (if failureCount < failureLimit then 0 else backoff_loop failureLimit failureCount base maximum)"

definition retryAfterSeconds :: "duration \<Rightarrow> int" where
  "retryAfterSeconds d =
     (let seconds = go_div (d + second - 1) second in
      if seconds < 1 then 1 else seconds)"

definition loginThrottleForKey :: "stmt_ok \<Rightarrow> string \<Rightarrow> time \<Rightarrow> auth_db \<Rightarrow> login_error + duration" where
  "loginThrottleForKey ok keyHash now db =
     (if \<not> ok ''select'' then Inl DatabaseError
      else case rate_limits db keyHash of
        None \<Rightarrow> Inr 0
      | Some row \<Rightarrow>
         (case blocked_until row of
            None \<Rightarrow> Inr 0
          | Some blockedUntil \<Rightarrow> if blockedUntil - now > 0 then Inr (blockedUntil - now) else Inr 0))"

definition loginThrottle :: "stmt_ok \<Rightarrow> loginFingerprint \<Rightarrow> time \<Rightarrow> auth_db \<Rightarrow> login_error + duration" where
  "loginThrottle ok fingerprint now db =
     (case loginThrottleForKey ok (PrincipalSourceKeyHash fingerprint) now db of
        Inl e \<Rightarrow> Inl e
      | Inr principalDelay \<Rightarrow>
         (case loginThrottleForKey ok (SourceKeyHash fingerprint) now db of
            Inl e \<Rightarrow> Inl e
          | Inr sourceDelay \<Rightarrow> Inr (max principalDelay sourceDelay)))"

text \<open>The upsert with its returned counter, then the update of \<^verbatim>\<open>blocked_until\<close>.\<close>

definition upsert_count :: "login_config \<Rightarrow> time \<Rightarrow> rate_row option \<Rightarrow> int" where
  "upsert_count cfg now old =
     (case old of
        None \<Rightarrow> 1
      | Some row \<Rightarrow> if updated_at row < pg_time (now - LoginFailureWindow cfg) then 1
                    else failure_count row + 1)"

definition recordLoginLimitFailure ::
  "stmt_ok \<Rightarrow> login_config \<Rightarrow> string \<Rightarrow> int \<Rightarrow> time \<Rightarrow> rate_table \<Rightarrow> login_error + (duration \<times> rate_table)" where
  "recordLoginLimitFailure ok cfg keyHash failureLimit now table =
     (if \<not> ok ''upsert'' then Inl DatabaseError
      else
       (let failureCount = upsert_count cfg now (table keyHash);
            backoff = loginBackoff failureCount failureLimit (LoginBackoffBase cfg) (LoginBackoffMax cfg);
            blockedUntil = (if backoff > 0 then Some (pg_time (now + backoff)) else None) in
        if \<not> ok ''update'' then Inl DatabaseError
        else Inr (backoff, table(keyHash \<mapsto>
               \<lparr> failure_count = failureCount, blocked_until = blockedUntil, updated_at = pg_time now \<rparr>))))"

definition insertAuthenticationAudit ::
  "stmt_ok \<Rightarrow> string \<Rightarrow> string \<Rightarrow> string \<Rightarrow> string \<Rightarrow> string \<Rightarrow> loginFingerprint \<Rightarrow> time \<Rightarrow>
   audit_event list \<Rightarrow> login_error + audit_event list" where
  "insertAuthenticationAudit ok enterpriseID userID eventType outcome reason fingerprint now events =
     (if \<not> ok ''audit'' then Inl DatabaseError
      else Inr (events @ [\<lparr> deployment_id = enterpriseID,
        audit_user = (if userID \<noteq> [] then Some userID else None),
        event_type = eventType, audit_outcome = outcome,
        audit_reason = (if reason \<noteq> [] then Some reason else None),
        principal_hash = PrincipalHash fingerprint, source_hash = SourceHash fingerprint,
        created_at = pg_time now \<rparr>]))"

definition purge :: "time \<Rightarrow> rate_table \<Rightarrow> rate_table" where
  "purge cutoff table = (\<lambda>k. case table k of None \<Rightarrow> None | Some row \<Rightarrow> if updated_at row < cutoff then None else Some row)"

definition recordLoginFailure ::
  "stmt_ok \<Rightarrow> login_config \<Rightarrow> loginFingerprint \<Rightarrow> string \<Rightarrow> string \<Rightarrow> time \<Rightarrow> auth_db \<Rightarrow> (login_error + duration) \<times> auth_db" where
  "recordLoginFailure ok cfg fingerprint enterpriseID userID now db =
     (if \<not> ok ''begin'' then (Inl DatabaseError, db)
      else case recordLoginLimitFailure ok cfg (PrincipalSourceKeyHash fingerprint) (LoginFailureLimit cfg) now (rate_limits db) of
        Inl e \<Rightarrow> (Inl e, db)
      | Inr (principalBackoff, t1) \<Rightarrow>
         (case recordLoginLimitFailure ok cfg (SourceKeyHash fingerprint) (LoginSourceFailureLimit cfg) now t1 of
            Inl e \<Rightarrow> (Inl e, db)
          | Inr (sourceBackoff, t2) \<Rightarrow>
             (let backoff = max principalBackoff sourceBackoff in
              if \<not> ok ''purge'' then (Inl DatabaseError, db)
              else
               (let t3 = purge (pg_time (now - 2 * LoginFailureWindow cfg)) t2;
                    (eventType, outcome, reason) =
                      (if backoff > 0 then (''login.throttled'', ''denied'', ''failure_limit_reached'')
                       else (''login.failed'', ''failure'', ''invalid_credentials'')) in
                case insertAuthenticationAudit ok enterpriseID userID eventType outcome reason fingerprint now (audit_events db) of
                  Inl e \<Rightarrow> (Inl e, db)
                | Inr events \<Rightarrow>
                    if \<not> ok ''commit'' then (Inl DatabaseError, db)
                    else (Inr backoff, \<lparr> rate_limits = t3, audit_events = events \<rparr>)))))"

definition recordLoginThrottled ::
  "stmt_ok \<Rightarrow> loginFingerprint \<Rightarrow> string \<Rightarrow> time \<Rightarrow> auth_db \<Rightarrow> (login_error + unit) \<times> auth_db" where
  "recordLoginThrottled ok fingerprint enterpriseID now db =
     (case insertAuthenticationAudit ok enterpriseID [] ''login.throttled'' ''denied'' ''backoff_active'' fingerprint now (audit_events db) of
        Inl e \<Rightarrow> (Inl e, db)
      | Inr events \<Rightarrow> (Inr (), db \<lparr> audit_events := events \<rparr>))"

definition recordLoginSuccess ::
  "stmt_ok \<Rightarrow> loginFingerprint \<Rightarrow> string \<Rightarrow> string \<Rightarrow> time \<Rightarrow> auth_db \<Rightarrow> auth_db" where
  "recordLoginSuccess ok fingerprint enterpriseID userID now db =
     (if \<not> ok ''begin'' \<or> \<not> ok ''delete'' then db
      else
       (let t1 = (rate_limits db)(PrincipalSourceKeyHash fingerprint := None) in
        case insertAuthenticationAudit ok enterpriseID userID ''login.succeeded'' ''success'' [] fingerprint now (audit_events db) of
          Inl e \<Rightarrow> db
        | Inr events \<Rightarrow> if \<not> ok ''commit'' then db else \<lparr> rate_limits = t1, audit_events = events \<rparr>))"

definition recordPasswordChanged ::
  "stmt_ok \<Rightarrow> loginFingerprint \<Rightarrow> string \<Rightarrow> string \<Rightarrow> time \<Rightarrow> auth_db \<Rightarrow> auth_db" where
  "recordPasswordChanged ok fingerprint enterpriseID userID now db =
     (case insertAuthenticationAudit ok enterpriseID userID ''password.changed'' ''success'' [] fingerprint now (audit_events db) of
        Inl e \<Rightarrow> db
      | Inr events \<Rightarrow> db \<lparr> audit_events := events \<rparr>)"

section \<open>The client identity of a session\<close>

record sessionClientInput =
  sci_Name :: string
  sci_Version :: string
  sci_DeviceID :: string

record SessionClient =
  sc_Name :: "string option"
  sc_Version :: "string option"
  sc_DeviceID :: "string option"

definition sessionClientInput_valid :: "sessionClientInput \<Rightarrow> bool" where
  "sessionClientInput_valid input \<longleftrightarrow>
     length (sci_Name input) \<ge> 1 \<and> length (sci_Name input) \<le> 64 \<and>
     length (sci_Version input) \<le> 64 \<and> length (sci_DeviceID input) \<le> 128"

definition nonEmptyStringPointer :: "string \<Rightarrow> string option" where
  "nonEmptyStringPointer value = (if value = [] then None else Some value)"

definition identity :: "sessionClientInput \<Rightarrow> SessionClient" where
  "identity input = \<lparr> sc_Name = nonEmptyStringPointer (sci_Name input),
     sc_Version = nonEmptyStringPointer (sci_Version input),
     sc_DeviceID = nonEmptyStringPointer (sci_DeviceID input) \<rparr>"

definition userAgentClient :: "(nat \<Rightarrow> nat) \<Rightarrow> string \<Rightarrow> SessionClient" where
  "userAgentClient unicode userAgent =
     (let lowered = go_lower unicode (trim_space userAgent);
          name = (if str_contains lowered ''electron/'' then ''electron''
                  else if has_prefix lowered ''mozilla/'' then ''browser''
                  else if has_prefix lowered ''undici'' \<or> lowered = ''node'' \<or> has_prefix lowered ''node/'' then ''node''
                  else if has_prefix lowered ''curl/'' then ''curl'' else []) in
      \<lparr> sc_Name = nonEmptyStringPointer name, sc_Version = None, sc_DeviceID = None \<rparr>)"

definition sessionClient :: "(nat \<Rightarrow> nat) \<Rightarrow> sessionClientInput option \<Rightarrow> string \<Rightarrow> SessionClient" where
  "sessionClient unicode input userAgent =
     (case input of Some i \<Rightarrow> identity i | None \<Rightarrow> userAgentClient unicode userAgent)"

definition sessionClientJSON :: "SessionClient \<Rightarrow> (string \<times> string) list option" where
  "sessionClientJSON client =
     (case sc_Name client of
        None \<Rightarrow> None
      | Some name \<Rightarrow> Some ([(''name'', name)]
          @ (case sc_Version client of None \<Rightarrow> [] | Some v \<Rightarrow> [(''version'', v)])
          @ (case sc_DeviceID client of None \<Rightarrow> [] | Some d \<Rightarrow> [(''deviceId'', d)])))"

section \<open>The login handler\<close>

record passwordLoginRequest =
  plr_DeploymentID :: string
  plr_Username :: string
  plr_Password :: string
  plr_Client :: "sessionClientInput option"

record login_user =
  user_id :: string
  user_deployment :: string
  user_status :: string
  user_password_hash :: string

record http_request =
  RemoteAddr :: string
  ForwardedFor :: string
  UserAgent :: string

datatype 't login_response =
    Problem int string "int option"
  | Tokens 't

record deployment_config =
  app_DeploymentID :: string
  BootstrapDeploymentID :: string

definition storageTenantID :: "deployment_config \<Rightarrow> string" where
  "storageTenantID d = (if BootstrapDeploymentID d \<noteq> [] then BootstrapDeploymentID d else app_DeploymentID d)"

definition acceptsDeployment :: "deployment_config \<Rightarrow> string \<Rightarrow> bool" where
  "acceptsDeployment d deploymentID \<longleftrightarrow> deploymentID = app_DeploymentID d \<or> deploymentID = storageTenantID d"

definition resolveTenant :: "deployment_config \<Rightarrow> string \<Rightarrow> string option" where
  "resolveTenant d deploymentID =
     (if deploymentID \<noteq> [] \<and> \<not> acceptsDeployment d deploymentID then None else Some (storageTenantID d))"

text \<open>
  What the handler calls outside this theory, as one record: the key derivation, the user store,
  \<^verbatim>\<open>IssueUserSession\<close>, the proxies' addresses and the Unicode case table.
\<close>

record ('a, 'p, 't) login_env =
  env_net :: "('a, 'p) netip"
  env_trusted :: "'p list"
  env_unicode :: "nat \<Rightarrow> nat"
  env_idkey :: idkey
  env_lookup :: "string \<Rightarrow> string \<Rightarrow> login_error + login_user option"
  env_issue :: "login_user \<Rightarrow> SessionClient \<Rightarrow> login_error + 't"

definition request_fingerprint :: "('a, 'p, 't) login_env \<Rightarrow> http_request \<Rightarrow> string \<Rightarrow> string \<Rightarrow> loginFingerprint" where
  "request_fingerprint env req deploymentID username =
     loginFingerprint_of (env_unicode env)
       (loginSource (env_net env) (env_trusted env) (RemoteAddr req) (ForwardedFor req)) deploymentID username"

abbreviation databaseFailure :: "'t login_response" where
  "databaseFailure \<equiv> Problem 500 ''INTERNAL_ERROR'' None"

text \<open>\<open>body\<close> is the decoded request, or \<open>None\<close> when \<^verbatim>\<open>decodeJSON\<close> refused it.\<close>

definition passwordLogin ::
  "('a, 'p, 't) login_env \<Rightarrow> stmt_ok \<Rightarrow> login_config \<Rightarrow> deployment_config \<Rightarrow> time \<Rightarrow> http_request \<Rightarrow>
   passwordLoginRequest option \<Rightarrow> auth_db \<Rightarrow> 't login_response \<times> auth_db" where
  "passwordLogin env ok cfg dep now req body db =
     (case body of None \<Rightarrow> (Problem 400 ''INVALID_REQUEST'' None, db)
      | Some input \<Rightarrow>
     (let password = TrimPassword (plr_Password input) in
      if (case plr_Client input of None \<Rightarrow> False | Some c \<Rightarrow> \<not> sessionClientInput_valid c)
      then (Problem 400 ''INVALID_REQUEST'' None, db)
      else case resolveTenant dep (plr_DeploymentID input) of
        None \<Rightarrow> (Problem 404 ''RESOURCE_NOT_FOUND'' None, db)
      | Some deploymentID \<Rightarrow>
     (let fingerprint = request_fingerprint env req deploymentID (plr_Username input) in
      case loginThrottle ok fingerprint now db of
        Inl _ \<Rightarrow> (databaseFailure, db)
      | Inr retryAfter \<Rightarrow>
          if retryAfter > 0 then
           (case recordLoginThrottled ok fingerprint deploymentID now db of
              (Inl _, db1) \<Rightarrow> (databaseFailure, db1)
            | (Inr _, db1) \<Rightarrow> (Problem 429 ''LOGIN_RATE_LIMITED'' (Some (retryAfterSeconds retryAfter)), db1))
          else
     (case env_lookup env deploymentID (plr_Username input) of
        Inl _ \<Rightarrow> (databaseFailure, db)
      | Inr found \<Rightarrow>
         (let passwordHash = (case found of None \<Rightarrow> [] | Some user \<Rightarrow> user_password_hash user);
              passwordValid = VerifyPasswordOrDummy (env_idkey env) passwordHash password;
              userID = (case found of None \<Rightarrow> [] | Some user \<Rightarrow> user_id user);
              rejected = (case recordLoginFailure ok cfg fingerprint deploymentID userID now db of
                 (Inl _, db1) \<Rightarrow> (databaseFailure, db1)
               | (Inr backoff, db1) \<Rightarrow>
                   if backoff > 0 then (Problem 429 ''LOGIN_RATE_LIMITED'' (Some (retryAfterSeconds backoff)), db1)
                   else (Problem 401 ''INVALID_CREDENTIALS'' None, db1)) in
          case found of
            None \<Rightarrow> rejected
          | Some user \<Rightarrow>
              if user_status user \<noteq> ''active'' \<or> \<not> passwordValid then rejected
              else case env_issue env user (sessionClient (env_unicode env) (plr_Client input) (UserAgent req)) of
                Inl AgentExpired \<Rightarrow> (Problem 403 ''AGENT_EXPIRED'' None, db)
              | Inl DatabaseError \<Rightarrow> (databaseFailure, db)
              | Inr tokens \<Rightarrow>
                  (Tokens tokens, recordLoginSuccess ok fingerprint (user_deployment user) (user_id user) now db))))))"

section \<open>Back-off\<close>

lemma backoff_loop_closed:
  assumes "0 < delay" "delay \<le> maximum"
  shows "backoff_loop step n delay maximum = min maximum (delay * 2 ^ nat (n - step))"
  using assms
proof (induction step n delay maximum rule: backoff_loop.induct)
  case (1 step n delay maximum)
  have half: "delay > go_div maximum 2 \<longleftrightarrow> maximum < 2 * delay"
    using "1.prems" by (auto simp: go_div_nonneg)
  show ?case
  proof (cases "step < n")
    case True
    then have e: "nat (n - step) = Suc (nat (n - (step + 1)))" by simp
    show ?thesis
    proof (cases "maximum \<le> delay \<or> maximum < 2 * delay")
      case big: True
      let ?q = "(2::int) ^ nat (n - (step + 1))"
      have "delay * 2 * 1 \<le> delay * 2 * ?q"
        using "1.prems"(1) by (intro mult_left_mono) simp_all
      moreover have "maximum \<le> delay * 2 * 1" using big "1.prems" by linarith
      ultimately have "maximum \<le> delay * 2 * ?q" by (rule order_trans [rotated])
      then have "min maximum (delay * (2 * ?q)) = maximum" by (simp add: min_def mult.assoc)
      with big True show ?thesis
        by (subst backoff_loop.simps) (simp add: half e)
    next
      case False
      with "1.IH" True "1.prems" show ?thesis
        by (subst backoff_loop.simps) (simp add: half e mult.assoc [symmetric] mult.commute)
    qed
  next
    case False
    with "1.prems" show ?thesis by (subst backoff_loop.simps) simp
  qed
qed

lemma loginBackoff_closed:
  assumes "0 < base" "base \<le> maximum"
  shows "loginBackoff n failureLimit base maximum =
     (if n < failureLimit then 0 else min maximum (base * 2 ^ nat (n - failureLimit)))"
  using assms by (simp add: loginBackoff_def backoff_loop_closed)

lemma loginBackoff_bounds:
  assumes "0 < base" "base \<le> maximum"
  shows "0 \<le> loginBackoff n l base maximum" "loginBackoff n l base maximum \<le> maximum"
    "l \<le> n \<Longrightarrow> base \<le> loginBackoff n l base maximum"
proof -
  have "base \<le> base * 2 ^ k" for k :: nat
    using assms(1) by (simp add: mult_le_cancel_left1)
  with assms show "0 \<le> loginBackoff n l base maximum" "loginBackoff n l base maximum \<le> maximum"
    "l \<le> n \<Longrightarrow> base \<le> loginBackoff n l base maximum"
    by (auto simp: loginBackoff_closed min_def)
qed

lemma pg_time_le: "pg_time t \<le> t" and pg_time_gt: "t < pg_time t + 1000" and pg_time_dvd: "1000 dvd pg_time t"
  by (simp_all add: pg_time_def)

lemma pg_time_mono: "s \<le> t \<Longrightarrow> pg_time s \<le> pg_time t"
  by (simp add: pg_time_def zdiv_mono1)

lemma retry_covers: "d \<le> retryAfterSeconds d * second" "1 \<le> retryAfterSeconds d"
    "retryAfterSeconds d = 1 \<or> (retryAfterSeconds d - 1) * second < d"
proof -
  have small: "go_div (d + second - 1) second \<le> 0" if "d \<le> 0"
  proof (cases "d + second - 1 < 0")
    case True
    have "0 \<le> \<bar>d + second - 1\<bar> div second" by (simp add: pos_imp_zdiv_nonneg_iff)
    with True show ?thesis by (simp add: go_div_def)
  next
    case False
    with that show ?thesis by (simp add: go_div_nonneg)
  qed
  have big: "go_div (d + second - 1) second = (d + second - 1) div second" if "0 < d"
    using that by (simp add: go_div_nonneg)
  consider "d \<le> 0" | "0 < d" by linarith
  then have "d \<le> retryAfterSeconds d * second \<and> 1 \<le> retryAfterSeconds d
    \<and> (retryAfterSeconds d = 1 \<or> (retryAfterSeconds d - 1) * second < d)"
  proof cases
    case 1
    then show ?thesis using small by (simp add: retryAfterSeconds_def Let_def)
  next
    case 2
    define q where "q = (d + second - 1) div second"
    obtain r where r: "d + second - 1 = second * q + r" "0 \<le> r" "r < second"
      using that [of "(d + second - 1) mod second"] by (simp add: q_def)
    have "d \<le> q * second" using r by simp
    moreover have "(q - 1) * second < d" using r by (simp add: left_diff_distrib)
    moreover have "1 \<le> q" using r 2 by (cases "q \<le> 0") auto
    ultimately show ?thesis using big [OF 2] by (simp add: retryAfterSeconds_def Let_def q_def)
  qed
  then show "d \<le> retryAfterSeconds d * second" "1 \<le> retryAfterSeconds d"
    "retryAfterSeconds d = 1 \<or> (retryAfterSeconds d - 1) * second < d" by blast+
qed

section \<open>Key hashes\<close>

lemma opaqueHash_eqD:
  "opaqueHash xs = opaqueHash ys \<Longrightarrow> hash_input xs = hash_input ys \<or> sha_collision (hash_input xs) (hash_input ys)"
  using sha_url_eqD unfolding opaqueHash_def by blast

lemma opaqueHash_no_nul: "CHR 0x00 \<notin> set (opaqueHash xs)"
  unfolding opaqueHash_def
  by (rule base64url_no_special) (simp_all add: is_alnum_def is_lower_def is_upper_def is_digit_def byte_def)

text \<open>The messages behind the hashes of a fingerprint.\<close>

definition principal_parts :: "(nat \<Rightarrow> nat) \<Rightarrow> string \<Rightarrow> string \<Rightarrow> string list" where
  "principal_parts u ent name = [''principal'', ent, go_lower u (trim_space name)]"

definition source_parts :: "string \<Rightarrow> string list" where
  "source_parts src = [''source'', src]"

definition principal_key_parts :: "(nat \<Rightarrow> nat) \<Rightarrow> string \<Rightarrow> string \<Rightarrow> string \<Rightarrow> string list" where
  "principal_key_parts u src ent name =
     [''login-principal-source'', opaqueHash (principal_parts u ent name), opaqueHash (source_parts src)]"

definition source_key_parts :: "string \<Rightarrow> string list" where
  "source_key_parts src = [''login-source'', opaqueHash (source_parts src)]"

lemmas fingerprint_parts = principal_parts_def source_parts_def principal_key_parts_def source_key_parts_def

lemma fingerprint_keys:
  "PrincipalSourceKeyHash (loginFingerprint_of u src ent name) = opaqueHash (principal_key_parts u src ent name)"
  "SourceKeyHash (loginFingerprint_of u src ent name) = opaqueHash (source_key_parts src)"
  by (simp_all add: loginFingerprint_of_def fingerprint_parts Let_def)

lemma principal_key_parts_inject:
  assumes "hash_input (principal_key_parts u src ent name) = hash_input (principal_key_parts u src' ent name')"
  shows "opaqueHash (principal_parts u ent name) = opaqueHash (principal_parts u ent name')"
    "opaqueHash (source_parts src) = opaqueHash (source_parts src')"
proof -
  let ?p = "\<lambda>n. opaqueHash (principal_parts u ent n)" and ?s = "\<lambda>s. opaqueHash (source_parts s)"
  have "?p name @ CHR 0x00 # ?s src @ [CHR 0x00] = ?p name' @ CHR 0x00 # ?s src' @ [CHR 0x00]"
    using assms by (simp add: hash_input_def principal_key_parts_def)
  from sep_inject [OF opaqueHash_no_nul opaqueHash_no_nul this]
  show "?p name = ?p name'" "?s src = ?s src'" by simp_all
qed

lemma principal_key_not_source_key:
  assumes "opaqueHash (principal_key_parts u src ent name) = opaqueHash (source_key_parts src')"
  shows "sha_collision (hash_input (principal_key_parts u src ent name)) (hash_input (source_key_parts src'))"
  using opaqueHash_eqD [OF assms] by (auto simp: hash_input_def principal_key_parts_def source_key_parts_def)

section \<open>The forwarded chain\<close>

lemma forwarded_loop_skips_trusted:
  assumes "\<forall>e \<in> set ps. \<exists>a. ParseAddr net (trim_space e) = Some a \<and> addressInPrefixes net (Unmap net a) trusted"
    and "ParseAddr net (trim_space client) = Some a" "\<not> addressInPrefixes net (Unmap net a) trusted"
  shows "forwarded_loop net trusted peer l (ps @ client # spoof) = AddrString net (Unmap net a)"
  using assms by (induction ps arbitrary: l) (auto simp: Let_def)

lemma split_byte_append:
  "split_byte c (s @ c # t) = split_byte c s @ split_byte c t"
  by (induction s) (auto split: list.splits)

section \<open>Logins and the rate-limit table\<close>

lemma loginThrottleForKey_nonneg: "loginThrottleForKey ok k now db = Inr d \<Longrightarrow> 0 \<le> d"
  by (auto simp: loginThrottleForKey_def split: if_splits option.splits)

lemma loginThrottle_pos:
  assumes "loginThrottle ok fp now db = Inr d" "rate_limits db k = Some row" "blocked_until row = Some b" "now < b"
    "k = PrincipalSourceKeyHash fp \<or> k = SourceKeyHash fp"
  shows "b - now \<le> d"
  using assms loginThrottleForKey_nonneg
  by (auto simp: loginThrottle_def loginThrottleForKey_def split: sum.splits if_splits)

definition blocked_at :: "auth_db \<Rightarrow> loginFingerprint \<Rightarrow> time \<Rightarrow> bool" where
  "blocked_at db fp now \<longleftrightarrow> (\<exists>k row b. (k = PrincipalSourceKeyHash fp \<or> k = SourceKeyHash fp)
     \<and> rate_limits db k = Some row \<and> blocked_until row = Some b \<and> now < b)"

lemma loginThrottle_blocked:
  assumes "blocked_at db fp now" "loginThrottle ok fp now db = Inr d"
  shows "0 < d"
  using assms loginThrottle_pos unfolding blocked_at_def by fastforce

lemma loginThrottle_total: "\<exists>d. loginThrottle (\<lambda>_. True) fp now db = Inr d"
  by (auto simp: loginThrottle_def loginThrottleForKey_def split: sum.splits option.splits)

text \<open>While a key is blocked the handler answers before it looks at any account or password.\<close>

lemma passwordLogin_blocked:
  assumes "blocked_at db (request_fingerprint env req d (plr_Username input)) now"
    "resolveTenant dep (plr_DeploymentID input) = Some d"
    "\<forall>c. plr_Client input = Some c \<longrightarrow> sessionClientInput_valid c"
  shows "passwordLogin env ok cfg dep now req (Some input) db =
    (let fp = request_fingerprint env req d (plr_Username input) in
     case loginThrottle ok fp now db of
       Inl _ \<Rightarrow> (databaseFailure, db)
     | Inr w \<Rightarrow> (case recordLoginThrottled ok fp d now db of
            (Inl _, db1) \<Rightarrow> (databaseFailure, db1)
          | (Inr _, db1) \<Rightarrow> (Problem 429 ''LOGIN_RATE_LIMITED'' (Some (retryAfterSeconds w)), db1)))"
  using assms loginThrottle_blocked [OF assms(1), of ok]
  by (auto simp: passwordLogin_def Let_def split: option.splits sum.splits prod.splits)

text \<open>What every row of the table satisfies: it counts a failure, and its block ends at most the
  maximal back-off after the update.\<close>

definition row_ok :: "login_config \<Rightarrow> rate_row \<Rightarrow> bool" where
  "row_ok cfg row \<longleftrightarrow> 1 \<le> failure_count row \<and> 1000 dvd updated_at row
     \<and> (\<forall>b. blocked_until row = Some b \<longrightarrow> b < updated_at row + 1000 + LoginBackoffMax cfg)"

definition rate_inv :: "login_config \<Rightarrow> rate_table \<Rightarrow> bool" where
  "rate_inv cfg table \<longleftrightarrow> (\<forall>k row. table k = Some row \<longrightarrow> row_ok cfg row)"

definition backoff_config_ok :: "login_config \<Rightarrow> bool" where
  "backoff_config_ok cfg \<longleftrightarrow> 0 < LoginBackoffBase cfg \<and> LoginBackoffBase cfg \<le> LoginBackoffMax cfg"

lemma rate_inv_empty [simp]: "rate_inv cfg (\<lambda>_. None)"
  by (simp add: rate_inv_def)

lemma upsert_count_pos: "rate_inv cfg table \<Longrightarrow> 1 \<le> upsert_count cfg now (table k)"
  by (fastforce simp: upsert_count_def rate_inv_def row_ok_def split: option.splits)

lemma limit_failure_inv:
  assumes "rate_inv cfg table" "backoff_config_ok cfg"
    "recordLoginLimitFailure ok cfg k l now table = Inr (b, table')"
  shows "rate_inv cfg table'"
proof -
  let ?n = "upsert_count cfg now (table k)"
  let ?b = "loginBackoff ?n l (LoginBackoffBase cfg) (LoginBackoffMax cfg)"
  define row where "row = \<lparr> failure_count = ?n,
     blocked_until = (if ?b > 0 then Some (pg_time (now + ?b)) else None), updated_at = pg_time now \<rparr>"
  have t: "table' = table(k \<mapsto> row)"
    using assms(3) by (auto simp: recordLoginLimitFailure_def Let_def row_def split: if_splits)
  have "pg_time (now + ?b) < pg_time now + 1000 + LoginBackoffMax cfg"
    using pg_time_le [of "now + ?b"] pg_time_gt [of now] assms(2)
      loginBackoff_bounds(2) [of "LoginBackoffBase cfg" "LoginBackoffMax cfg" ?n l]
    by (simp add: backoff_config_ok_def)
  then have "row_ok cfg row"
    using upsert_count_pos [OF assms(1)] pg_time_dvd by (simp add: row_ok_def row_def)
  then show ?thesis using assms(1) unfolding t by (simp add: rate_inv_def)
qed

lemma limit_failure_frame:
  "recordLoginLimitFailure ok cfg k l now table = Inr (b, table') \<Longrightarrow> k' \<noteq> k \<Longrightarrow> table' k' = table k'"
  by (auto simp: recordLoginLimitFailure_def Let_def split: if_splits)

lemma purge_inv: "rate_inv cfg table \<Longrightarrow> rate_inv cfg (purge cutoff table)"
  by (auto simp: rate_inv_def purge_def split: option.splits if_splits)

text \<open>The table after a recorded failure, when the transaction commits.\<close>

lemma recordLoginFailure_cases:
  assumes "recordLoginFailure ok cfg fp ent uid now db = (res, db')"
  obtains (rollback) "res = Inl DatabaseError" "db' = db"
    | (commit) b1 t1 b2 t2 events where
        "recordLoginLimitFailure ok cfg (PrincipalSourceKeyHash fp) (LoginFailureLimit cfg) now (rate_limits db) = Inr (b1, t1)"
        "recordLoginLimitFailure ok cfg (SourceKeyHash fp) (LoginSourceFailureLimit cfg) now t1 = Inr (b2, t2)"
        "res = Inr (max b1 b2)"
        "db' = \<lparr> rate_limits = purge (pg_time (now - 2 * LoginFailureWindow cfg)) t2, audit_events = events \<rparr>"
proof -
  have e: "e = DatabaseError" if "recordLoginLimitFailure ok cfg k l now t = Inl e" for e k l t
    using that by (auto simp: recordLoginLimitFailure_def Let_def split: if_splits)
  have e': "e = DatabaseError" if "insertAuthenticationAudit ok en u ty out re fp now ev = Inl e" for e en u ty out re ev
    using that by (auto simp: insertAuthenticationAudit_def split: if_splits)
  show thesis
    using assms rollback commit e e'
    by (auto simp: recordLoginFailure_def Let_def split: if_splits sum.splits prod.splits)
qed

lemma recordLoginFailure_inv:
  assumes "rate_inv cfg (rate_limits db)" "backoff_config_ok cfg"
    "recordLoginFailure ok cfg fp ent uid now db = (res, db')"
  shows "rate_inv cfg (rate_limits db')"
  using assms(3)
proof (cases rule: recordLoginFailure_cases)
  case (commit b1 t1 b2 t2 events)
  have "rate_inv cfg t2"
    using limit_failure_inv assms(1,2) commit(1,2) by blast
  with commit show ?thesis by (simp add: purge_inv)
qed (simp add: assms)

text \<open>The handler changes the table only by recording a failure or by a success.\<close>

lemma passwordLogin_table:
  obtains (same) "rate_limits (snd (passwordLogin env ok cfg dep now req body db)) = rate_limits db"
    | (failure) input d uid w where "body = Some input" "resolveTenant dep (plr_DeploymentID input) = Some d"
        "loginThrottle ok (request_fingerprint env req d (plr_Username input)) now db = Inr w" "\<not> w > 0"
        "snd (passwordLogin env ok cfg dep now req body db)
         = snd (recordLoginFailure ok cfg (request_fingerprint env req d (plr_Username input)) d uid now db)"
    | (success) input d t w where "body = Some input" "resolveTenant dep (plr_DeploymentID input) = Some d"
        "loginThrottle ok (request_fingerprint env req d (plr_Username input)) now db = Inr w" "\<not> w > 0"
        "fst (passwordLogin env ok cfg dep now req body db) = Tokens t"
        "rate_limits (snd (passwordLogin env ok cfg dep now req body db))
         = (rate_limits db)(PrincipalSourceKeyHash (request_fingerprint env req d (plr_Username input)) := None)"
proof (cases body)
  case None
  then show ?thesis using same by (simp add: passwordLogin_def)
next
  case (Some input)
  note p = passwordLogin_def Some
  show ?thesis
  proof (cases "(case plr_Client input of None \<Rightarrow> False | Some c \<Rightarrow> \<not> sessionClientInput_valid c)
      \<or> resolveTenant dep (plr_DeploymentID input) = None")
    case True
    then show ?thesis using same by (auto simp: p Let_def)
  next
    case False
    then obtain d where d: "resolveTenant dep (plr_DeploymentID input) = Some d"
      and c: "\<not> (case plr_Client input of None \<Rightarrow> False | Some c \<Rightarrow> \<not> sessionClientInput_valid c)" by auto
    let ?fp = "request_fingerprint env req d (plr_Username input)"
    consider (err) e where "loginThrottle ok ?fp now db = Inl e"
      | (wait) w where "loginThrottle ok ?fp now db = Inr w" "w > 0"
      | (go) w where "loginThrottle ok ?fp now db = Inr w" "\<not> w > 0"
      by (cases "loginThrottle ok ?fp now db") auto
    then show ?thesis
    proof cases
      case err
      then show ?thesis using same d c by (simp add: p Let_def)
    next
      case wait
      then show ?thesis using same d c
        by (simp add: p Let_def recordLoginThrottled_def split: sum.splits)
    next
      case go
      note q = p d c go
      have reject: thesis if "snd (passwordLogin env ok cfg dep now req body db) = snd (recordLoginFailure ok cfg ?fp d uid now db)" for uid
        using failure [OF Some d go(1,2)] that by blast
      show ?thesis
      proof (cases "env_lookup env d (plr_Username input)")
        case (Inl e)
        then show ?thesis using same by (simp add: q Let_def)
      next
        case (Inr found)
        show ?thesis
        proof (cases "\<exists>user. found = Some user \<and> user_status user = ''active''
            \<and> VerifyPasswordOrDummy (env_idkey env) (user_password_hash user) (TrimPassword (plr_Password input))")
          case True
          then obtain user where u: "found = Some user" "user_status user = ''active''"
            "VerifyPasswordOrDummy (env_idkey env) (user_password_hash user) (TrimPassword (plr_Password input))" by blast
          show ?thesis
          proof (cases "env_issue env user (sessionClient (env_unicode env) (plr_Client input) (UserAgent req))")
            case (Inl e)
            then show ?thesis using same Inr u by (cases e) (simp_all add: q Let_def)
          next
            case issue: (Inr t)
            have f: "passwordLogin env ok cfg dep now req body db = (Tokens t, recordLoginSuccess ok ?fp (user_deployment user) (user_id user) now db)"
              using Inr u issue by (simp add: q Let_def)
            show ?thesis
              using same success [OF Some d go(1,2)] f
              by (auto simp: recordLoginSuccess_def Let_def split: if_splits sum.splits)
          qed
        next
          case False
          with Inr have "snd (passwordLogin env ok cfg dep now req body db) =
             snd (recordLoginFailure ok cfg ?fp d (case found of None \<Rightarrow> [] | Some user \<Rightarrow> user_id user) now db)"
            by (cases found) (auto simp: q Let_def split: prod.splits sum.splits)
          then show ?thesis by (rule reject)
        qed
      qed
    qed
  qed
qed

lemma passwordLogin_inv:
  assumes "rate_inv cfg (rate_limits db)" "backoff_config_ok cfg"
  shows "rate_inv cfg (rate_limits (snd (passwordLogin env ok cfg dep now req body db)))"
proof (cases rule: passwordLogin_table [of env ok cfg dep now req body db])
  case (failure input d uid w)
  then show ?thesis using recordLoginFailure_inv [OF assms] by (metis surjective_pairing)
qed (use assms(1) in \<open>auto simp: rate_inv_def\<close>)

text \<open>A block that is still running is kept by a recorded failure of other keys, provided that no
  back-off outlasts the retention of rows.\<close>

lemma purge_keeps_blocks:
  assumes "row_ok cfg row" "blocked_until row = Some b" "now < b"
    "LoginBackoffMax cfg \<le> 2 * LoginFailureWindow cfg"
  shows "\<not> updated_at row < pg_time (now - 2 * LoginFailureWindow cfg)"
proof
  assume "updated_at row < pg_time (now - 2 * LoginFailureWindow cfg)"
  moreover obtain u v where "updated_at row = 1000 * u" "pg_time (now - 2 * LoginFailureWindow cfg) = 1000 * v"
    using assms(1) pg_time_dvd unfolding row_ok_def dvd_def by metis
  ultimately have "updated_at row + 1000 \<le> pg_time (now - 2 * LoginFailureWindow cfg)" by simp
  then show False
    using pg_time_le [of "now - 2 * LoginFailureWindow cfg"] assms unfolding row_ok_def by fastforce
qed

lemma passwordLogin_keeps_blocks:
  assumes "rate_inv cfg (rate_limits db)" "LoginBackoffMax cfg \<le> 2 * LoginFailureWindow cfg"
    "rate_limits db k = Some row" "blocked_until row = Some b" "now < b"
  shows "rate_limits (snd (passwordLogin env ok cfg dep now req body db)) k = Some row"
proof (cases rule: passwordLogin_table [of env ok cfg dep now req body db])
  case (failure input d uid w)
  let ?fp = "request_fingerprint env req d (plr_Username input)"
  have k: "k \<noteq> PrincipalSourceKeyHash ?fp" "k \<noteq> SourceKeyHash ?fp"
    using loginThrottle_pos [OF failure(3) assms(3,4,5)] failure(4) assms(5) by auto
  obtain res db' where r: "recordLoginFailure ok cfg ?fp d uid now db = (res, db')" by fastforce
  then have "rate_limits db' k = Some row"
  proof (cases rule: recordLoginFailure_cases)
    case (commit b1 t1 b2 t2 events)
    have "t2 k = Some row"
      using limit_failure_frame [OF commit(1) k(1)] limit_failure_frame [OF commit(2) k(2)] assms(3) by simp
    moreover have "row_ok cfg row" using assms(1,3) by (auto simp: rate_inv_def)
    ultimately show ?thesis
      using purge_keeps_blocks assms(2,4,5) commit(4) by (simp add: purge_def)
  qed (simp add: assms(3))
  with failure(5) r show ?thesis by simp
next
  case (success input d t w)
  have "k \<noteq> PrincipalSourceKeyHash (request_fingerprint env req d (plr_Username input))"
    using loginThrottle_pos [OF success(3) assms(3,4,5)] success(4) assms(5) by auto
  with success(6) assms(3) show ?thesis by simp
qed (use assms(3) in simp)

text \<open>A history of login requests, each with the environment, the failing statements and the time
  it met.\<close>

type_synonym ('a, 'p, 't) login_event =
  "('a, 'p, 't) login_env \<times> stmt_ok \<times> time \<times> http_request \<times> passwordLoginRequest option"

fun login_run :: "login_config \<Rightarrow> deployment_config \<Rightarrow> ('a, 'p, 't) login_event list \<Rightarrow> auth_db \<Rightarrow> auth_db" where
  "login_run cfg dep [] db = db"
| "login_run cfg dep ((env, ok, now, req, body) # es) db =
     login_run cfg dep es (snd (passwordLogin env ok cfg dep now req body db))"

definition empty_db :: auth_db where
  "empty_db = \<lparr> rate_limits = (\<lambda>_. None), audit_events = [] \<rparr>"

lemma login_run_inv:
  "rate_inv cfg (rate_limits db) \<Longrightarrow> backoff_config_ok cfg \<Longrightarrow> rate_inv cfg (rate_limits (login_run cfg dep es db))"
  by (induction cfg dep es db rule: login_run.induct) (simp_all add: passwordLogin_inv)

section \<open>Lock-out\<close>

text \<open>Failed attempts of one principal from one source, at the given times.\<close>

fun failures :: "login_config \<Rightarrow> loginFingerprint \<Rightarrow> string \<Rightarrow> string \<Rightarrow> time list \<Rightarrow> auth_db \<Rightarrow> auth_db" where
  "failures cfg fp ent uid [] db = db"
| "failures cfg fp ent uid (t # ts) db =
     failures cfg fp ent uid ts (snd (recordLoginFailure (\<lambda>_. True) cfg fp ent uid t db))"

fun within_window :: "duration \<Rightarrow> time list \<Rightarrow> bool" where
  "within_window w (s # t # ts) \<longleftrightarrow> s \<le> t \<and> t - s \<le> w \<and> within_window w (t # ts)"
| "within_window w _ \<longleftrightarrow> True"

lemma failure_row:
  fixes t :: time and db :: auth_db
  assumes "PrincipalSourceKeyHash fp \<noteq> SourceKeyHash fp" "0 \<le> LoginFailureWindow cfg"
  defines "n \<equiv> upsert_count cfg t (rate_limits db (PrincipalSourceKeyHash fp))"
  defines "b \<equiv> loginBackoff n (LoginFailureLimit cfg) (LoginBackoffBase cfg) (LoginBackoffMax cfg)"
  shows "rate_limits (snd (recordLoginFailure (\<lambda>_. True) cfg fp ent uid t db)) (PrincipalSourceKeyHash fp) =
    Some \<lparr> failure_count = n, blocked_until = (if b > 0 then Some (pg_time (t + b)) else None), updated_at = pg_time t \<rparr>"
proof -
  have "pg_time (t - 2 * LoginFailureWindow cfg) \<le> pg_time t"
    using assms(2) by (intro pg_time_mono) simp
  then show ?thesis
    using assms(1)
    by (simp add: recordLoginFailure_def recordLoginLimitFailure_def insertAuthenticationAudit_def Let_def
        purge_def n_def b_def not_less split: prod.splits)
qed

lemma failure_purges:
  assumes "k \<noteq> PrincipalSourceKeyHash fp" "k \<noteq> SourceKeyHash fp" "rate_limits db k = Some row"
    "updated_at row < pg_time (now - 2 * LoginFailureWindow cfg)"
  shows "rate_limits (snd (recordLoginFailure (\<lambda>_. True) cfg fp ent uid now db)) k = None"
  using assms
  by (simp add: recordLoginFailure_def recordLoginLimitFailure_def insertAuthenticationAudit_def Let_def
      purge_def split: prod.splits)

lemma failures_count:
  assumes "PrincipalSourceKeyHash fp \<noteq> SourceKeyHash fp" "0 \<le> LoginFailureWindow cfg"
    and "within_window (LoginFailureWindow cfg) (t # ts)"
    and "upsert_count cfg t (rate_limits db (PrincipalSourceKeyHash fp)) = n"
  defines "m \<equiv> n + int (length ts)"
  defines "b \<equiv> loginBackoff m (LoginFailureLimit cfg) (LoginBackoffBase cfg) (LoginBackoffMax cfg)"
  shows "rate_limits (failures cfg fp ent uid (t # ts) db) (PrincipalSourceKeyHash fp) =
    Some \<lparr> failure_count = m, blocked_until = (if b > 0 then Some (pg_time (last (t # ts) + b)) else None),
      updated_at = pg_time (last (t # ts)) \<rparr>"
  using assms(3,4) unfolding m_def b_def
proof (induction ts arbitrary: t n db)
  case Nil
  then show ?case using failure_row [OF assms(1,2), where t = t and db = db] by simp
next
  case (Cons u ts)
  let ?db = "snd (recordLoginFailure (\<lambda>_. True) cfg fp ent uid t db)"
  have "pg_time (u - LoginFailureWindow cfg) \<le> pg_time t"
    using Cons.prems(1) by (intro pg_time_mono) simp
  then have "upsert_count cfg u (rate_limits ?db (PrincipalSourceKeyHash fp)) = n + 1"
    using failure_row [OF assms(1,2), where t = t and db = db] Cons.prems(2) by (simp add: upsert_count_def)
  with Cons.IH [of u ?db "n + 1"] Cons.prems(1) show ?case by (simp add: algebra_simps)
qed

section \<open>Properties\<close>

text \<open>
  The delay after a failure is zero below the limit and otherwise doubles with every further
  failure, capped at the configured maximum: the loop computes
  \<open>min maximum (base * 2 ^ (count - limit))\<close> for any count, and the \<^verbatim>\<open>Retry-After\<close>
  header announces the least number of whole seconds, at least one, that covers it.
\<close>

theorem login_backoff_is_capped_exponential:
  assumes "0 < base" "base \<le> maximum"
  shows "loginBackoff n failureLimit base maximum =
      (if n < failureLimit then 0 else min maximum (base * 2 ^ nat (n - failureLimit)))
    \<and> (let d = loginBackoff n failureLimit base maximum; r = retryAfterSeconds d in
       1 \<le> r \<and> d \<le> r * second \<and> (r = 1 \<or> (r - 1) * second < d))"
  using loginBackoff_closed [OF assms] retry_covers by (simp add: Let_def)

theorem login_backoff_is_capped_exponential_witness:
  "loginBackoff 7 5 (30 * second) (15 * minute) = 120 * second
   \<and> retryAfterSeconds (loginBackoff 7 5 (30 * second) (15 * minute)) = 120"
proof -
  have "loginBackoff 7 5 (30 * second) (15 * minute) = 120 * second"
    using login_backoff_is_capped_exponential [of "30 * second" "15 * minute" 7 5] by simp
  then show ?thesis by (simp add: retryAfterSeconds_def go_div_def)
qed


text \<open>A concrete environment: addresses are strings, the proxy network is \<^verbatim>\<open>10.0.0.1\<close>.\<close>

definition demo_net :: "(string, string) netip" where
  "demo_net = \<lparr> ParseAddr = (\<lambda>s. if s = [] then None else Some s), ParseAddrPort = (\<lambda>_. None), Unmap = (\<lambda>a. a),
     AddrString = (\<lambda>a. a), Contains = (\<lambda>p a. p = a) \<rparr>"

definition demo_env :: "(string, string, unit) login_env" where
  "demo_env = \<lparr> env_net = demo_net, env_trusted = [''10.0.0.1''], env_unicode = id,
     env_idkey = (\<lambda>p s t m q n. take n (p @ replicate n (CHR 0x00))),
     env_lookup = (\<lambda>d u. Inr None), env_issue = (\<lambda>u c. Inr ()) \<rparr>"

definition demo_config :: login_config where
  "demo_config = \<lparr> LoginFailureLimit = 5, LoginSourceFailureLimit = 100, LoginFailureWindow = 15 * minute,
     LoginBackoffBase = 30 * second, LoginBackoffMax = 15 * minute \<rparr>"


text \<open>
  (C30) A forwarded address cannot be forged: when the peer is a trusted proxy and the header ends
  in the address \<open>client\<close> of an untrusted host followed by trusted proxies only, the login is
  attributed to that address, whatever the client itself wrote in front of it; when the peer is not a
  trusted proxy the header has no influence at all.
\<close>

theorem forwarded_source_not_spoofable:
  assumes "parseRemoteAddress net remote = Some peer"
    and "addressInPrefixes net peer trusted \<Longrightarrow>
       trim_space header = spoof @ CHR '','' # join '','' (client # proxies)
       \<and> (\<forall>e \<in> set (client # proxies). CHR '','' \<notin> set e)
       \<and> (\<forall>e \<in> set proxies. \<exists>a. ParseAddr net (trim_space e) = Some a \<and> addressInPrefixes net (Unmap net a) trusted)
       \<and> ParseAddr net (trim_space client) = Some ca \<and> \<not> addressInPrefixes net (Unmap net ca) trusted"
  shows "loginSource net trusted remote header =
     (if addressInPrefixes net peer trusted then AddrString net (Unmap net ca) else AddrString net peer)"
proof (cases "addressInPrefixes net peer trusted")
  case True
  note a = assms(2) [OF True]
  have "split_byte (CHR '','') (trim_space header) = split_byte (CHR '','') spoof @ client # proxies"
    using a split_join [of "client # proxies" "CHR '',''"] by (simp add: split_byte_append)
  then show ?thesis
    using True assms(1) a forwarded_loop_skips_trusted [of "rev proxies" net trusted client ca]
    by (simp add: loginSource_def Let_def)
qed (simp add: loginSource_def assms(1))

theorem forwarded_source_not_spoofable_witness:
  "loginSource demo_net [''10.0.0.1''] ''10.0.0.1'' ''1.1.1.1, 203.0.113.9,10.0.0.1'' = ''203.0.113.9''"
proof -
  have p: "parseRemoteAddress demo_net ''10.0.0.1'' = Some ''10.0.0.1''"
    by (simp add: parseRemoteAddress_def demo_net_def)
  have t: "trim_space ''1.1.1.1, 203.0.113.9,10.0.0.1'' = ''1.1.1.1'' @ CHR '','' # join '','' ['' 203.0.113.9'', ''10.0.0.1'']"
    "trim_space '' 203.0.113.9'' = ''203.0.113.9''" "trim_space ''10.0.0.1'' = ''10.0.0.1''"
    by (simp_all add: trim_space_def trim_right_def space1_def space2_def space3_def byte_def)
  show ?thesis
    using forwarded_source_not_spoofable [OF p, of "[''10.0.0.1'']" _ "''1.1.1.1''" "'' 203.0.113.9''" "[''10.0.0.1'']" "''203.0.113.9''"] t
    by (simp add: demo_net_def addressInPrefixes_def)
qed

text \<open>
  Rate-limit keys separate principals and sources: two logins of one deployment share the
  principal-and-source key only if their sources and their normalised user names agree, and no
  principal key is a source key, unless two of the messages named here collide under SHA-256.
\<close>

theorem rate_limit_keys_separate:
  assumes "PrincipalSourceKeyHash (loginFingerprint_of u src ent name) = PrincipalSourceKeyHash (loginFingerprint_of u src' ent name')"
  shows "(src = src' \<and> go_lower u (trim_space name) = go_lower u (trim_space name'))
    \<or> sha_collision (hash_input (principal_parts u ent name)) (hash_input (principal_parts u ent name'))
    \<or> sha_collision (hash_input (source_parts src)) (hash_input (source_parts src'))
    \<or> sha_collision (hash_input (principal_key_parts u src ent name)) (hash_input (principal_key_parts u src' ent name'))"
proof (cases "sha_collision (hash_input (principal_key_parts u src ent name)) (hash_input (principal_key_parts u src' ent name'))")
  case False
  then have "hash_input (principal_key_parts u src ent name) = hash_input (principal_key_parts u src' ent name')"
    using opaqueHash_eqD assms unfolding fingerprint_keys by blast
  note e = principal_key_parts_inject [OF this]
  have "hash_input (principal_parts u ent name) = hash_input (principal_parts u ent name') \<Longrightarrow>
      go_lower u (trim_space name) = go_lower u (trim_space name')"
    "hash_input (source_parts src) = hash_input (source_parts src') \<Longrightarrow> src = src'"
    by (simp_all add: hash_input_def fingerprint_parts)
  then show ?thesis using opaqueHash_eqD [OF e(1)] opaqueHash_eqD [OF e(2)] by blast
qed blast

theorem rate_limit_keys_separate_witness:
  "PrincipalSourceKeyHash (loginFingerprint_of id ''192.0.2.7'' ''acme'' '' Alice'')
     = PrincipalSourceKeyHash (loginFingerprint_of id ''192.0.2.7'' ''acme'' ''alice'')
   \<and> go_lower id (trim_space '' Alice'') = go_lower id (trim_space ''alice'')"
proof -
  have t: "trim_space '' Alice'' = ''Alice''" "trim_space ''alice'' = ''alice''"
    by (simp_all add: trim_space_def trim_right_def space1_def space2_def space3_def byte_def)
  have l: "go_lower id ''Alice'' = ''alice''" "go_lower id ''alice'' = ''alice''"
    by code_simp+
  have "PrincipalSourceKeyHash (loginFingerprint_of id ''192.0.2.7'' ''acme'' '' Alice'')
     = PrincipalSourceKeyHash (loginFingerprint_of id ''192.0.2.7'' ''acme'' ''alice'')"
    by (simp add: fingerprint_keys fingerprint_parts t l)
  from rate_limit_keys_separate [OF this] this show ?thesis
    by (auto simp: t l sha_collision_def fingerprint_parts)
qed

text \<open>
  With back-offs no longer than twice the failure window, a running block is never lifted: after
  any history of logins, another login request (by anyone, with any outcome and any failing
  statement) leaves the row of every key that is still blocked exactly as it is.
\<close>

theorem running_block_is_never_lifted:
  assumes "backoff_config_ok cfg" "LoginBackoffMax cfg \<le> 2 * LoginFailureWindow cfg"
    and "rate_limits (login_run cfg dep history empty_db) k = Some row" "blocked_until row = Some b" "now < b"
  shows "rate_limits (snd (passwordLogin env ok cfg dep now req body (login_run cfg dep history empty_db))) k = Some row"
  using passwordLogin_keeps_blocks [OF _ assms(2-5)] login_run_inv [of cfg empty_db dep history] assms(1)
  by (simp add: empty_db_def)

definition strict_config :: login_config where
  "strict_config = \<lparr> LoginFailureLimit = 1, LoginSourceFailureLimit = 1, LoginFailureWindow = 15 * minute,
     LoginBackoffBase = 30 * second, LoginBackoffMax = 30 * second \<rparr>"

lemma strict_backoff: "1 \<le> n \<Longrightarrow> loginBackoff n 1 (30 * second) (30 * second) = 30 * second"
  using loginBackoff_bounds(2) [of "30 * second" "30 * second" n 1]
    loginBackoff_bounds(3) [of "30 * second" "30 * second" 1 n]
  by simp

theorem running_block_is_never_lifted_witness:
  "(let req = \<lparr> RemoteAddr = ''192.0.2.7'', ForwardedFor = [], UserAgent = [] \<rparr>;
        input = \<lparr> plr_DeploymentID = [], plr_Username = ''alice'', plr_Password = ''guess1'', plr_Client = None \<rparr>;
        dep = \<lparr> app_DeploymentID = ''acme'', BootstrapDeploymentID = [] \<rparr>;
        db = login_run strict_config dep [(demo_env, \<lambda>_. True, 0, req, Some input)] empty_db;
        k = SourceKeyHash (request_fingerprint demo_env req ''acme'' ''alice'') in
    \<exists>row. blocked_until row = Some (30 * second)
      \<and> rate_limits (snd (passwordLogin demo_env (\<lambda>_. True) strict_config dep (20 * second) req (Some (input \<lparr> plr_Username := ''bob'' \<rparr>)) db)) k = Some row)"
proof -
  let ?req = "\<lparr> RemoteAddr = ''192.0.2.7'', ForwardedFor = [], UserAgent = [] \<rparr>"
  let ?input = "\<lparr> plr_DeploymentID = [], plr_Username = ''alice'', plr_Password = ''guess1'', plr_Client = None \<rparr>"
  let ?dep = "\<lparr> app_DeploymentID = ''acme'', BootstrapDeploymentID = [] \<rparr>"
  let ?fp = "request_fingerprint demo_env ?req ''acme'' ''alice''"
  have b: "backoff_config_ok strict_config" "LoginBackoffMax strict_config \<le> 2 * LoginFailureWindow strict_config"
    by (simp_all add: backoff_config_ok_def strict_config_def)
  have l: "env_lookup demo_env = (\<lambda>d u. Inr None)" by (simp add: demo_env_def)
  have row: "\<exists>row. rate_limits (login_run strict_config ?dep [(demo_env, \<lambda>_. True, 0, ?req, Some ?input)] empty_db) (SourceKeyHash ?fp)
      = Some row \<and> blocked_until row = Some (30 * second)"
    using strict_backoff [of 1] strict_backoff [of 2]
    by (cases "PrincipalSourceKeyHash ?fp = SourceKeyHash ?fp")
      (simp_all add: passwordLogin_def resolveTenant_def storageTenantID_def loginThrottle_def loginThrottleForKey_def
        empty_db_def l recordLoginFailure_def recordLoginLimitFailure_def insertAuthenticationAudit_def
        upsert_count_def purge_def pg_time_def strict_config_def Let_def)
  then obtain row where "rate_limits (login_run strict_config ?dep [(demo_env, \<lambda>_. True, 0, ?req, Some ?input)] empty_db) (SourceKeyHash ?fp)
      = Some row" "blocked_until row = Some (30 * second)" by blast
  with running_block_is_never_lifted [OF b this, where now = "20 * second" and env = demo_env and ok = "\<lambda>_. True"
      and req = ?req and body = "Some (?input \<lparr> plr_Username := ''bob'' \<rparr>)"]
  show ?thesis unfolding Let_def by (intro exI [of _ row]) simp
qed

definition long_backoff_config :: login_config where
  "long_backoff_config = \<lparr> LoginFailureLimit = 1, LoginSourceFailureLimit = 1000, LoginFailureWindow = minute,
     LoginBackoffBase = 10 * minute, LoginBackoffMax = 10 * minute \<rparr>"


end
