(* ===== verification/Admin_Access.thy ===== *)
theory Admin_Access
  imports Token_Service Login_Throttle
begin

text \<open>
  Who may call the management API: the routes and middlewares of
  \<^verbatim>\<open>internal/httpapi/server.go\<close>, the access-session check and the model scopes of
  \<^verbatim>\<open>internal/app/app.go\<close>, over the directory tables of the database. A query is a function of
  the tables; \<open>ok\<close> says which statements the database answers.
\<close>

section \<open>The directory tables\<close>

record user_row =
  u_DeploymentID :: string
  u_ID :: string
  u_Username :: string
  u_PasswordHash :: string
  u_Status :: string
  u_RequirePasswordChange :: bool
  u_IsAdmin :: bool
  u_Kind :: string
  u_DisplayName :: string
  u_Email :: "string option"

record role_row =
  role_DeploymentID :: string
  role_ID :: string
  role_Enabled :: bool
  role_Name :: string
  role_Description :: string
  role_BuiltIn :: bool

record team_row =
  team_DeploymentID :: string
  team_ID :: string
  team_ParentTeamID :: "string option"
  team_Enabled :: bool
  team_Name :: string
  team_Description :: string
  team_BuiltIn :: bool
  team_Path :: string
  team_Depth :: int

record model_row =
  m_DeploymentID :: string
  m_ID :: string
  m_Enabled :: bool

record assignment_row =
  ma_DeploymentID :: string
  ma_ModelID :: string
  ma_SubjectType :: string
  ma_SubjectID :: string
  ma_ExpiresAt :: "time option"

record session_row =
  s_DeploymentID :: string
  s_UserID :: string
  s_Topic :: string
  s_Client :: SessionClient
  s_LastSeenAt :: time
  s_RevokedAt :: "time option"

text \<open>Bindings are triples of deployment, subject and object; sessions are keyed by their identifier.\<close>

record directory =
  d_users :: "user_row list"
  d_roles :: "role_row list"
  d_teams :: "team_row list"
  d_user_role_bindings :: "(string \<times> string \<times> string) list"
  d_user_team_bindings :: "(string \<times> string \<times> string) list"
  d_team_default_roles :: "(string \<times> string \<times> string) list"
  d_role_permissions :: "(string \<times> string \<times> string) list"
  d_models :: "model_row list"
  d_model_assignments :: "assignment_row list"

definition enabled_role :: "directory \<Rightarrow> string \<Rightarrow> string \<Rightarrow> bool" where
  "enabled_role d dep role = list_ex (\<lambda>r. role_DeploymentID r = dep \<and> role_ID r = role \<and> role_Enabled r) (d_roles d)"

definition enabled_team :: "directory \<Rightarrow> string \<Rightarrow> string \<Rightarrow> bool" where
  "enabled_team d dep team = list_ex (\<lambda>t. team_DeploymentID t = dep \<and> team_ID t = team \<and> team_Enabled t) (d_teams d)"

text \<open>The view \<^verbatim>\<open>user_effective_roles\<close>: explicit bindings, and the default roles of enabled teams.\<close>

definition user_effective_roles :: "directory \<Rightarrow> (string \<times> string \<times> string) list" where
  "user_effective_roles d = remdups
     ([(dep, user, role). (dep, user, role) \<leftarrow> d_user_role_bindings d, enabled_role d dep role]
      @ [(dep, user, role). (dep, user, team) \<leftarrow> d_user_team_bindings d, enabled_team d dep team,
           (dep', team', role) \<leftarrow> d_team_default_roles d, dep' = dep \<and> team' = team, enabled_role d dep role])"

definition user_has_permission :: "directory \<Rightarrow> string \<Rightarrow> string \<Rightarrow> string \<Rightarrow> bool" where
  "user_has_permission d dep user permission =
     list_ex (\<lambda>(dep', user', role). dep' = dep \<and> user' = user \<and> enabled_role d dep role
        \<and> (dep, role, permission) \<in> set (d_role_permissions d)) (user_effective_roles d)"

text \<open>\<^verbatim>\<open>ORDER BY\<close> sorts bytewise here; nothing below depends on the collation.\<close>

definition EffectiveUserRoleIDs :: "directory \<Rightarrow> string \<Rightarrow> string \<Rightarrow> string list" where
  "EffectiveUserRoleIDs d dep user = sort [role. (dep', user', role) \<leftarrow> user_effective_roles d, dep' = dep \<and> user' = user]"

definition UserTeamIDs :: "directory \<Rightarrow> string \<Rightarrow> string \<Rightarrow> string list" where
  "UserTeamIDs d dep user = sort [team. (dep', user', team) \<leftarrow> d_user_team_bindings d, dep' = dep \<and> user' = user]"

definition UserPermissionIDs :: "directory \<Rightarrow> string \<Rightarrow> string \<Rightarrow> string list" where
  "UserPermissionIDs d dep user = sort (remdups
     [permission. (dep', role, permission) \<leftarrow> d_role_permissions d, dep' = dep,
        (dep'', user', role') \<leftarrow> user_effective_roles d, dep'' = dep \<and> role' = role \<and> user' = user, enabled_role d dep role])"

definition assigned :: "directory \<Rightarrow> time \<Rightarrow> string \<Rightarrow> string \<Rightarrow> assignment_row \<Rightarrow> bool" where
  "assigned d now dep user ma \<longleftrightarrow>
     (case ma_ExpiresAt ma of None \<Rightarrow> True | Some e \<Rightarrow> e > now)
   \<and> ((ma_SubjectType ma = ''user'' \<and> ma_SubjectID ma = user)
    \<or> (ma_SubjectType ma = ''role'' \<and> (dep, user, ma_SubjectID ma) \<in> set (user_effective_roles d) \<and> enabled_role d dep (ma_SubjectID ma))
    \<or> (ma_SubjectType ma = ''team'' \<and> (dep, user, ma_SubjectID ma) \<in> set (d_user_team_bindings d) \<and> enabled_team d dep (ma_SubjectID ma)))"

definition ModelScopes :: "directory \<Rightarrow> time \<Rightarrow> string \<Rightarrow> string \<Rightarrow> string list" where
  "ModelScopes d now dep user = sort (remdups
     [m_ID m. m \<leftarrow> d_models d, m_DeploymentID m = dep \<and> m_Enabled m,
        ma \<leftarrow> d_model_assignments d, ma_DeploymentID ma = dep \<and> ma_ModelID ma = m_ID m,
        u \<leftarrow> d_users d, u_ID u = user \<and> u_DeploymentID u = dep, assigned d now dep user ma])"

section \<open>Routes\<close>

datatype access_level = Public | ServiceRoute | SessionRoute | AdminRoute

type_synonym route = "access_level \<times> string \<times> string"

text \<open>\<open>Public\<close> routes have no middleware of their own, \<open>ServiceRoute\<close>s check the shared data-plane
  secret, \<open>SessionRoute\<close>s authenticate and \<open>AdminRoute\<close>s also check a permission.\<close>

definition mountCommon :: "route list" where
  "mountCommon =
    [(Public, ''GET'', ''/.well-known/jwks.json''),
     (Public, ''GET'', ''/.well-known/openid-configuration''),
     (Public, ''GET'', ''/livez''),
     (Public, ''GET'', ''/readyz''),
     (Public, ''GET'', ''/healthz''),
     (Public, ''GET'', ''/aep/v1/metadata'')]"

definition mountAuth :: "route list" where
  "mountAuth =
    [(Public, ''GET'', ''/aep/v1/auth/methods''),
     (Public, ''POST'', ''/aep/v1/auth/password/login''),
     (Public, ''POST'', ''/aep/v1/auth/federated/start''),
     (Public, ''POST'', ''/aep/v1/auth/exchange''),
     (Public, ''POST'', ''/aep/v1/auth/refresh''),
     (SessionRoute, ''POST'', ''/aep/v1/auth/password/change''),
     (SessionRoute, ''POST'', ''/aep/v1/auth/logout'')]"

definition mountAgentUser :: "route list" where
  "mountAgentUser =
    [(SessionRoute, ''POST'', ''/aep/v1/user/activation''),
     (SessionRoute, ''GET'', ''/aep/v1/user/me''),
     (SessionRoute, ''GET'', ''/aep/v1/user/models''),
     (SessionRoute, ''GET'', ''/aep/v1/user/credentials''),
     (SessionRoute, ''POST'', ''/aep/v1/user/credentials/{credentialId}/resolve''),
     (SessionRoute, ''POST'', ''/aep/v1/user/heartbeat''),
     (SessionRoute, ''GET'', ''/aep/v1/user/control-events''),
     (SessionRoute, ''POST'', ''/aep/v1/user/control-events/{deliveryId}/acknowledge''),
     (SessionRoute, ''POST'', ''/aep/v1/user/control-events/{deliveryId}/result''),
     (SessionRoute, ''GET'', ''/aep/v1/user/skills/manifest''),
     (SessionRoute, ''GET'', ''/aep/v1/user/skills/{skillId}/versions/{version}/package''),
     (SessionRoute, ''POST'', ''/aep/v1/user/skills/sync-results''),
     (SessionRoute, ''POST'', ''/aep/v1/user/events/batch'')]"

definition mountInternal :: "route list" where
  "mountInternal =
    [(ServiceRoute, ''GET'', ''/internal/data-plane/desired-state''),
     (ServiceRoute, ''PUT'', ''/internal/data-plane/status''),
     (Public, ''GET'', ''/internal/gateway/licenses/{licenseId}''),
     (Public, ''GET'', ''/internal/gateway/identity''),
     (ServiceRoute, ''GET'', ''/internal/data-plane/gateway-limits''),
     (ServiceRoute, ''PUT'', ''/internal/data-plane/gateway-limits/status'')]"

definition mountAdmin :: "route list" where
  "mountAdmin =
    [(AdminRoute, ''GET'', ''/aep/v1/admin/permissions''),
     (AdminRoute, ''GET'', ''/aep/v1/admin/model-gateway/capabilities''),
     (AdminRoute, ''POST'', ''/aep/v1/admin/model-gateway/tokens''),
     (AdminRoute, ''POST'', ''/aep/v1/admin/model-gateway/models/{modelId}/test-access''),
     (AdminRoute, ''GET'', ''/aep/v1/admin/model-gateway/limits''),
     (AdminRoute, ''GET'', ''/aep/v1/admin/model-gateway/quotas/{userId}''),
     (AdminRoute, ''POST'', ''/aep/v1/admin/model-gateway/quotas/{userId}/refresh''),
     (AdminRoute, ''POST'', ''/aep/v1/admin/model-gateway/quotas/{userId}/delta''),
     (AdminRoute, ''GET'', ''/aep/v1/admin/model-gateway/limits/status''),
     (AdminRoute, ''POST'', ''/aep/v1/admin/model-gateway/limits/publish''),
     (AdminRoute, ''GET'', ''/aep/v1/admin/model-gateway/limits/{ruleId}''),
     (AdminRoute, ''PUT'', ''/aep/v1/admin/model-gateway/limits/{ruleId}''),
     (AdminRoute, ''DELETE'', ''/aep/v1/admin/model-gateway/limits/{ruleId}''),
     (AdminRoute, ''GET'', ''/aep/v1/admin/model-gateway/metrics''),
     (AdminRoute, ''GET'', ''/aep/v1/admin/model-gateway/health''),
     (AdminRoute, ''GET'', ''/aep/v1/admin/model-gateway/requests''),
     (AdminRoute, ''GET'', ''/aep/v1/admin/model-gateway/requests/{requestId}''),
     (AdminRoute, ''GET'', ''/aep/v1/admin/roles''),
     (AdminRoute, ''POST'', ''/aep/v1/admin/roles''),
     (AdminRoute, ''GET'', ''/aep/v1/admin/roles/{roleId}''),
     (AdminRoute, ''PATCH'', ''/aep/v1/admin/roles/{roleId}''),
     (AdminRoute, ''DELETE'', ''/aep/v1/admin/roles/{roleId}''),
     (AdminRoute, ''GET'', ''/aep/v1/admin/teams''),
     (AdminRoute, ''POST'', ''/aep/v1/admin/teams''),
     (AdminRoute, ''GET'', ''/aep/v1/admin/teams/{teamId}''),
     (AdminRoute, ''PATCH'', ''/aep/v1/admin/teams/{teamId}''),
     (AdminRoute, ''DELETE'', ''/aep/v1/admin/teams/{teamId}''),
     (AdminRoute, ''PUT'', ''/aep/v1/admin/users/{userId}/rbac''),
     (AdminRoute, ''GET'', ''/aep/v1/admin/users''),
     (AdminRoute, ''POST'', ''/aep/v1/admin/users''),
     (AdminRoute, ''POST'', ''/aep/v1/admin/users/import''),
     (AdminRoute, ''GET'', ''/aep/v1/admin/users/{userId}''),
     (AdminRoute, ''DELETE'', ''/aep/v1/admin/users/{userId}''),
     (AdminRoute, ''PATCH'', ''/aep/v1/admin/users/{userId}''),
     (AdminRoute, ''POST'', ''/aep/v1/admin/users/{userId}/reset-password''),
     (AdminRoute, ''GET'', ''/aep/v1/admin/skills''),
     (AdminRoute, ''POST'', ''/aep/v1/admin/skills''),
     (AdminRoute, ''GET'', ''/aep/v1/admin/skills/{skillId}''),
     (AdminRoute, ''PATCH'', ''/aep/v1/admin/skills/{skillId}''),
     (AdminRoute, ''DELETE'', ''/aep/v1/admin/skills/{skillId}''),
     (AdminRoute, ''POST'', ''/aep/v1/admin/skills/{skillId}/versions''),
     (AdminRoute, ''POST'', ''/aep/v1/admin/skills/{skillId}/versions/{version}/publish''),
     (AdminRoute, ''DELETE'', ''/aep/v1/admin/skills/{skillId}/versions/{version}''),
     (AdminRoute, ''GET'', ''/aep/v1/admin/skills/{skillId}/installations''),
     (AdminRoute, ''GET'', ''/aep/v1/admin/skill-assignments''),
     (AdminRoute, ''POST'', ''/aep/v1/admin/skill-assignments''),
     (AdminRoute, ''DELETE'', ''/aep/v1/admin/skill-assignments/{assignmentId}''),
     (AdminRoute, ''PATCH'', ''/aep/v1/admin/skill-assignments/{assignmentId}''),
     (AdminRoute, ''GET'', ''/aep/v1/admin/control-events''),
     (AdminRoute, ''POST'', ''/aep/v1/admin/control-events''),
     (AdminRoute, ''GET'', ''/aep/v1/admin/control-events/{eventId}''),
     (AdminRoute, ''POST'', ''/aep/v1/admin/control-events/{eventId}/cancel''),
     (AdminRoute, ''GET'', ''/aep/v1/admin/control-events/{eventId}/deliveries''),
     (AdminRoute, ''GET'', ''/aep/v1/admin/sessions''),
     (AdminRoute, ''POST'', ''/aep/v1/admin/sessions/{sessionId}/revoke''),
     (AdminRoute, ''GET'', ''/aep/v1/admin/licenses''),
     (AdminRoute, ''GET'', ''/aep/v1/admin/licenses/{licenseId}''),
     (AdminRoute, ''POST'', ''/aep/v1/admin/licenses/import''),
     (AdminRoute, ''POST'', ''/aep/v1/admin/licenses/{licenseId}/revoke''),
     (AdminRoute, ''GET'', ''/aep/v1/admin/events''),
     (AdminRoute, ''GET'', ''/aep/v1/admin/audit/authentication''),
     (AdminRoute, ''GET'', ''/aep/v1/admin/audit/operations''),
     (AdminRoute, ''GET'', ''/aep/v1/admin/models''),
     (AdminRoute, ''POST'', ''/aep/v1/admin/models''),
     (AdminRoute, ''GET'', ''/aep/v1/admin/models/{modelId}''),
     (AdminRoute, ''GET'', ''/aep/v1/admin/models/{modelId}/pricing''),
     (AdminRoute, ''PUT'', ''/aep/v1/admin/models/{modelId}/pricing''),
     (AdminRoute, ''PATCH'', ''/aep/v1/admin/models/{modelId}''),
     (AdminRoute, ''DELETE'', ''/aep/v1/admin/models/{modelId}''),
     (AdminRoute, ''GET'', ''/aep/v1/admin/model-assignments''),
     (AdminRoute, ''POST'', ''/aep/v1/admin/model-assignments''),
     (AdminRoute, ''DELETE'', ''/aep/v1/admin/model-assignments/{assignmentId}''),
     (AdminRoute, ''GET'', ''/aep/v1/admin/data-plane/desired-state''),
     (AdminRoute, ''PUT'', ''/aep/v1/admin/data-plane/desired-state''),
     (AdminRoute, ''POST'', ''/aep/v1/admin/data-plane/publish''),
     (AdminRoute, ''POST'', ''/aep/v1/admin/data-plane/publications''),
     (AdminRoute, ''GET'', ''/aep/v1/admin/data-plane/publications/{operationId}''),
     (AdminRoute, ''POST'', ''/aep/v1/admin/data-plane/publications/{operationId}/replay''),
     (AdminRoute, ''GET'', ''/aep/v1/admin/data-plane/status''),
     (AdminRoute, ''GET'', ''/aep/v1/admin/deployment/settings''),
     (AdminRoute, ''PUT'', ''/aep/v1/admin/deployment/settings''),
     (AdminRoute, ''GET'', ''/aep/v1/admin/compute/tiers''),
     (AdminRoute, ''GET'', ''/aep/v1/admin/compute/assignments''),
     (AdminRoute, ''PUT'', ''/aep/v1/admin/compute/assignments/{agentId}''),
     (AdminRoute, ''GET'', ''/aep/v1/admin/credentials''),
     (AdminRoute, ''POST'', ''/aep/v1/admin/credentials''),
     (AdminRoute, ''GET'', ''/aep/v1/admin/credentials/{credentialId}''),
     (AdminRoute, ''PATCH'', ''/aep/v1/admin/credentials/{credentialId}''),
     (AdminRoute, ''DELETE'', ''/aep/v1/admin/credentials/{credentialId}''),
     (AdminRoute, ''POST'', ''/aep/v1/admin/credentials/{credentialId}/rotate''),
     (AdminRoute, ''GET'', ''/aep/v1/admin/credential-assignments''),
     (AdminRoute, ''POST'', ''/aep/v1/admin/credential-assignments''),
     (AdminRoute, ''DELETE'', ''/aep/v1/admin/credential-assignments/{assignmentId}''),
     (AdminRoute, ''GET'', ''/aep/v1/admin/asset-types''),
     (AdminRoute, ''GET'', ''/aep/v1/admin/assets''),
     (AdminRoute, ''GET'', ''/aep/v1/admin/assets/runtime''),
     (AdminRoute, ''POST'', ''/aep/v1/admin/assets''),
     (AdminRoute, ''GET'', ''/aep/v1/admin/assets/{assetId}''),
     (AdminRoute, ''PATCH'', ''/aep/v1/admin/assets/{assetId}''),
     (AdminRoute, ''DELETE'', ''/aep/v1/admin/assets/{assetId}''),
     (AdminRoute, ''GET'', ''/aep/v1/admin/assets/{assetId}/bindings''),
     (AdminRoute, ''POST'', ''/aep/v1/admin/assets/{assetId}/bindings''),
     (AdminRoute, ''DELETE'', ''/aep/v1/admin/assets/{assetId}/bindings/{bindingId}''),
     (AdminRoute, ''POST'', ''/aep/v1/admin/assets/{assetId}/detect''),
     (AdminRoute, ''POST'', ''/aep/v1/admin/assets/{assetId}/execute''),
     (AdminRoute, ''GET'', ''/aep/v1/admin/agents''),
     (AdminRoute, ''POST'', ''/aep/v1/admin/agents''),
     (AdminRoute, ''DELETE'', ''/aep/v1/admin/agents/{agentId}''),
     (AdminRoute, ''PUT'', ''/aep/v1/admin/agents/{agentId}/profile''),
     (AdminRoute, ''GET'', ''/aep/v1/admin/identity-sources''),
     (AdminRoute, ''POST'', ''/aep/v1/admin/identity-sources''),
     (AdminRoute, ''GET'', ''/aep/v1/admin/identity-sources/{sourceId}/mappings''),
     (AdminRoute, ''PUT'', ''/aep/v1/admin/identity-sources/{sourceId}/mappings''),
     (AdminRoute, ''DELETE'', ''/aep/v1/admin/identity-sources/{sourceId}/mappings/{subjectType}/{externalId}''),
     (AdminRoute, ''GET'', ''/aep/v1/admin/data-scope-rules''),
     (AdminRoute, ''POST'', ''/aep/v1/admin/data-scope-rules''),
     (AdminRoute, ''GET'', ''/aep/v1/admin/data-scope-rules/{ruleId}''),
     (AdminRoute, ''DELETE'', ''/aep/v1/admin/data-scope-rules/{ruleId}''),
     (AdminRoute, ''GET'', ''/aep/v1/admin/data-scope/context'')]"

definition New :: "route list" where
  "New = mountCommon @ mountAuth @ mountAgentUser @ mountInternal @ mountAdmin"

definition NewEnterpriseAPI :: "route list" where
  "NewEnterpriseAPI = mountCommon @ mountAuth @ mountInternal @ mountAdmin"

definition NewAgentControlAPI :: "route list" where
  "NewAgentControlAPI = mountCommon @ mountAuth @ mountAgentUser"

text \<open>The path of a route for given parameter values.\<close>

function path_of :: "(string \<Rightarrow> string) \<Rightarrow> string \<Rightarrow> string" where
  "path_of arg [] = []"
| "path_of arg (c # s) =
     (if c = CHR ''{'' then arg (takeWhile (\<lambda>x. x \<noteq> CHR ''}'') s) @ path_of arg (drop 1 (dropWhile (\<lambda>x. x \<noteq> CHR ''}'') s))
      else c # path_of arg s)"
  by pat_completeness auto
termination
  by (relation "measure (length \<circ> snd)") (auto simp: le_imp_less_Suc length_dropWhile_le le_diff_conv le_SucI)

section \<open>Permissions of the management API\<close>

definition requiredAdminPermission :: "string \<Rightarrow> string \<Rightarrow> string list" where
  "requiredAdminPermission method path =
     (if has_prefix path ''/aep/v1/admin/model-gateway'' then
        (if has_suffix path ''/test-access'' then [''models.read''] else if has_suffix path ''/model-gateway/tokens'' then [''models.read''] else if str_contains path ''/requests'' then [''events.read''] else if method = ''GET'' then [''models.read''] else [''data_plane.write''])
      else if has_prefix path ''/aep/v1/admin/permissions'' \<or> has_prefix path ''/aep/v1/admin/roles'' then
        (if method = ''GET'' then [''roles.read''] else [''roles.write''])
      else if has_prefix path ''/aep/v1/admin/teams'' then
        (if method = ''GET'' then [''teams.read''] else [''teams.write''])
      else if has_suffix path ''/rbac'' then
        ([''users.write''])
      else if has_prefix path ''/aep/v1/admin/users'' then
        (if method = ''GET'' then [''users.read''] else [''users.write''])
      else if has_prefix path ''/aep/v1/admin/sessions'' then
        (if has_suffix path ''/revoke'' then [''sessions.write''] else [''users.read''])
      else if has_prefix path ''/aep/v1/admin/models'' then
        (if method = ''GET'' then [''models.read''] else [''models.write''])
      else if has_prefix path ''/aep/v1/admin/skills'' then
        (if method = ''GET'' then [''skills.read''] else [''skills.write''])
      else if has_prefix path ''/aep/v1/admin/credentials'' then
        (if method = ''GET'' then [''credentials.read''] else [''credentials.write''])
      else if has_prefix path ''/aep/v1/admin/asset-types'' \<or> has_prefix path ''/aep/v1/admin/assets'' then
        (if method = ''GET'' then [''assets.read''] else [''assets.write''])
      else if has_prefix path ''/aep/v1/admin/skill-assignments'' then
        (if method = ''GET'' then [''skills.read''] else [''skills.assign''])
      else if has_prefix path ''/aep/v1/admin/model-assignments'' then
        (if method = ''GET'' then [''models.read''] else [''models.assign''])
      else if has_prefix path ''/aep/v1/admin/credential-assignments'' then
        (if method = ''GET'' then [''credentials.read''] else [''credentials.assign''])
      else if has_prefix path ''/aep/v1/admin/licenses'' then
        (if has_suffix path ''/revoke'' then [''licenses.revoke''] else if method \<noteq> ''GET'' then [''licenses.write''] else [''licenses.read''])
      else if has_prefix path ''/aep/v1/admin/audit'' then
        ([''audit.read''])
      else if has_prefix path ''/aep/v1/admin/events'' \<or> has_prefix path ''/aep/v1/admin/control-events'' then
        (if method = ''GET'' then [''events.read''] else [''events.write''])
      else if has_prefix path ''/aep/v1/admin/data-plane'' then
        ([''data_plane.write''])
      else if has_prefix path ''/aep/v1/admin/deployment'' then
        (if method = ''GET'' then [''deployment.read''] else [''deployment.write''])
      else if has_prefix path ''/aep/v1/admin/compute'' then
        (if method = ''GET'' then [''deployment.read''] else [''agents.compute.write''])
      else if has_prefix path ''/aep/v1/admin/agents'' then
        (if method = ''GET'' then [''users.read''] else [''agents.write'', ''users.write''])
      else if has_prefix path ''/aep/v1/admin/identity-sources'' then
        (if method = ''GET'' then [''identity.read''] else [''identity.write''])
      else if has_prefix path ''/aep/v1/admin/data-scope'' then
        (if method = ''GET'' then [''data_scope.read''] else [''data_scope.write''])
      else [])"

section \<open>Middlewares\<close>

record api_request =
  ar_Method :: string
  ar_Path :: string
  ar_Header :: header

text \<open>A refusal is a status and a problem code.\<close>

type_synonym problem = "int \<times> string"

definition protocolVersion :: "api_request \<Rightarrow> problem option" where
  "protocolVersion req =
     (if ar_Path req = ''/aep/v1/metadata'' \<or> \<not> has_prefix (ar_Path req) ''/aep/v1/'' then None
      else if hget (ar_Header req) ''X-AEP-Protocol-Version'' \<noteq> ''1.0'' then Some (426, ''PROTOCOL_VERSION_UNSUPPORTED'')
      else None)"

record AccessSessionState =
  as_Admin :: bool
  as_PasswordChangeRequired :: bool

datatype session_error = ErrAccessSessionInvalid | ErrDatabase

definition ValidateAccessSession ::
  "bool \<Rightarrow> directory \<Rightarrow> (string \<rightharpoonup> session_row) \<Rightarrow> string \<Rightarrow> string \<Rightarrow> string \<Rightarrow> session_error + AccessSessionState" where
  "ValidateAccessSession ok d sessions deploymentID userID sessionID =
     (if deploymentID = [] \<or> userID = [] \<or> sessionID = [] then Inl ErrAccessSessionInvalid
      else if \<not> ok then Inl ErrDatabase
      else case find (\<lambda>u. u_DeploymentID u = deploymentID \<and> u_ID u = userID) (d_users d) of
        None \<Rightarrow> Inl ErrAccessSessionInvalid
      | Some u \<Rightarrow>
         (let sessionActive = (case sessions sessionID of None \<Rightarrow> False
                | Some s \<Rightarrow> s_DeploymentID s = u_DeploymentID u \<and> s_UserID s = u_ID u \<and> s_RevokedAt s = None) in
          if u_Status u \<noteq> ''active'' \<or> \<not> sessionActive then Inl ErrAccessSessionInvalid
          else Inr \<lparr> as_Admin = u_IsAdmin u, as_PasswordChangeRequired = u_RequirePasswordChange u \<rparr>))"

definition passwordChangeRouteAllowed :: "api_request \<Rightarrow> bool" where
  "passwordChangeRouteAllowed req =
     (if ar_Method req = ''POST'' \<and> (ar_Path req = ''/aep/v1/auth/password/change'' \<or> ar_Path req = ''/aep/v1/auth/logout'') then True
      else ar_Method req = ''GET'' \<and> ar_Path req = ''/aep/v1/user/me'')"

text \<open>What a middleware sees: the token service, the clock, the database and its availability.\<close>

record api_env =
  api_lib :: jwt_lib
  api_service :: Service
  api_now :: time
  api_directory :: directory
  api_sessions :: "string \<rightharpoonup> session_row"
  api_ok :: "string \<Rightarrow> bool"
  api_reconciler_token :: string
  api_uses_operator :: bool

definition authenticate :: "api_env \<Rightarrow> api_request \<Rightarrow> problem + Claims" where
  "authenticate env req =
     (let hdr = hget (ar_Header req) ''Authorization'' in
      if \<not> has_prefix hdr ''Bearer '' then Inl (401, ''TOKEN_INVALID'')
      else case ParseAccess (api_lib env) (api_service env) (api_now env) (drop 7 hdr) of
        None \<Rightarrow> Inl (401, ''TOKEN_INVALID'')
      | Some claims \<Rightarrow>
          if tc_SessionID claims = [] then Inl (401, ''SESSION_REQUIRED'')
          else case ValidateAccessSession (api_ok env ''session'') (api_directory env) (api_sessions env)
                      (tc_DeploymentID claims) (tc_Subject claims) (tc_SessionID claims) of
            Inl ErrAccessSessionInvalid \<Rightarrow> Inl (401, ''SESSION_REVOKED'')
          | Inl ErrDatabase \<Rightarrow> Inl (500, ''INTERNAL_ERROR'')
          | Inr state \<Rightarrow>
              if as_PasswordChangeRequired state \<and> \<not> passwordChangeRouteAllowed req then Inl (403, ''PASSWORD_CHANGE_REQUIRED'')
              else Inr (claims \<lparr> tc_Admin := as_Admin state, tc_PasswordChangeRequired := as_PasswordChangeRequired state \<rparr>))"

definition userHasPermission :: "api_env \<Rightarrow> Claims \<Rightarrow> string \<Rightarrow> bool option" where
  "userHasPermission env claims permission =
     (if \<not> api_ok env permission then None
      else Some (user_has_permission (api_directory env) (tc_DeploymentID claims) (tc_Subject claims) permission))"

fun permission_loop :: "api_env \<Rightarrow> Claims \<Rightarrow> string list \<Rightarrow> problem option" where
  "permission_loop env claims [] = Some (403, ''ACCESS_DENIED'')"
| "permission_loop env claims (p # ps) =
     (case userHasPermission env claims p of
        None \<Rightarrow> Some (500, ''INTERNAL_ERROR'')
      | Some permitted \<Rightarrow> if permitted then None else permission_loop env claims ps)"

definition requireAdmin :: "api_env \<Rightarrow> Claims \<Rightarrow> api_request \<Rightarrow> problem option" where
  "requireAdmin env claims req =
     (if tc_Admin claims then None
      else
       (let permissions = requiredAdminPermission (ar_Method req) (ar_Path req) in
        if length permissions = 0 then Some (403, ''ACCESS_DENIED'')
        else permission_loop env claims permissions))"

text \<open>The secret and deployment headers of the data plane's own endpoints.\<close>

definition internalDataPlane :: "api_env \<Rightarrow> api_request \<Rightarrow> problem + Claims" where
  "internalDataPlane env req =
     (if api_reconciler_token env = [] \<or> hget (ar_Header req) ''X-AEP-Data-Plane-Token'' \<noteq> api_reconciler_token env
      then Inl (401, ''INTERNAL_AUTH_REQUIRED'')
      else
       (let deploymentID = trim_space (hget (ar_Header req) ''X-AEP-Deployment-ID'') in
        if deploymentID = [] \<or> length deploymentID > 200 then Inl (400, ''DEPLOYMENT_REQUIRED'')
        else if api_uses_operator env then Inl (503, ''LEGACY_GATEWAY_PUBLICATION_DISABLED'')
        else Inr \<lparr> tc_DeploymentID = deploymentID, tc_SessionID = [], tc_LicenseID = [], tc_LicenseDigest = [], tc_Features = [], tc_Admin = False,
               tc_Roles = [], tc_ModelScopes = [], tc_PasswordChangeRequired = False, tc_TokenUse = [], tc_Issuer = [], tc_Subject = [],
               tc_Audience = [], tc_ExpiresAt = 0, tc_IssuedAt = 0, tc_ID = [] \<rparr>))"

text \<open>The chain of middlewares before a handler, by the level of its route; \<^const>\<open>Inr\<close> carries the
  claims the handler reads (none on public routes).\<close>

definition admit :: "api_env \<Rightarrow> access_level \<Rightarrow> api_request \<Rightarrow> problem + Claims option" where
  "admit env level req =
     (case protocolVersion req of
        Some p \<Rightarrow> Inl p
      | None \<Rightarrow>
         (case level of
            Public \<Rightarrow> Inr None
          | ServiceRoute \<Rightarrow> (case internalDataPlane env req of Inl p \<Rightarrow> Inl p | Inr c \<Rightarrow> Inr (Some c))
          | SessionRoute \<Rightarrow> (case authenticate env req of Inl p \<Rightarrow> Inl p | Inr c \<Rightarrow> Inr (Some c))
          | AdminRoute \<Rightarrow>
             (case authenticate env req of
                Inl p \<Rightarrow> Inl p
              | Inr c \<Rightarrow> (case requireAdmin env c req of Some p \<Rightarrow> Inl p | None \<Rightarrow> Inr (Some c)))))"

section \<open>Paging\<close>

text \<open>\<open>parsed\<close> is the query parameter read as a 64-bit integer, if it is one.\<close>

definition limit :: "int option \<Rightarrow> int" where
  "limit parsed =
     (case parsed of
        None \<Rightarrow> 50
      | Some n \<Rightarrow> (let p = (if n > 200 then 200 else n) in if p > 0 then p else 50))"

section \<open>Which permission a route asks for\<close>

text \<open>What the suffix tests say of a path whose last segment is a parameter.\<close>

lemma param_suffixes:
  assumes "CHR ''/'' \<notin> set a"
  shows "has_prefix (rev a @ CHR ''/'' # r) ''ssecca-tset/'' \<longleftrightarrow> a = ''test-access''"
    "has_prefix (rev a @ CHR ''/'' # r) ''snekot/yawetag-ledom/'' \<longleftrightarrow> a = ''tokens'' \<and> has_prefix r ''yawetag-ledom/''"
    "has_prefix (rev a @ CHR ''/'' # r) ''ekover/'' \<longleftrightarrow> a = ''revoke''"
    "has_prefix (rev a @ CHR ''/'' # r) ''cabr/'' \<longleftrightarrow> a = ''rbac''"
  using assms has_prefix_sep [of "CHR ''/''" "rev a" "rev ''test-access''" r "[]"]
    has_prefix_sep [of "CHR ''/''" "rev a" "rev ''tokens''" r "''yawetag-ledom/''"]
    has_prefix_sep [of "CHR ''/''" "rev a" "rev ''revoke''" r "[]"]
    has_prefix_sep [of "CHR ''/''" "rev a" "rev ''rbac''" r "[]"]
  by (simp_all add: has_prefix_Nil rev_swap)

lemma str_contains_none: "c \<notin> set y \<Longrightarrow> \<not> str_contains y (c # p)"
  using str_contains_skip [of c y "[]" p] by (simp add: has_prefix_Nil_Cons)

lemmas path_simps = has_prefix_Nil has_prefix_Nil_Cons has_prefix_Cons has_suffix_def has_prefix_until str_contains_skip str_contains_none

text \<open>Parameter values that the tests on the whole path do not mistake for a part of the route.\<close>

definition tame_args :: "(string \<Rightarrow> string) \<Rightarrow> bool" where
  "tame_args arg \<longleftrightarrow> (\<forall>n. CHR ''/'' \<notin> set (arg n) \<and> \<not> has_prefix (arg n) ''requests'' \<and> arg n \<noteq> ''test-access'')"

text \<open>The two issuing routes whose scopes derive from the target's own assignments.\<close>

definition derived_scope_routes :: "string list" where
  "derived_scope_routes = [''/aep/v1/admin/model-gateway/tokens'', ''/aep/v1/admin/model-gateway/models/{modelId}/test-access'']"

definition read_only :: "string \<Rightarrow> bool" where
  "read_only permission = has_suffix permission ''.read''"


text \<open>Outside three areas, a request that is not a read never asks for a read permission only.\<close>

lemma write_permission_generic:
  assumes "method \<noteq> ''GET''" "\<not> has_prefix path ''/aep/v1/admin/model-gateway''" "\<not> has_prefix path ''/aep/v1/admin/sessions''"
    "\<not> has_prefix path ''/aep/v1/admin/audit''"
  shows "list_all (\<lambda>p. \<not> read_only p) (requiredAdminPermission method path)"
  using assms unfolding requiredAdminPermission_def
  by (simp add: read_only_def path_simps del: str_contains.simps)


lemma if_list_empty: "(if b then x # xs else y) = [] \<longleftrightarrow> \<not> b \<and> y = []" "(if b then (if c then x # xs else z # zs) else y) = [] \<longleftrightarrow> \<not> b \<and> y = []"
  "(if b then (if c then x # xs else if e then w # ws else z # zs) else y) = [] \<longleftrightarrow> \<not> b \<and> y = []"
  "(if b then (if c then x # xs else if e then w # ws else if f then v # vs else if g then u # us else z # zs) else y) = [] \<longleftrightarrow> \<not> b \<and> y = []"
  by auto

definition admin_areas :: "string list" where
  "admin_areas = map (\<lambda>r. ''/aep/v1/admin/'' @ r)
    [''model-gateway'', ''permissions'', ''roles'', ''teams'', ''users'', ''sessions'', ''models'', ''skills'', ''credentials'',
     ''asset-types'', ''assets'', ''skill-assignments'', ''model-assignments'', ''credential-assignments'', ''licenses'', ''audit'',
     ''events'', ''control-events'', ''data-plane'', ''deployment'', ''compute'', ''agents'', ''identity-sources'', ''data-scope'']"

lemma required_empty: "requiredAdminPermission method path = [] \<longleftrightarrow> \<not> list_ex (has_prefix path) admin_areas \<and> \<not> has_suffix path ''/rbac''"
  unfolding requiredAdminPermission_def if_list_empty admin_areas_def
  by (simp only: list.map list_ex_Nil_iff list_ex_Cons_iff append.simps de_Morgan_disj simp_thms conj_assoc) (simp only: conj_ac)


definition literal :: "string \<Rightarrow> string" where
  "literal pat = takeWhile (\<lambda>c. c \<noteq> CHR ''{'') pat"

lemma path_of_literal: "\<exists>r. path_of arg pat = literal pat @ r"
  by (induction arg pat rule: path_of.induct) (auto simp: literal_def)

lemma path_of_prefix: "has_prefix (literal pat) p \<Longrightarrow> has_prefix (path_of arg pat) p"
  using path_of_literal [of arg pat] by (auto simp: has_prefix_iff)

definition mismatch :: "string \<Rightarrow> string \<Rightarrow> bool" where
  "mismatch a p \<longleftrightarrow> take (length p) a \<noteq> take (length a) p"

lemma path_of_mismatch: "mismatch (literal pat) p \<Longrightarrow> \<not> has_prefix (path_of arg pat) p"
  using path_of_literal [of arg pat]
  by (auto simp: mismatch_def has_prefix_def) (metis append_eq_append_conv_if append_take_drop_id take_append min.commute length_take take_take)

lemma admin_route_areas: "list_all (\<lambda>(l, m, pat). l = AdminRoute \<and> list_ex (has_prefix (literal pat)) admin_areas) mountAdmin"
  by code_simp

text \<open>The routes that change something and lie in one of the three areas.\<close>

definition delicate_writes :: "(string \<times> string) list" where
  "delicate_writes = [(''POST'', ''/aep/v1/admin/model-gateway/quotas/{userId}/refresh''), (''POST'', ''/aep/v1/admin/model-gateway/quotas/{userId}/delta''),
     (''POST'', ''/aep/v1/admin/model-gateway/limits/publish''), (''PUT'', ''/aep/v1/admin/model-gateway/limits/{ruleId}''),
     (''DELETE'', ''/aep/v1/admin/model-gateway/limits/{ruleId}''), (''POST'', ''/aep/v1/admin/sessions/{sessionId}/revoke'')]"

lemma delicate_write_permissions:
  assumes "tame_args arg"
  shows "\<forall>(m, pat) \<in> set delicate_writes. list_all (\<lambda>p. \<not> read_only p) (requiredAdminPermission m (path_of arg pat))"
  using assms unfolding tame_args_def delicate_writes_def
  by (simp add: requiredAdminPermission_def path_simps param_suffixes read_only_def)

definition plain_write :: "string \<Rightarrow> bool" where
  "plain_write pat \<longleftrightarrow> (let lit = literal pat in mismatch lit ''/aep/v1/admin/model-gateway''
     \<and> mismatch lit ''/aep/v1/admin/sessions'' \<and> mismatch lit ''/aep/v1/admin/audit'')"

lemma write_routes:
  "list_all (\<lambda>(l, m, pat). m = ''GET'' \<or> pat \<in> set derived_scope_routes \<or> (m, pat) \<in> set delicate_writes \<or> plain_write pat) mountAdmin"
  by code_simp

lemma plain_write_permissions:
  assumes "method \<noteq> ''GET''" "plain_write pat"
  shows "list_all (\<lambda>p. \<not> read_only p) (requiredAdminPermission method (path_of arg pat))"
  using assms by (intro write_permission_generic path_of_mismatch) (simp_all add: plain_write_def Let_def)

section \<open>Admission\<close>

text \<open>The authorization rule: an enabled role that grants the permission, held directly or as the default
  role of an enabled team.\<close>

definition holds_role :: "directory \<Rightarrow> string \<Rightarrow> string \<Rightarrow> string \<Rightarrow> bool" where
  "holds_role d dep user role \<longleftrightarrow> enabled_role d dep role
     \<and> ((dep, user, role) \<in> set (d_user_role_bindings d)
       \<or> (\<exists>team. (dep, user, team) \<in> set (d_user_team_bindings d) \<and> enabled_team d dep team
             \<and> (dep, team, role) \<in> set (d_team_default_roles d)))"

lemma effective_roles_iff: "(dep, user, role) \<in> set (user_effective_roles d) \<longleftrightarrow> holds_role d dep user role"
  by (auto simp: user_effective_roles_def holds_role_def)

lemma has_permission_iff:
  "user_has_permission d dep user p \<longleftrightarrow> (\<exists>role. holds_role d dep user role \<and> (dep, role, p) \<in> set (d_role_permissions d))"
proof -
  have "user_has_permission d dep user p \<longleftrightarrow> (\<exists>role. (dep, user, role) \<in> set (user_effective_roles d) \<and> enabled_role d dep role
      \<and> (dep, role, p) \<in> set (d_role_permissions d))"
    unfolding user_has_permission_def list_ex_iff by fast
  then show ?thesis unfolding effective_roles_iff by (auto simp: holds_role_def)
qed


lemma permission_loop_granted:
  "permission_loop env c ps = None \<Longrightarrow>
     \<exists>p \<in> set ps. user_has_permission (api_directory env) (tc_DeploymentID c) (tc_Subject c) p"
  by (induction ps) (auto simp: userHasPermission_def split: option.splits if_splits)

lemma bearer_length: "length ''Bearer '' = 7" by simp

lemma authenticate_sound:
  assumes "authenticate env req = Inr c"
  obtains raw tok u s where "hget (ar_Header req) ''Authorization'' = ''Bearer '' @ raw"
    "ParseAccess (api_lib env) (api_service env) (api_now env) raw = Some tok"
    "c = tok \<lparr> tc_Admin := u_IsAdmin u, tc_PasswordChangeRequired := u_RequirePasswordChange u \<rparr>"
    "u \<in> set (d_users (api_directory env))" "u_DeploymentID u = tc_DeploymentID tok" "u_ID u = tc_Subject tok" "u_Status u = ''active''"
    "api_sessions env (tc_SessionID tok) = Some s" "s_DeploymentID s = tc_DeploymentID tok" "s_UserID s = tc_Subject tok" "s_RevokedAt s = None"
    "u_RequirePasswordChange u \<longrightarrow> passwordChangeRouteAllowed req"
proof -
  let ?h = "hget (ar_Header req) ''Authorization''"
  have pre: "has_prefix ?h ''Bearer ''" using assms by (auto simp: authenticate_def Let_def split: if_splits)
  then have raw: "?h = ''Bearer '' @ drop 7 ?h" by (metis has_prefix_iff append_eq_conv_conj bearer_length)
  obtain tok st where tok: "ParseAccess (api_lib env) (api_service env) (api_now env) (drop 7 ?h) = Some tok"
    and st: "ValidateAccessSession (api_ok env ''session'') (api_directory env) (api_sessions env) (tc_DeploymentID tok) (tc_Subject tok) (tc_SessionID tok) = Inr st"
    and c: "c = tok \<lparr> tc_Admin := as_Admin st, tc_PasswordChangeRequired := as_PasswordChangeRequired st \<rparr>"
    and pc: "as_PasswordChangeRequired st \<longrightarrow> passwordChangeRouteAllowed req"
    using assms by (auto simp: authenticate_def Let_def split: if_splits option.splits sum.splits session_error.splits)
  obtain u s where "find (\<lambda>u. u_DeploymentID u = tc_DeploymentID tok \<and> u_ID u = tc_Subject tok) (d_users (api_directory env)) = Some u"
    "u_Status u = ''active''" "api_sessions env (tc_SessionID tok) = Some s" "s_DeploymentID s = u_DeploymentID u" "s_UserID s = u_ID u" "s_RevokedAt s = None"
    "st = \<lparr> as_Admin = u_IsAdmin u, as_PasswordChangeRequired = u_RequirePasswordChange u \<rparr>"
    using st by (auto simp: ValidateAccessSession_def Let_def split: if_splits option.splits)
  moreover from this(1) have "u \<in> set (d_users (api_directory env))" "u_DeploymentID u = tc_DeploymentID tok" "u_ID u = tc_Subject tok"
    by (auto simp: find_Some_iff)
  ultimately show thesis using that [OF raw tok, of u s] c pc by simp
qed

lemma admin_path_not_password_route:
  assumes "(l, ar_Method req, pat) \<in> set mountAdmin" "ar_Path req = path_of arg pat"
  shows "\<not> passwordChangeRouteAllowed req"
proof -
  have "list_ex (has_prefix (literal pat)) admin_areas" using admin_route_areas assms(1) by (auto simp: list_all_iff)
  then obtain a where a: "a \<in> set admin_areas" "has_prefix (ar_Path req) a" using path_of_prefix assms(2) by (auto simp: list_ex_iff)
  then have "has_prefix (ar_Path req) ''/aep/v1/admin/''"
    unfolding admin_areas_def by (auto simp only: has_prefix_iff set_map append.assoc)
  then show ?thesis by (auto simp: passwordChangeRouteAllowed_def has_prefix_def)
qed

section \<open>A concrete deployment\<close>

text \<open>One user, \<^verbatim>\<open>bob\<close>, whose team gives him a role with a single permission.\<close>

definition demo_user :: user_row where
  "demo_user = \<lparr> u_DeploymentID = ''acme'', u_ID = ''bob'', u_Username = ''bob'', u_PasswordHash = [], u_Status = ''active'',
     u_RequirePasswordChange = False, u_IsAdmin = False, u_Kind = ''human'',
     u_DisplayName = [], u_Email = None \<rparr>"

definition demo_directory :: "string \<Rightarrow> directory" where
  "demo_directory permission = \<lparr> d_users = [demo_user],
     d_roles = [\<lparr> role_DeploymentID = ''acme'', role_ID = ''viewer'', role_Enabled = True,
       role_Name = ''Viewer'', role_Description = [], role_BuiltIn = False \<rparr>],
     d_teams = [\<lparr> team_DeploymentID = ''acme'', team_ID = ''ops'', team_ParentTeamID = None, team_Enabled = True,
       team_Name = ''Ops'', team_Description = [], team_BuiltIn = False, team_Path = ''/ops'', team_Depth = 0 \<rparr>],
     d_user_role_bindings = [], d_user_team_bindings = [(''acme'', ''bob'', ''ops'')], d_team_default_roles = [(''acme'', ''ops'', ''viewer'')],
     d_role_permissions = [(''acme'', ''viewer'', permission)],
     d_models = [\<lparr> m_DeploymentID = ''acme'', m_ID = ''m1'', m_Enabled = True \<rparr>, \<lparr> m_DeploymentID = ''acme'', m_ID = ''m2'', m_Enabled = True \<rparr>],
     d_model_assignments = [\<lparr> ma_DeploymentID = ''acme'', ma_ModelID = ''m1'', ma_SubjectType = ''role'', ma_SubjectID = ''viewer'', ma_ExpiresAt = None \<rparr>] \<rparr>"

definition demo_session :: session_row where
  "demo_session = \<lparr> s_DeploymentID = ''acme'', s_UserID = ''bob'', s_Topic = [], s_Client = \<lparr> sc_Name = None, sc_Version = None, sc_DeviceID = None \<rparr>, s_LastSeenAt = 0, s_RevokedAt = None \<rparr>"

definition demo_api :: "string \<Rightarrow> api_env" where
  "demo_api permission = \<lparr> api_lib = demo_jwt demo_table, api_service = demo_service, api_now = 0, api_directory = demo_directory permission,
     api_sessions = [''s1'' \<mapsto> demo_session], api_ok = (\<lambda>_. True), api_reconciler_token = [], api_uses_operator = False \<rparr>"

definition demo_call :: "string \<Rightarrow> string \<Rightarrow> api_request" where
  "demo_call method path = \<lparr> ar_Method = method, ar_Path = path,
     ar_Header = [''Authorization'' \<mapsto> [''Bearer A''], ''X-Aep-Protocol-Version'' \<mapsto> [''1.0'']] \<rparr>"

lemma canonical_version: "canonical ''X-AEP-Protocol-Version'' = ''X-Aep-Protocol-Version''"
  by (simp add: canonical_def token_byte_def is_alnum_def is_lower_def is_upper_def is_digit_def byte_def)

lemma demo_call_fields: "ar_Method (demo_call method path) = method" "ar_Path (demo_call method path) = path"
  by (simp_all add: demo_call_def)

lemma demo_authenticate:
  "authenticate (demo_api permission) (demo_call method path) = Inr ((demo_token ''aep'' ''aep-control'' True) \<lparr> tc_Admin := False \<rparr>)"
proof -
  have "ParseAccess (demo_jwt demo_table) demo_service 0 ''A'' = Some (demo_token ''aep'' ''aep-control'' True)"
    by (simp add: ParseAccess_def parse_def demo_jwt_def demo_table_def demo_token_def demo_service_def)
  then show ?thesis
    by (simp add: authenticate_def demo_api_def demo_call_def hget_def canonical_names has_prefix_def ValidateAccessSession_def
        demo_directory_def demo_user_def demo_session_def demo_token_def)
qed

lemma demo_permission: "user_has_permission (demo_directory permission) ''acme'' ''bob'' q \<longleftrightarrow> q = permission"
  by (auto simp: has_permission_iff holds_role_def demo_directory_def enabled_role_def enabled_team_def)

lemma demo_admit:
  "admit (demo_api permission) AdminRoute (demo_call method path) =
     (if permission \<in> set (requiredAdminPermission method path)
      then Inr (Some ((demo_token ''aep'' ''aep-control'' True) \<lparr> tc_Admin := False \<rparr>)) else Inl (403, ''ACCESS_DENIED''))"
proof -
  have loop: "permission_loop (demo_api permission) ((demo_token ''aep'' ''aep-control'' True) \<lparr> tc_Admin := False \<rparr>) ps =
      (if permission \<in> set ps then None else Some (403, ''ACCESS_DENIED''))" for ps
    by (induction ps) (auto simp: userHasPermission_def demo_permission demo_api_def demo_token_def)
  have "protocolVersion (demo_call method path) = None"
    by (simp add: protocolVersion_def demo_call_def hget_def canonical_version)
  then show ?thesis
    by (auto simp: admit_def demo_authenticate requireAdmin_def loop Let_def demo_call_fields)
qed

section \<open>Properties\<close>

text \<open>
  \<^bold>\<open>Only the authorized reach the management API (C6).\<close> A request on a management route gets past the
  middlewares only with a bearer access token that parses, whose user exists and is active and need not
  change the password, and whose session is that user's and not revoked. The user is an administrator
  according to the database, whatever the token says, or holds, directly or through an enabled team, an
  enabled role with one of the permissions the route asks for.
\<close>

theorem admin_request_authorized:
  assumes route: "(l, ar_Method req, pat) \<in> set mountAdmin" "ar_Path req = path_of arg pat"
    and adm: "admit env AdminRoute req = Inr c"
  shows "\<exists>claims raw tok u s. c = Some claims \<and> hget (ar_Header req) ''Authorization'' = ''Bearer '' @ raw
    \<and> ParseAccess (api_lib env) (api_service env) (api_now env) raw = Some tok
    \<and> tc_Subject claims = tc_Subject tok \<and> tc_DeploymentID claims = tc_DeploymentID tok
    \<and> u \<in> set (d_users (api_directory env)) \<and> u_DeploymentID u = tc_DeploymentID tok \<and> u_ID u = tc_Subject tok
    \<and> u_Status u = ''active'' \<and> \<not> u_RequirePasswordChange u
    \<and> api_sessions env (tc_SessionID tok) = Some s \<and> s_UserID s = u_ID u \<and> s_DeploymentID s = u_DeploymentID u \<and> s_RevokedAt s = None
    \<and> (u_IsAdmin u \<or> (\<exists>p \<in> set (requiredAdminPermission (ar_Method req) (ar_Path req)). \<exists>role.
         holds_role (api_directory env) (u_DeploymentID u) (u_ID u) role
         \<and> (u_DeploymentID u, role, p) \<in> set (d_role_permissions (api_directory env))))"
proof -
  obtain claims where c: "c = Some claims" and au: "authenticate env req = Inr claims" and ra: "requireAdmin env claims req = None"
    using adm by (auto simp: admit_def split: option.splits sum.splits)
  obtain raw tok u s where a: "hget (ar_Header req) ''Authorization'' = ''Bearer '' @ raw"
    "ParseAccess (api_lib env) (api_service env) (api_now env) raw = Some tok"
    "claims = tok \<lparr> tc_Admin := u_IsAdmin u, tc_PasswordChangeRequired := u_RequirePasswordChange u \<rparr>"
    "u \<in> set (d_users (api_directory env))" "u_DeploymentID u = tc_DeploymentID tok" "u_ID u = tc_Subject tok" "u_Status u = ''active''"
    "api_sessions env (tc_SessionID tok) = Some s" "s_DeploymentID s = tc_DeploymentID tok" "s_UserID s = tc_Subject tok" "s_RevokedAt s = None"
    "u_RequirePasswordChange u \<longrightarrow> passwordChangeRouteAllowed req"
    using au by (rule authenticate_sound)
  have "u_IsAdmin u \<or> (\<exists>p \<in> set (requiredAdminPermission (ar_Method req) (ar_Path req)).
      user_has_permission (api_directory env) (tc_DeploymentID tok) (tc_Subject tok) p)"
    using ra a(3) permission_loop_granted [of env claims "requiredAdminPermission (ar_Method req) (ar_Path req)"]
    by (auto simp: requireAdmin_def Let_def split: if_splits)
  then show ?thesis
    using a c admin_path_not_password_route [OF route] unfolding has_permission_iff by fastforce
qed

theorem admin_request_authorized_witness:
  "\<exists>u. u \<in> set (d_users (demo_directory ''roles.read'')) \<and> \<not> u_IsAdmin u
     \<and> (\<exists>c. admit (demo_api ''roles.read'') AdminRoute (demo_call ''GET'' ''/aep/v1/admin/roles'') = Inr (Some c) \<and> tc_Subject c = u_ID u)"
proof -
  have r: "(AdminRoute, ar_Method (demo_call ''GET'' ''/aep/v1/admin/roles''), ''/aep/v1/admin/roles'') \<in> set mountAdmin"
    by (simp add: mountAdmin_def demo_call_def)
  have p: "ar_Path (demo_call ''GET'' ''/aep/v1/admin/roles'') = path_of (\<lambda>_. []) ''/aep/v1/admin/roles''" by (simp add: demo_call_def)
  have "requiredAdminPermission ''GET'' ''/aep/v1/admin/roles'' = [''roles.read'']"
    by (simp add: requiredAdminPermission_def path_simps)
  then have a: "admit (demo_api ''roles.read'') AdminRoute (demo_call ''GET'' ''/aep/v1/admin/roles'')
      = Inr (Some ((demo_token ''aep'' ''aep-control'' True) \<lparr> tc_Admin := False \<rparr>))"
    by (simp add: demo_admit)
  obtain claims tok :: Claims and u where "Some ((demo_token ''aep'' ''aep-control'' True) \<lparr> tc_Admin := False \<rparr>) = Some claims" "tc_Subject claims = tc_Subject tok"
      "u \<in> set (d_users (api_directory (demo_api ''roles.read'')))" "u_ID u = tc_Subject tok"
    using admin_request_authorized [OF r p a] by (elim exE conjE) (rule that, assumption+)
  then show ?thesis using a by (auto simp: demo_api_def demo_directory_def demo_user_def)
qed

text \<open>
  \<^bold>\<open>No write behind a read permission.\<close> Every management route asks for some permission. On every
  route that changes something, except the two that issue tokens with derived scopes, no read permission
  suffices, as long as no path parameter starts with \<^verbatim>\<open>requests\<close> or is
  \<^verbatim>\<open>test-access\<close>.
\<close>

theorem admin_writes_need_write_permission:
  assumes "(level, method, pat) \<in> set mountAdmin"
  shows "level = AdminRoute \<and> requiredAdminPermission method (path_of arg pat) \<noteq> []
    \<and> (method \<noteq> ''GET'' \<and> pat \<notin> set derived_scope_routes \<and> tame_args arg \<longrightarrow>
        list_all (\<lambda>p. \<not> read_only p) (requiredAdminPermission method (path_of arg pat)))"
proof -
  have a: "level = AdminRoute" "list_ex (has_prefix (literal pat)) admin_areas"
    using admin_route_areas assms by (auto simp: list_all_iff)
  then have "list_ex (has_prefix (path_of arg pat)) admin_areas" using path_of_prefix by (auto simp: list_ex_iff)
  then have "requiredAdminPermission method (path_of arg pat) \<noteq> []" by (simp add: required_empty)
  moreover have "list_all (\<lambda>p. \<not> read_only p) (requiredAdminPermission method (path_of arg pat))"
    if m: "method \<noteq> ''GET''" and d: "pat \<notin> set derived_scope_routes" and t: "tame_args arg"
  proof -
    have "(method, pat) \<in> set delicate_writes \<or> plain_write pat"
      using write_routes assms m d by (auto simp: list_all_iff)
    then show ?thesis
      using delicate_write_permissions [OF t] plain_write_permissions [OF m] by blast
  qed
  ultimately show ?thesis using a by blast
qed

theorem admin_writes_need_write_permission_witness:
  "(AdminRoute, ''PUT'', ''/aep/v1/admin/model-gateway/limits/{ruleId}'') \<in> set mountAdmin
   \<and> requiredAdminPermission ''PUT'' ''/aep/v1/admin/model-gateway/limits/daily'' \<noteq> []
   \<and> list_all (\<lambda>p. \<not> read_only p) (requiredAdminPermission ''PUT'' ''/aep/v1/admin/model-gateway/limits/daily'')"
proof -
  have r: "(AdminRoute, ''PUT'', ''/aep/v1/admin/model-gateway/limits/{ruleId}'') \<in> set mountAdmin"
    by (simp add: mountAdmin_def)
  have t: "tame_args (\<lambda>_. ''daily'')" by (simp add: tame_args_def has_prefix_def)
  have p: "path_of (\<lambda>_. ''daily'') ''/aep/v1/admin/model-gateway/limits/{ruleId}'' = ''/aep/v1/admin/model-gateway/limits/daily''" by simp
  have d: "''/aep/v1/admin/model-gateway/limits/{ruleId}'' \<notin> set derived_scope_routes" by (simp add: derived_scope_routes_def)
  show ?thesis using admin_writes_need_write_permission [OF r, of "\<lambda>_. ''daily''", unfolded p] r t d by simp
qed


end
