(* ===== verification/Data_Scope.thy ===== *)
theory Data_Scope
  imports Aep_Prelude
begin

text \<open>
  The retrieval-scope engine of the control service
  (\<^verbatim>\<open>services/control-service/internal/app/datascope.go\<close>): the department tree walk, the
  rule layers and the default-deny decision, together with the two operations that change the
  department tree (\<^verbatim>\<open>createTeam\<close> and \<^verbatim>\<open>deleteTeam\<close> with the foreign key on
  the parent). The tree walk of the source has no visited set: it is a partial function here, and
  the theory proves exactly when it returns.
\<close>

section \<open>Data\<close>

record ScopeRule =
  sr_ID :: string
  sr_RuleKind :: string
  sr_SubjectType :: string
  sr_SubjectID :: string
  sr_ResourceKind :: string
  sr_ResourceID :: string
  sr_StartsAt :: "time option"
  sr_ExpiresAt :: "time option"

record ScopeSubject =
  ss_UserID :: string
  ss_RoleIDs :: "string list"
  ss_TeamIDs :: "string list"

record TeamNode =
  tn_ID :: string
  tn_Parent :: string
  tn_Path :: string

record ResourceRef =
  rr_Kind :: string
  rr_ID :: string

record RetrievalContext =
  rc_PrincipalID :: string
  rc_DeploymentID :: string
  rc_OrgScope :: "string list"
  rc_OwnTeamIDs :: "string list"
  rc_RoleScope :: "string list"
  rc_AllowedResources :: "ResourceRef list"
  rc_DeniedResources :: "ResourceRef list"
  rc_CrossDepartmentReason :: string

text \<open>A Go map of teams, as the list of its entries in the order a \<^verbatim>\<open>range\<close> visits them.\<close>

type_synonym team_map = "(string \<times> TeamNode) list"

section \<open>Operations\<close>

definition ruleApplies :: "ScopeRule \<Rightarrow> ScopeSubject \<Rightarrow> bool" where
  "ruleApplies rule subject =
     (if sr_SubjectType rule = ''user'' then sr_SubjectID rule = ss_UserID subject
      else if sr_SubjectType rule = ''role'' then list_ex (\<lambda>role. role = sr_SubjectID rule) (ss_RoleIDs subject)
      else if sr_SubjectType rule = ''team'' then list_ex (\<lambda>team. team = sr_SubjectID rule) (ss_TeamIDs subject)
      else False)"

definition ruleInWindow :: "ScopeRule \<Rightarrow> time \<Rightarrow> bool" where
  "ruleInWindow rule now =
     (case sr_StartsAt rule of
        Some start \<Rightarrow> if now < start then False
          else (case sr_ExpiresAt rule of Some expiry \<Rightarrow> if \<not> now < expiry then False else True | None \<Rightarrow> True)
      | None \<Rightarrow> (case sr_ExpiresAt rule of Some expiry \<Rightarrow> if \<not> now < expiry then False else True | None \<Rightarrow> True))"

text \<open>\<^verbatim>\<open>uniqueSorted\<close>: drop empty strings and repetitions, keep first occurrences, sort.
  The \<^verbatim>\<open>seen\<close> set always holds exactly the elements of \<^verbatim>\<open>result\<close>.\<close>

fun unique_loop :: "string list \<Rightarrow> string list \<Rightarrow> string list" where
  "unique_loop [] result = result"
| "unique_loop (v # vs) result =
     (if v = [] then unique_loop vs result
      else if v \<in> set result then unique_loop vs result
      else unique_loop vs (result @ [v]))"

definition uniqueSorted :: "string list \<Rightarrow> string list" where
  "uniqueSorted values = sort (unique_loop values [])"

definition children_of :: "team_map \<Rightarrow> string \<Rightarrow> string list" where
  "children_of teams parent = map fst (filter (\<lambda>(i, node). tn_Parent node = parent) teams)"

text \<open>The breadth-first loop of \<^verbatim>\<open>subtreeIDs\<close>: one iteration appends the frontier to the
  result and replaces it by the children of its members. Not returning is \<^const>\<open>None\<close>.\<close>

partial_function (option) subtree_loop ::
  "(string \<Rightarrow> string list) \<Rightarrow> string list \<Rightarrow> string list \<Rightarrow> string list option" where
  "subtree_loop children frontier result =
     (if frontier = [] then Some result
      else subtree_loop children (concat (map children frontier)) (result @ frontier))"

definition subtreeIDs :: "string \<Rightarrow> team_map \<Rightarrow> string list option" where
  "subtreeIDs teamID teams =
     map_option uniqueSorted (subtree_loop (children_of teams) [teamID] [])"

fun uniqueRefs_loop :: "ResourceRef list \<Rightarrow> ResourceRef list \<Rightarrow> ResourceRef list" where
  "uniqueRefs_loop [] result = result"
| "uniqueRefs_loop (v # vs) result =
     (if rr_Kind v = [] \<or> rr_ID v = [] then uniqueRefs_loop vs result
      else if v \<in> set result then uniqueRefs_loop vs result
      else uniqueRefs_loop vs (result @ [v]))"

definition uniqueResourceRefs :: "ResourceRef list \<Rightarrow> ResourceRef list" where
  "uniqueResourceRefs values =
     sort_key (\<lambda>r. rr_Kind r) (sort_key (\<lambda>r. rr_ID r) (uniqueRefs_loop values []))"

text \<open>The grant loop of \<^verbatim>\<open>BuildRetrievalContext\<close>: team grants are collected as
  expansions (a set in the source) with their kinds in the reason, other grants as references.\<close>

fun grant_loop :: "ScopeSubject \<Rightarrow> time \<Rightarrow> ScopeRule list \<Rightarrow>
    string list \<times> string \<times> ResourceRef list \<Rightarrow> string list \<times> string \<times> ResourceRef list" where
  "grant_loop subject now [] acc = acc"
| "grant_loop subject now (rule # rules) (expansions, reason, allowed) =
     (if sr_RuleKind rule \<noteq> ''management_scope'' \<and> sr_RuleKind rule \<noteq> ''exception_grant''
      then grant_loop subject now rules (expansions, reason, allowed)
      else if \<not> ruleApplies rule subject \<or> \<not> ruleInWindow rule now
      then grant_loop subject now rules (expansions, reason, allowed)
      else if sr_ResourceKind rule = ''team''
      then grant_loop subject now rules
             (if sr_ResourceID rule \<in> set expansions then expansions else expansions @ [sr_ResourceID rule],
              if reason = [] \<or> \<not> str_contains reason (sr_RuleKind rule)
              then (if reason = [] then sr_RuleKind rule else reason @ '','' @ sr_RuleKind rule)
              else reason,
              allowed)
      else grant_loop subject now rules
             (expansions, reason, allowed @ [\<lparr>rr_Kind = sr_ResourceKind rule, rr_ID = sr_ResourceID rule\<rparr>]))"

fun deny_loop :: "ScopeSubject \<Rightarrow> time \<Rightarrow> ScopeRule list \<Rightarrow> ResourceRef list \<Rightarrow> ResourceRef list" where
  "deny_loop subject now [] denied = denied"
| "deny_loop subject now (rule # rules) denied =
     (if sr_RuleKind rule \<noteq> ''explicit_deny'' \<or> \<not> ruleApplies rule subject \<or> \<not> ruleInWindow rule now
      then deny_loop subject now rules denied
      else deny_loop subject now rules
             (denied @ [\<lparr>rr_Kind = sr_ResourceKind rule, rr_ID = sr_ResourceID rule\<rparr>]))"

fun own_loop :: "team_map \<Rightarrow> string list \<Rightarrow> string list \<Rightarrow> string list option" where
  "own_loop teams [] orgScope = Some orgScope"
| "own_loop teams (t # ts) orgScope =
     (case subtreeIDs t teams of None \<Rightarrow> None | Some ids \<Rightarrow> own_loop teams ts (orgScope @ ids))"

fun expand_loop :: "team_map \<Rightarrow> string list \<Rightarrow> string list \<Rightarrow> string list option" where
  "expand_loop teams [] orgScope = Some orgScope"
| "expand_loop teams (t # ts) orgScope =
     (case subtreeIDs t teams of
        None \<Rightarrow> None
      | Some ids \<Rightarrow> expand_loop teams ts (uniqueSorted (orgScope @ ids)))"

definition BuildRetrievalContext :: "string \<Rightarrow> string \<Rightarrow> string list \<Rightarrow> string list \<Rightarrow> team_map \<Rightarrow>
    ScopeRule list \<Rightarrow> time \<Rightarrow> RetrievalContext option" where
  "BuildRetrievalContext deploymentID userID roles ownTeams teams rules now =
     (case own_loop teams ownTeams [] of
        None \<Rightarrow> None
      | Some own \<Rightarrow>
         (let subject = \<lparr>ss_UserID = userID, ss_RoleIDs = roles, ss_TeamIDs = ownTeams\<rparr>;
              (expansions, reason, allowed) = grant_loop subject now rules ([], [], []) in
          case expand_loop teams expansions (uniqueSorted own) of
            None \<Rightarrow> None
          | Some orgScope \<Rightarrow>
             Some \<lparr>rc_PrincipalID = userID, rc_DeploymentID = deploymentID, rc_OrgScope = orgScope,
                   rc_OwnTeamIDs = uniqueSorted ownTeams, rc_RoleScope = uniqueSorted roles,
                   rc_AllowedResources = uniqueResourceRefs allowed,
                   rc_DeniedResources = uniqueResourceRefs (deny_loop subject now rules []),
                   rc_CrossDepartmentReason = reason\<rparr>))"

definition Allows :: "RetrievalContext \<Rightarrow> ResourceRef \<Rightarrow> bool" where
  "Allows c resource =
     (if list_ex (\<lambda>denied. denied = resource) (rc_DeniedResources c) then False
      else if rr_Kind resource = ''team'' \<and> list_ex (\<lambda>v. v = rr_ID resource) (rc_OrgScope c) then True
      else list_ex (\<lambda>allowed. allowed = resource) (rc_AllowedResources c))"

section \<open>The loops, as sets\<close>

lemma unique_loop_set: "set (unique_loop vs r) = set r \<union> (set vs - {[]})"
  by (induction vs r rule: unique_loop.induct) auto

lemma unique_loop_distinct: "distinct r \<Longrightarrow> distinct (unique_loop vs r)"
  by (induction vs r rule: unique_loop.induct) auto

lemma uniqueSorted_eq: "uniqueSorted vs = sorted_list_of_set (set vs - {[]})"
proof -
  have "set (uniqueSorted vs) = set vs - {[]}" and "sorted (uniqueSorted vs)"
    and "distinct (uniqueSorted vs)"
    by (simp_all add: uniqueSorted_def unique_loop_set unique_loop_distinct)
  then show ?thesis
    by (metis sorted_list_of_set.idem_if_sorted_distinct)
qed

lemma set_uniqueSorted [simp]: "set (uniqueSorted vs) = set vs - {[]}"
  by (simp add: uniqueSorted_eq)

lemma uniqueRefs_loop_set:
  "set (uniqueRefs_loop vs r) = set r \<union> {v \<in> set vs. rr_Kind v \<noteq> [] \<and> rr_ID v \<noteq> []}"
  by (induction vs r rule: uniqueRefs_loop.induct) auto

lemma set_uniqueResourceRefs [simp]:
  "set (uniqueResourceRefs vs) = {v \<in> set vs. rr_Kind v \<noteq> [] \<and> rr_ID v \<noteq> []}"
  by (simp add: uniqueResourceRefs_def uniqueRefs_loop_set)

definition active_rule :: "ScopeSubject \<Rightarrow> time \<Rightarrow> ScopeRule \<Rightarrow> bool" where
  "active_rule subject now rule \<longleftrightarrow> ruleApplies rule subject \<and> ruleInWindow rule now"

definition is_grant :: "ScopeRule \<Rightarrow> bool" where
  "is_grant rule \<longleftrightarrow> sr_RuleKind rule = ''management_scope'' \<or> sr_RuleKind rule = ''exception_grant''"

lemma deny_loop_set:
  "set (deny_loop sub now rules acc) = set acc \<union>
     {\<lparr>rr_Kind = sr_ResourceKind r, rr_ID = sr_ResourceID r\<rparr> | r.
        r \<in> set rules \<and> sr_RuleKind r = ''explicit_deny'' \<and> active_rule sub now r}"
  by (induction sub now rules acc rule: deny_loop.induct) (auto simp: active_rule_def)

lemma grant_loop_skip:
  "\<not> is_grant r \<or> \<not> active_rule sub now r \<Longrightarrow>
   grant_loop sub now (r # rs) (exps, reason, allowed) = grant_loop sub now rs (exps, reason, allowed)"
  by (auto simp: is_grant_def active_rule_def)

lemma grant_loop_team:
  "is_grant r \<Longrightarrow> active_rule sub now r \<Longrightarrow> sr_ResourceKind r = ''team'' \<Longrightarrow>
   \<exists>exps' reason'. set exps' = insert (sr_ResourceID r) (set exps) \<and>
     grant_loop sub now (r # rs) (exps, reason, allowed) = grant_loop sub now rs (exps', reason', allowed)"
  by (intro exI [of _ "if sr_ResourceID r \<in> set exps then exps else exps @ [sr_ResourceID r]"]
      exI [of _ "if reason = [] \<or> \<not> str_contains reason (sr_RuleKind r)
         then (if reason = [] then sr_RuleKind r else reason @ '','' @ sr_RuleKind r) else reason"])
    (auto simp: is_grant_def active_rule_def)

lemma grant_loop_other:
  "is_grant r \<Longrightarrow> active_rule sub now r \<Longrightarrow> sr_ResourceKind r \<noteq> ''team'' \<Longrightarrow>
   grant_loop sub now (r # rs) (exps, reason, allowed) =
   grant_loop sub now rs (exps, reason, allowed @ [\<lparr>rr_Kind = sr_ResourceKind r, rr_ID = sr_ResourceID r\<rparr>])"
  by (auto simp: is_grant_def active_rule_def)

definition team_grants :: "ScopeSubject \<Rightarrow> time \<Rightarrow> ScopeRule list \<Rightarrow> string set" where
  "team_grants sub now rules =
     {sr_ResourceID r | r. r \<in> set rules \<and> is_grant r \<and> active_rule sub now r \<and> sr_ResourceKind r = ''team''}"

definition other_grants :: "ScopeSubject \<Rightarrow> time \<Rightarrow> ScopeRule list \<Rightarrow> ResourceRef set" where
  "other_grants sub now rules =
     {\<lparr>rr_Kind = sr_ResourceKind r, rr_ID = sr_ResourceID r\<rparr> | r.
        r \<in> set rules \<and> is_grant r \<and> active_rule sub now r \<and> sr_ResourceKind r \<noteq> ''team''}"

lemma grants_Cons:
  "team_grants sub now (r # rs) =
     (if is_grant r \<and> active_rule sub now r \<and> sr_ResourceKind r = ''team''
      then insert (sr_ResourceID r) (team_grants sub now rs) else team_grants sub now rs)"
  "other_grants sub now (r # rs) =
     (if is_grant r \<and> active_rule sub now r \<and> sr_ResourceKind r \<noteq> ''team''
      then insert \<lparr>rr_Kind = sr_ResourceKind r, rr_ID = sr_ResourceID r\<rparr> (other_grants sub now rs)
      else other_grants sub now rs)"
  unfolding team_grants_def other_grants_def by auto

lemma grant_loop_sets:
  "grant_loop sub now rules (exps, reason, allowed) = (exps', reason', allowed') \<Longrightarrow>
   set exps' = set exps \<union> team_grants sub now rules \<and> set allowed' = set allowed \<union> other_grants sub now rules"
proof (induction rules arbitrary: exps reason allowed)
  case Nil
  then show ?case by (simp add: team_grants_def other_grants_def)
next
  case (Cons r rs)
  consider (skip) "\<not> is_grant r \<or> \<not> active_rule sub now r"
    | (team) "is_grant r" "active_rule sub now r" "sr_ResourceKind r = ''team''"
    | (other) "is_grant r" "active_rule sub now r" "sr_ResourceKind r \<noteq> ''team''" by blast
  then show ?case
  proof cases
    case skip
    then have "team_grants sub now (r # rs) = team_grants sub now rs"
      and "other_grants sub now (r # rs) = other_grants sub now rs"
      by (auto simp: grants_Cons)
    with Cons skip show ?thesis by (simp only: grant_loop_skip)
  next
    case team
    obtain e rsn where "set e = insert (sr_ResourceID r) (set exps)"
      "grant_loop sub now (r # rs) (exps, reason, allowed) = grant_loop sub now rs (e, rsn, allowed)"
      using grant_loop_team [OF team] by blast
    with Cons team show ?thesis by (auto simp add: grants_Cons simp del: grant_loop.simps)
  next
    case other
    from Cons.prems have "grant_loop sub now rs (exps, reason, allowed @ [\<lparr>rr_Kind = sr_ResourceKind r, rr_ID = sr_ResourceID r\<rparr>]) = (exps', reason', allowed')"
      by (simp only: grant_loop_other [OF other])
    from Cons.IH [OF this] other show ?thesis
      by (auto simp add: grants_Cons simp del: grant_loop.simps)
  qed
qed

section \<open>The tree walk\<close>

definition child_edge :: "team_map \<Rightarrow> (string \<times> string) set" where
  "child_edge teams = {(p, c). c \<in> set (children_of teams p)}"

lemma child_edge_iff: "(p, c) \<in> child_edge teams \<longleftrightarrow> (\<exists>node. (c, node) \<in> set teams \<and> tn_Parent node = p)"
  by (auto simp: child_edge_def children_of_def image_iff)

lemma finite_child_edge: "finite (child_edge teams)"
proof -
  have "child_edge teams \<subseteq> (\<lambda>(i, node). (tn_Parent node, i)) ` set teams"
    by (force simp: child_edge_iff)
  then show ?thesis by (rule finite_subset) simp
qed

text \<open>The frontier after \<open>k\<close> iterations.\<close>

fun level :: "(string \<Rightarrow> string list) \<Rightarrow> nat \<Rightarrow> string list \<Rightarrow> string list" where
  "level ch 0 f = f"
| "level ch (Suc k) f = level ch k (concat (map ch f))"

lemma level_Nil [simp]: "level ch k [] = []"
  by (induction k) auto

lemma level_Suc_right: "level ch (Suc k) f = concat (map ch (level ch k f))"
  by (induction k arbitrary: f) auto

lemma level_append: "level ch k (f @ g) = level ch k f @ level ch k g"
  by (induction k arbitrary: f g) auto

lemma level_empty_mono: "level ch k f = [] \<Longrightarrow> k \<le> m \<Longrightarrow> level ch m f = []"
  by (induction m) (auto simp: level_Suc_right le_Suc_eq simp del: level.simps(2))

lemma level_empty_list:
  "\<forall>x \<in> set f. \<exists>k. level ch k [x] = [] \<Longrightarrow> \<exists>k. level ch k f = []"
proof (induction f)
  case (Cons x f)
  then obtain k m where "level ch k [x] = []" "level ch m f = []" by auto
  then have "level ch (max k m) [x] = []" "level ch (max k m) f = []"
    using level_empty_mono by (metis max.cobounded1, metis max.cobounded2)
  then have "level ch (max k m) ([x] @ f) = []" by (simp only: level_append append_Nil)
  then show ?case by auto
qed auto

lemma subtree_loop_returns:
  "level ch k f = [] \<Longrightarrow>
   subtree_loop ch f res = Some (res @ concat (map (\<lambda>i. level ch i f) [0..<k]))"
proof (induction k arbitrary: f res)
  case 0
  then show ?case by (simp add: subtree_loop.simps)
next
  case (Suc k)
  have shift: "map (\<lambda>i. level ch i f) [0..<Suc k] = f # map (\<lambda>i. level ch i (concat (map ch f))) [0..<k]"
    by (simp add: map_upt_Suc del: upt_Suc)
  show ?case
  proof (cases "f = []")
    case True
    then show ?thesis by (simp add: subtree_loop.simps del: upt_Suc) 
  next
    case False
    with Suc show ?thesis
      by (subst subtree_loop.simps) (simp add: shift del: upt_Suc)
  qed
qed

lemma subtree_loop_only_if:
  assumes "subtree_loop ch f res = Some out"
  shows "\<exists>k. level ch k f = []"
proof (rule subtree_loop.raw_induct [where P = "\<lambda>ch f res out. \<exists>k. level ch k f = []", OF _ assms])
  fix loop ch f res out
  assume IH: "\<And>ch f res out. loop ch f res = Some out \<Longrightarrow> \<exists>k. level ch k f = []"
    and eq: "(if f = [] then Some res else loop ch (concat (map ch f)) (res @ f)) = Some out"
  show "\<exists>k. level ch k f = []"
  proof (cases "f = []")
    case True
    then show ?thesis by (intro exI [of _ 0]) simp
  next
    case False
    with eq IH obtain k where "level ch k (concat (map ch f)) = []" by force
    then show ?thesis by (intro exI [of _ "Suc k"]) simp
  qed
qed

lemma level_set:
  "y \<in> set (level (children_of teams) k f) \<longleftrightarrow> (\<exists>x \<in> set f. (x, y) \<in> child_edge teams ^^ k)"
proof (induction k arbitrary: y)
  case (Suc k)
  have "y \<in> set (level (children_of teams) (Suc k) f) \<longleftrightarrow>
      (\<exists>z \<in> set (level (children_of teams) k f). (z, y) \<in> child_edge teams)"
    by (simp add: level_Suc_right child_edge_def del: level.simps(2))
  also have "\<dots> \<longleftrightarrow> (\<exists>x \<in> set f. (x, y) \<in> child_edge teams ^^ Suc k)"
    unfolding relpow.simps using Suc by blast
  finally show ?case .
qed auto

text \<open>A node on a cycle below the start keeps every frontier non-empty.\<close>

lemma level_cycle:
  assumes "(t, x) \<in> (child_edge teams)\<^sup>*" and "(x, x) \<in> (child_edge teams)\<^sup>+"
  shows "level (children_of teams) k [t] \<noteq> []"
proof -
  let ?E = "child_edge teams"
  have "\<exists>y. (t, y) \<in> ?E ^^ k \<and> (y, x) \<in> ?E\<^sup>*"
  proof (induction k)
    case 0
    then show ?case using assms(1) by auto
  next
    case (Suc k)
    then obtain y where y: "(t, y) \<in> ?E ^^ k" "(y, x) \<in> ?E\<^sup>*" by blast
    from y(2) assms(2) have "(y, x) \<in> ?E\<^sup>+" by (rule rtrancl_trancl_trancl)
    then obtain z where "(y, z) \<in> ?E" "(z, x) \<in> ?E\<^sup>*" by (auto dest: tranclD)
    with y show ?case by auto
  qed
  then show ?thesis using level_set [of _ teams k "[t]"] by fastforce
qed

lemma level_terminates:
  assumes "\<And>x. (t, x) \<in> (child_edge teams)\<^sup>* \<Longrightarrow> (x, x) \<notin> (child_edge teams)\<^sup>+"
  shows "\<exists>k. level (children_of teams) k [t] = []"
proof -
  let ?E = "child_edge teams"
  let ?R = "{(p, c) \<in> ?E. (t, p) \<in> ?E\<^sup>*}"
  have "acyclic ?R"
    unfolding acyclic_def
  proof (intro allI notI)
    fix x
    assume "(x, x) \<in> ?R\<^sup>+"
    moreover from this have "(t, x) \<in> ?E\<^sup>*" by (auto dest: tranclD)
    moreover have "?R\<^sup>+ \<subseteq> ?E\<^sup>+" by (rule trancl_mono_subset) auto
    ultimately show False using assms by blast
  qed
  moreover have "finite ?R" by (rule finite_subset [OF _ finite_child_edge]) auto
  ultimately have wf: "wf (?R\<inverse>)" by (simp add: finite_acyclic_wf_converse)
  have "(t, x) \<in> ?E\<^sup>* \<longrightarrow> (\<exists>k. level (children_of teams) k [x] = [])" for x
  proof (induction x rule: wf_induct_rule [OF wf])
    case (1 x)
    show ?case
    proof
      assume tx: "(t, x) \<in> ?E\<^sup>*"
      have "\<forall>c \<in> set (children_of teams x). \<exists>k. level (children_of teams) k [c] = []"
        using 1 tx by (auto simp: child_edge_def dest: rtrancl_into_rtrancl)
      then obtain k where "level (children_of teams) k (children_of teams x) = []"
        using level_empty_list by blast
      then show "\<exists>k. level (children_of teams) k [x] = []"
        by (intro exI [of _ "Suc k"]) simp
    qed
  qed
  then show ?thesis by blast
qed

lemma subtreeIDs_returns_iff:
  "(\<exists>ids. subtreeIDs t teams = Some ids) \<longleftrightarrow>
   (\<forall>x. (t, x) \<in> (child_edge teams)\<^sup>* \<longrightarrow> (x, x) \<notin> (child_edge teams)\<^sup>+)"
proof
  assume "\<exists>ids. subtreeIDs t teams = Some ids"
  then obtain k where "level (children_of teams) k [t] = []"
    by (auto simp: subtreeIDs_def dest: subtree_loop_only_if)
  then show "\<forall>x. (t, x) \<in> (child_edge teams)\<^sup>* \<longrightarrow> (x, x) \<notin> (child_edge teams)\<^sup>+"
    using level_cycle by blast
next
  assume "\<forall>x. (t, x) \<in> (child_edge teams)\<^sup>* \<longrightarrow> (x, x) \<notin> (child_edge teams)\<^sup>+"
  then obtain k where "level (children_of teams) k [t] = []"
    using level_terminates by blast
  then show "\<exists>ids. subtreeIDs t teams = Some ids"
    by (simp add: subtreeIDs_def subtree_loop_returns)
qed

lemma subtreeIDs_set:
  assumes "subtreeIDs t teams = Some ids"
  shows "set ids = {x. (t, x) \<in> (child_edge teams)\<^sup>*} - {[]}"
proof -
  obtain out where out: "subtree_loop (children_of teams) [t] [] = Some out"
    and ids: "ids = uniqueSorted out"
    using assms by (auto simp: subtreeIDs_def)
  obtain k where k: "level (children_of teams) k [t] = []"
    using out subtree_loop_only_if by blast
  then have o: "out = concat (map (\<lambda>i. level (children_of teams) i [t]) [0..<k])"
    using out subtree_loop_returns by fastforce
  have "set out = {x. (t, x) \<in> (child_edge teams)\<^sup>*}"
  proof (intro set_eqI iffI)
    fix x
    assume "x \<in> set out"
    then show "x \<in> {x. (t, x) \<in> (child_edge teams)\<^sup>*}"
      by (auto simp: o level_set dest: relpow_imp_rtrancl)
  next
    fix x
    assume "x \<in> {x. (t, x) \<in> (child_edge teams)\<^sup>*}"
    then obtain i where i: "(t, x) \<in> child_edge teams ^^ i" by (auto dest: rtrancl_imp_relpow)
    have "i < k"
    proof (rule ccontr)
      assume "\<not> i < k"
      then have "level (children_of teams) i [t] = []" using level_empty_mono [OF k] by simp
      with i level_set [of x teams i "[t]"] show False by simp
    qed
    with i show "x \<in> set out" by (auto simp: o level_set)
  qed
  then show ?thesis by (simp add: ids)
qed

lemma subtreeIDs_sorted: "subtreeIDs t teams = Some ids \<Longrightarrow> sorted ids \<and> distinct ids"
  by (auto simp: subtreeIDs_def uniqueSorted_eq)

lemma own_loop_set:
  "own_loop teams ts acc = Some out \<Longrightarrow>
   set out = set acc \<union> ((\<Union>t \<in> set ts. {x. (t, x) \<in> (child_edge teams)\<^sup>*}) - {[]})"
  by (induction teams ts acc rule: own_loop.induct)
    (auto split: option.splits dest: subtreeIDs_set)

lemma expand_loop_set:
  "expand_loop teams ts acc = Some out \<Longrightarrow>
   set out - {[]} = (set acc \<union> (\<Union>t \<in> set ts. {x. (t, x) \<in> (child_edge teams)\<^sup>*})) - {[]}"
proof (induction ts arbitrary: acc)
  case (Cons t ts)
  then obtain ids where ids: "subtreeIDs t teams = Some ids"
    and rest: "expand_loop teams ts (uniqueSorted (acc @ ids)) = Some out"
    by (auto split: option.splits)
  from Cons.IH [OF rest] subtreeIDs_set [OF ids] show ?case by auto
qed simp

lemma loops_return:
  assumes "\<And>t. t \<in> set ts \<Longrightarrow> \<exists>ids. subtreeIDs t teams = Some ids"
  shows "\<exists>out. own_loop teams ts acc = Some out" and "\<exists>out. expand_loop teams ts acc = Some out"
proof -
  have "(\<exists>out. own_loop teams us acc = Some out) \<and> (\<exists>out. expand_loop teams us acc = Some out)"
    if "set us \<subseteq> set ts" for us
    using that
  proof (induction us arbitrary: acc)
    case (Cons u us)
    moreover obtain ids where "subtreeIDs u teams = Some ids" using assms Cons.prems by auto
    ultimately show ?case by simp
  qed simp
  then show "\<exists>out. own_loop teams ts acc = Some out" and "\<exists>out. expand_loop teams ts acc = Some out"
    by simp_all
qed

section \<open>The decision, as the specification states it\<close>

text \<open>
  What the rule layers promise, over sets and without any loop: a reference is denied when an
  active deny rule names it, and otherwise allowed when it is a team in a subtree of an own or
  granted team, or an active grant of another kind names it.
\<close>

definition scope_denied :: "ScopeSubject \<Rightarrow> time \<Rightarrow> ScopeRule list \<Rightarrow> ResourceRef \<Rightarrow> bool" where
  "scope_denied sub now rules ref \<longleftrightarrow>
     (\<exists>r \<in> set rules. sr_RuleKind r = ''explicit_deny'' \<and> active_rule sub now r
        \<and> ref = \<lparr>rr_Kind = sr_ResourceKind r, rr_ID = sr_ResourceID r\<rparr>)"

definition scope_granted :: "team_map \<Rightarrow> ScopeSubject \<Rightarrow> time \<Rightarrow> ScopeRule list \<Rightarrow> ResourceRef \<Rightarrow> bool" where
  "scope_granted teams sub now rules ref \<longleftrightarrow>
     (rr_Kind ref = ''team'' \<and>
        (\<exists>t \<in> set (ss_TeamIDs sub) \<union> team_grants sub now rules. (t, rr_ID ref) \<in> (child_edge teams)\<^sup>*))
   \<or> ref \<in> other_grants sub now rules"

lemma other_grants_not_team: "ref \<in> other_grants sub now rules \<Longrightarrow> rr_Kind ref \<noteq> ''team''"
  by (auto simp: other_grants_def)

lemma build_context_fields:
  assumes "BuildRetrievalContext dep user roles own teams rules now = Some ctx"
  defines "sub \<equiv> \<lparr>ss_UserID = user, ss_RoleIDs = roles, ss_TeamIDs = own\<rparr>"
  shows "set (rc_OrgScope ctx) - {[]} =
           (\<Union>t \<in> set own \<union> team_grants sub now rules. {x. (t, x) \<in> (child_edge teams)\<^sup>*}) - {[]}"
    and "set (rc_AllowedResources ctx) = {v \<in> other_grants sub now rules. rr_Kind v \<noteq> [] \<and> rr_ID v \<noteq> []}"
    and "set (rc_DeniedResources ctx) = {v. scope_denied sub now rules v \<and> rr_Kind v \<noteq> [] \<and> rr_ID v \<noteq> []}"
proof -
  obtain o1 exps reason allowed org where
    o1: "own_loop teams own [] = Some o1"
    and g: "grant_loop sub now rules ([], [], []) = (exps, reason, allowed)"
    and e: "expand_loop teams exps (uniqueSorted o1) = Some org"
    and ctx: "rc_OrgScope ctx = org" "rc_AllowedResources ctx = uniqueResourceRefs allowed"
      "rc_DeniedResources ctx = uniqueResourceRefs (deny_loop sub now rules [])"
    using assms by (auto simp: BuildRetrievalContext_def Let_def sub_def split: option.splits prod.splits)
  note gs = grant_loop_sets [OF g]
  show "set (rc_OrgScope ctx) - {[]} =
      (\<Union>t \<in> set own \<union> team_grants sub now rules. {x. (t, x) \<in> (child_edge teams)\<^sup>*}) - {[]}"
    using expand_loop_set [OF e] own_loop_set [OF o1] gs ctx by auto
  show "set (rc_AllowedResources ctx) = {v \<in> other_grants sub now rules. rr_Kind v \<noteq> [] \<and> rr_ID v \<noteq> []}"
    using gs ctx by auto
  show "set (rc_DeniedResources ctx) = {v. scope_denied sub now rules v \<and> rr_Kind v \<noteq> [] \<and> rr_ID v \<noteq> []}"
    using ctx by (auto simp: deny_loop_set scope_denied_def)
qed

lemma Allows_iff:
  "Allows c ref \<longleftrightarrow> ref \<notin> set (rc_DeniedResources c) \<and>
     (rr_Kind ref = ''team'' \<and> rr_ID ref \<in> set (rc_OrgScope c) \<or> ref \<in> set (rc_AllowedResources c))"
  by (auto simp: Allows_def list_ex_iff)

lemma expand_loop_nonempty: "expand_loop teams ts acc = Some out \<Longrightarrow> [] \<notin> set acc \<Longrightarrow> [] \<notin> set out"
  by (induction ts arbitrary: acc) (auto split: option.splits)

lemma build_context_org_nonempty:
  "BuildRetrievalContext dep user roles own teams rules now = Some ctx \<Longrightarrow> [] \<notin> set (rc_OrgScope ctx)"
  by (auto simp: BuildRetrievalContext_def Let_def split: option.splits prod.splits dest: expand_loop_nonempty)

lemma build_context_allows:
  assumes b: "BuildRetrievalContext dep user roles own teams rules now = Some ctx"
  defines "sub \<equiv> \<lparr>ss_UserID = user, ss_RoleIDs = roles, ss_TeamIDs = own\<rparr>"
  shows "Allows ctx ref \<longleftrightarrow> rr_Kind ref \<noteq> [] \<and> rr_ID ref \<noteq> [] \<and>
     \<not> scope_denied sub now rules ref \<and> scope_granted teams sub now rules ref"
proof (cases "rr_Kind ref \<noteq> [] \<and> rr_ID ref \<noteq> []")
  case True
  note f = build_context_fields [OF b, folded sub_def]
  have "rr_ID ref \<in> set (rc_OrgScope ctx) \<longleftrightarrow> rr_ID ref \<in> set (rc_OrgScope ctx) - {[]}"
    using True by simp
  also have "\<dots> \<longleftrightarrow> (\<exists>t \<in> set own \<union> team_grants sub now rules. (t, rr_ID ref) \<in> (child_edge teams)\<^sup>*)"
    unfolding f(1) using True by (simp add: bex_Un)
  finally have o: "rr_ID ref \<in> set (rc_OrgScope ctx) \<longleftrightarrow>
      (\<exists>t \<in> set own \<union> team_grants sub now rules. (t, rr_ID ref) \<in> (child_edge teams)\<^sup>*)" .
  have own: "ss_TeamIDs sub = own" by (simp add: sub_def)
  show ?thesis
    unfolding Allows_iff scope_granted_def own o f(2,3) using True by blast
next
  case False
  note f = build_context_fields [OF b, folded sub_def]
  have "\<not> Allows ctx ref"
    unfolding Allows_iff f(2) using False build_context_org_nonempty [OF b] by auto
  with False show ?thesis by blast
qed

section \<open>The department tree\<close>

text \<open>
  Team rows of one deployment, and the two statements that change them:
  \<^verbatim>\<open>createTeam\<close> inserts a row whose identifier is not taken and whose parent, if any,
  exists; \<^verbatim>\<open>deleteTeam\<close> removes a row no other row names as its parent
  (\<^verbatim>\<open>teams_parent_fk\<close>) unless the row is marked built in. Updates never touch the parent column.
\<close>

definition createTeam :: "team_map \<Rightarrow> string \<Rightarrow> string \<Rightarrow> team_map option" where
  "createTeam teams identifier parentID =
     (if parentID \<noteq> [] then
        (case map_of teams parentID of
           None \<Rightarrow> None
         | Some parent \<Rightarrow>
            if identifier \<in> fst ` set teams then None
            else
             (let parentPath = (if tn_Path parent = [] \<or> tn_Path parent = ''/'' then ''/'' @ parentID
                                else tn_Path parent) in
              Some ((identifier, \<lparr>tn_ID = identifier, tn_Parent = parentID,
                      tn_Path = parentPath @ ''/'' @ identifier\<rparr>) # teams)))
      else if identifier \<in> fst ` set teams then None
      else Some ((identifier, \<lparr>tn_ID = identifier, tn_Parent = [], tn_Path = ''/'' @ identifier\<rparr>) # teams))"

definition deleteTeam :: "(string \<Rightarrow> bool) \<Rightarrow> team_map \<Rightarrow> string \<Rightarrow> team_map option" where
  "deleteTeam builtIn teams identifier =
     (if identifier \<notin> fst ` set teams then None
      else if builtIn identifier then None
      else if \<exists>(i, node) \<in> set teams. tn_Parent node = identifier then None
      else Some (filter (\<lambda>(i, node). i \<noteq> identifier) teams))"

inductive team_step :: "team_map \<Rightarrow> team_map \<Rightarrow> bool" where
  create: "createTeam teams i p = Some teams' \<Longrightarrow> i \<noteq> [] \<Longrightarrow> team_step teams teams'"
| delete: "deleteTeam builtIn teams i = Some teams' \<Longrightarrow> team_step teams teams'"

inductive team_reachable :: "team_map \<Rightarrow> bool" where
  start: "team_reachable []"
| step: "team_reachable teams \<Longrightarrow> team_step teams teams' \<Longrightarrow> team_reachable teams'"

inductive_cases team_stepE: "team_step teams teams'"

text \<open>Every parent exists (or is the root marker), no identifier is empty, and no cycle.\<close>

definition team_inv :: "team_map \<Rightarrow> bool" where
  "team_inv teams \<longleftrightarrow> acyclic (child_edge teams)
     \<and> (\<forall>(i, node) \<in> set teams. i \<noteq> [] \<and> (tn_Parent node = [] \<or> tn_Parent node \<in> fst ` set teams))"

lemma child_edge_Cons: "child_edge ((i, node) # teams) = insert (tn_Parent node, i) (child_edge teams)"
  by (auto simp: child_edge_iff)

lemma child_edge_filter: "child_edge (filter P teams) \<subseteq> child_edge teams"
  by (auto simp: child_edge_iff)

text \<open>A fresh identifier has no outgoing edge, so adding an edge into it closes no cycle.\<close>

lemma team_inv_insert:
  assumes inv: "team_inv teams" and fresh: "i \<notin> fst ` set teams" "i \<noteq> []"
    and par: "tn_Parent node = [] \<or> tn_Parent node \<in> fst ` set teams"
  shows "team_inv ((i, node) # teams)"
proof -
  have noout: "(i, y) \<notin> child_edge teams" for y
    using inv fresh by (auto simp: child_edge_iff team_inv_def)
  have "tn_Parent node \<noteq> i" using fresh par by auto
  then have "(i, tn_Parent node) \<notin> (child_edge teams)\<^sup>*"
    using noout by (metis converse_rtranclE)
  then have "acyclic (child_edge ((i, node) # teams))"
    using inv by (simp add: child_edge_Cons acyclic_insert team_inv_def)
  with inv fresh par show ?thesis by (auto simp: team_inv_def)
qed

lemma createTeam_shape:
  assumes "createTeam teams i p = Some teams'"
  obtains node where "teams' = (i, node) # teams" "i \<notin> fst ` set teams" "tn_Parent node = p"
    "p = [] \<or> p \<in> fst ` set teams"
proof (cases "p = []")
  case True
  with assms that show ?thesis by (auto simp: createTeam_def split: if_splits)
next
  case False
  with assms obtain parent where "map_of teams p = Some parent"
    by (auto simp: createTeam_def split: option.splits)
  moreover from this have "p \<in> fst ` set teams" by (metis domI dom_map_of_conv_image_fst)
  ultimately show ?thesis using False assms that
    by (simp add: createTeam_def Let_def split: if_splits) force+
qed

lemma createTeam_inv:
  assumes "team_inv teams" "createTeam teams i p = Some teams'" "i \<noteq> []"
  shows "team_inv teams'"
  using assms by (auto elim!: createTeam_shape intro!: team_inv_insert)

lemma deleteTeam_inv:
  assumes "team_inv teams" "deleteTeam builtIn teams i = Some teams'"
  shows "team_inv teams'"
proof -
  have t: "teams' = filter (\<lambda>(j, node). j \<noteq> i) teams"
    and nochild: "\<And>j node. (j, node) \<in> set teams \<Longrightarrow> tn_Parent node \<noteq> i"
    using assms(2) by (auto simp: deleteTeam_def split: if_splits)
  have "acyclic (child_edge teams')"
    using assms(1) child_edge_filter unfolding t team_inv_def by (blast intro: acyclic_subset)
  moreover have "\<forall>(j, node) \<in> set teams'. j \<noteq> [] \<and> (tn_Parent node = [] \<or> tn_Parent node \<in> fst ` set teams')"
  proof clarify
    fix j node
    assume "(j, node) \<in> set teams'"
    then have jn: "(j, node) \<in> set teams" by (simp add: t)
    with assms(1) have "j \<noteq> []" and par: "tn_Parent node = [] \<or> tn_Parent node \<in> fst ` set teams"
      by (auto simp: team_inv_def)
    moreover have "tn_Parent node \<in> fst ` set teams'" if "tn_Parent node \<in> fst ` set teams"
      using that nochild [OF jn] by (auto simp: t image_iff)
    ultimately show "j \<noteq> [] \<and> (tn_Parent node = [] \<or> tn_Parent node \<in> fst ` set teams')" by blast
  qed
  ultimately show ?thesis by (simp add: team_inv_def)
qed

lemma team_reachable_inv: "team_reachable teams \<Longrightarrow> team_inv teams"
proof (induction rule: team_reachable.induct)
  case start
  show ?case by (simp add: team_inv_def child_edge_def children_of_def acyclic_def)
next
  case (step teams teams')
  then show ?case by (auto elim!: team_stepE intro: createTeam_inv deleteTeam_inv)
qed

lemma acyclic_build_returns:
  assumes "acyclic (child_edge teams)"
  shows "\<exists>ctx. BuildRetrievalContext dep user roles own teams rules now = Some ctx"
proof -
  have r: "\<exists>ids. subtreeIDs t teams = Some ids" for t
    using assms by (simp add: subtreeIDs_returns_iff acyclic_def)
  obtain o1 where o1: "own_loop teams own [] = Some o1" using loops_return(1) [OF r] by blast
  obtain exps reason allowed where
    g: "grant_loop \<lparr>ss_UserID = user, ss_RoleIDs = roles, ss_TeamIDs = own\<rparr> now rules ([], [], [])
        = (exps, reason, allowed)"
    by (metis prod_cases3)
  obtain out where "expand_loop teams exps (uniqueSorted o1) = Some out"
    using loops_return(2) [OF r] by blast
  with o1 g show ?thesis by (simp add: BuildRetrievalContext_def)
qed

section \<open>Properties\<close>

text \<open>
  (C2) The decision a policy enforcement point reads off the computed context is the one the rule
  layers specify: a reference is allowed exactly when it names a kind and an identifier, no active
  deny rule names it, and it is a team in the subtree of an own or granted team or an active grant
  names it. Deny precedence and default deny are consequences.
\<close>

theorem data_scope_decision_refines:
  assumes "BuildRetrievalContext dep user roles own teams rules now = Some ctx"
  shows "Allows ctx ref \<longleftrightarrow> rr_Kind ref \<noteq> [] \<and> rr_ID ref \<noteq> [] \<and>
     \<not> scope_denied \<lparr>ss_UserID = user, ss_RoleIDs = roles, ss_TeamIDs = own\<rparr> now rules ref \<and>
     scope_granted teams \<lparr>ss_UserID = user, ss_RoleIDs = roles, ss_TeamIDs = own\<rparr> now rules ref"
  using assms by (rule build_context_allows)

definition demo_teams :: team_map where
  "demo_teams = [(''b'', \<lparr>tn_ID = ''b'', tn_Parent = ''a'', tn_Path = ''/a/b''\<rparr>),
                 (''a'', \<lparr>tn_ID = ''a'', tn_Parent = [], tn_Path = ''/a''\<rparr>)]"

definition demo_rule :: ScopeRule where
  "demo_rule = \<lparr>sr_ID = ''r1'', sr_RuleKind = ''explicit_deny'', sr_SubjectType = ''user'',
     sr_SubjectID = ''u'', sr_ResourceKind = ''team'', sr_ResourceID = ''b'',
     sr_StartsAt = None, sr_ExpiresAt = Some 10\<rparr>"

definition demo_context :: RetrievalContext where
  "demo_context = \<lparr>rc_PrincipalID = ''u'', rc_DeploymentID = ''d'', rc_OrgScope = [''a'', ''b''],
     rc_OwnTeamIDs = [''a''], rc_RoleScope = [], rc_AllowedResources = [],
     rc_DeniedResources = [\<lparr>rr_Kind = ''team'', rr_ID = ''b''\<rparr>], rc_CrossDepartmentReason = []\<rparr>"

lemma demo_subtree: "subtreeIDs ''a'' demo_teams = Some [''a'', ''b'']"
  by (simp add: subtreeIDs_def subtree_loop.simps demo_teams_def children_of_def uniqueSorted_def)

lemma demo_build: "BuildRetrievalContext ''d'' ''u'' [] [''a''] demo_teams [demo_rule] 5 = Some demo_context"
  by (simp add: BuildRetrievalContext_def demo_subtree demo_rule_def demo_context_def ruleApplies_def
      ruleInWindow_def uniqueSorted_def uniqueResourceRefs_def)

theorem data_scope_decision_refines_witness:
  "Allows demo_context \<lparr>rr_Kind = ''team'', rr_ID = ''a''\<rparr>
   \<and> \<not> Allows demo_context \<lparr>rr_Kind = ''team'', rr_ID = ''b''\<rparr>
   \<and> scope_denied \<lparr>ss_UserID = ''u'', ss_RoleIDs = [], ss_TeamIDs = [''a'']\<rparr> 5 [demo_rule]
       \<lparr>rr_Kind = ''team'', rr_ID = ''b''\<rparr>
   \<and> scope_granted demo_teams \<lparr>ss_UserID = ''u'', ss_RoleIDs = [], ss_TeamIDs = [''a'']\<rparr> 5 [demo_rule]
       \<lparr>rr_Kind = ''team'', rr_ID = ''a''\<rparr>"
proof -
  have a: "Allows demo_context \<lparr>rr_Kind = ''team'', rr_ID = ''a''\<rparr>"
    by (simp add: Allows_def demo_context_def)
  have b: "\<not> Allows demo_context \<lparr>rr_Kind = ''team'', rr_ID = ''b''\<rparr>"
    by (simp add: Allows_def demo_context_def)
  have d: "scope_denied \<lparr>ss_UserID = ''u'', ss_RoleIDs = [], ss_TeamIDs = [''a'']\<rparr> 5 [demo_rule]
       \<lparr>rr_Kind = ''team'', rr_ID = ''b''\<rparr>"
    by (simp add: scope_denied_def demo_rule_def active_rule_def ruleApplies_def ruleInWindow_def)
  show ?thesis
    using a b d data_scope_decision_refines [OF demo_build] by blast
qed

text \<open>
  (C23) The walk below a team returns exactly when no cycle is reachable from it; the source has no
  visited set, so a cyclic parent chain would hang the request.
\<close>

theorem subtree_walk_returns_iff_acyclic:
  "(\<exists>ids. subtreeIDs t teams = Some ids) \<longleftrightarrow>
   \<not> (\<exists>x. (t, x) \<in> (child_edge teams)\<^sup>* \<and> (x, x) \<in> (child_edge teams)\<^sup>+)"
  using subtreeIDs_returns_iff by blast

text \<open>
  In every department tree that team creation and deletion can produce the retrieval context
  is computed: whatever the user, roles, own teams, rules and instant, the walk returns.
\<close>

theorem reachable_trees_give_a_context:
  assumes "team_reachable teams"
  shows "\<exists>ctx. BuildRetrievalContext dep user roles own teams rules now = Some ctx"
  using acyclic_build_returns team_reachable_inv [OF assms] by (auto simp: team_inv_def)

theorem reachable_trees_give_a_context_witness:
  "\<exists>ctx. BuildRetrievalContext ''d'' ''u'' [] [''a''] demo_teams [demo_rule] 5 = Some ctx"
proof -
  have "team_step [] [(''a'', \<lparr>tn_ID = ''a'', tn_Parent = [], tn_Path = ''/a''\<rparr>)]"
    by (rule team_step.create [of _ "''a''" "[]"]) (simp_all add: createTeam_def)
  moreover have "team_step [(''a'', \<lparr>tn_ID = ''a'', tn_Parent = [], tn_Path = ''/a''\<rparr>)] demo_teams"
    by (rule team_step.create [of _ "''b''" "''a''"]) (simp_all add: createTeam_def demo_teams_def)
  ultimately have "team_reachable demo_teams"
    by (blast intro: team_reachable.intros)
  then show ?thesis by (rule reachable_trees_give_a_context)
qed

text \<open>
  A returned subtree is sorted, free of repetitions, and holds exactly the team and its
  descendants (without the empty root marker).
\<close>

theorem subtree_is_the_descendants:
  assumes "subtreeIDs t teams = Some ids"
  shows "sorted ids \<and> distinct ids \<and> set ids = {x. (t, x) \<in> (child_edge teams)\<^sup>*} - {[]}"
  using assms subtreeIDs_sorted subtreeIDs_set by blast

theorem subtree_is_the_descendants_witness:
  "subtreeIDs ''a'' demo_teams = Some [''a'', ''b''] \<and> (''a'', ''b'') \<in> (child_edge demo_teams)\<^sup>*"
  using demo_subtree subtree_is_the_descendants [OF demo_subtree] by auto

end
