(* ===== verification/Sessions.thy ===== *)
theory Sessions
  imports Admin_Access Data_Scope
begin

text \<open>
  User sessions: \<^verbatim>\<open>IssueUserSession\<close>, \<^verbatim>\<open>RefreshUserSession\<close> and the revocations of
  \<^verbatim>\<open>internal/app/app.go\<close>, and the handlers of \<^verbatim>\<open>internal/httpapi/auth_handlers.go\<close> and
  \<^verbatim>\<open>admin_sessions.go\<close> that call them. The tables are maps keyed by their primary keys; an
  environment record supplies clocks, identifiers, random bytes and the outcome of each statement, by the
  place in the code that asks for it.
\<close>

section \<open>Tables and environment\<close>

record refresh_row =
  rt_SessionID :: string
  rt_ExpiresAt :: time
  rt_RevokedAt :: "time option"

record delivery_row =
  cd_ID :: string
  cd_EventID :: string
  cd_SessionID :: string

record session_db =
  sd_sessions :: "string \<rightharpoonup> session_row"
  sd_tokens :: "string \<rightharpoonup> refresh_row"
  sd_deliveries :: "delivery_row list"

record event_row =
  ev_ID :: string
  ev_DeploymentID :: string
  ev_State :: string
  ev_ExpiresAt :: time
  ev_ScopeType :: string
  ev_ScopeID :: string
  ev_IncludeDescendants :: bool

record agent_profile =
  ap_Ephemeral :: bool
  ap_ExpiresAt :: "time option"

record session_env =
  se_lib :: jwt_lib
  se_service :: Service
  se_config :: deployment_config
  se_RefreshTTL :: duration
  se_AccessTTL :: duration
  se_ModelAccessTTL :: duration
  se_directory :: directory
  se_events :: "event_row list"
  se_profile :: "string \<Rightarrow> string \<Rightarrow> agent_profile option"
  se_clock :: "string \<Rightarrow> time"
  se_uuid :: "string \<Rightarrow> string"
  se_random :: "string option"
  se_ok :: "string \<Rightarrow> bool"

datatype app_error = ErrRefreshTokenInvalid | ErrSessionNotFound | ErrAgentExpired | ErrStore

record TokenResponse =
  tr_AccessToken :: string
  tr_RefreshToken :: string
  tr_ModelAccessToken :: string
  tr_ExpiresIn :: int
  tr_ModelAccessExpiresIn :: int
  tr_DeploymentID :: string
  tr_SessionID :: string
  tr_PasswordChangeRequired :: bool

text \<open>The field \<^const>\<open>app_DeploymentID\<close> is the value of \<^verbatim>\<open>App.DeploymentID\<close> for the configured
  identifiers.\<close>

definition deployment_of :: "string \<Rightarrow> string \<Rightarrow> deployment_config" where
  "deployment_of configured bootstrap =
     \<lparr> app_DeploymentID = (if configured \<noteq> [] then configured else bootstrap), BootstrapDeploymentID = bootstrap \<rparr>"

abbreviation App_DeploymentID :: "session_env \<Rightarrow> string" where
  "App_DeploymentID env \<equiv> app_DeploymentID (se_config env)"

text \<open>\<open>se_profile\<close> is \<^const>\<open>None\<close> when the profile is missing or cannot be read.\<close>

definition agentExpired :: "session_env \<Rightarrow> user_row \<Rightarrow> bool" where
  "agentExpired env user =
     (if u_Kind user \<noteq> ''agent'' then False
      else case se_profile env (u_DeploymentID user) (u_ID user) of
        None \<Rightarrow> False
      | Some profile \<Rightarrow>
          if \<not> ap_Ephemeral profile then False
          else case ap_ExpiresAt profile of None \<Rightarrow> False | Some e \<Rightarrow> \<not> se_clock env ''agent'' < e)"

section \<open>Control events of a new session\<close>

text \<open>The recursive query of the teams an event reaches. It follows \<^verbatim>\<open>parent_team_id\<close> and has no
  cycle check, so on a cyclic hierarchy the statement does not end by itself.\<close>

definition child_teams :: "directory \<Rightarrow> string \<Rightarrow> string \<Rightarrow> string list" where
  "child_teams d dep parent = [team_ID c. c \<leftarrow> d_teams d, team_DeploymentID c = dep \<and> team_ParentTeamID c = Some parent]"

definition event_teams :: "directory \<Rightarrow> string \<Rightarrow> event_row \<Rightarrow> string list option" where
  "event_teams d dep e = subtree_loop (child_teams d dep) [ev_ScopeID e] []"

definition event_live :: "time \<Rightarrow> string \<Rightarrow> event_row \<Rightarrow> bool" where
  "event_live now dep e \<longleftrightarrow> ev_DeploymentID e = dep \<and> ev_State e = ''active'' \<and> ev_ExpiresAt e > now"

definition event_addressed :: "directory \<Rightarrow> string \<Rightarrow> string \<Rightarrow> event_row \<Rightarrow> bool" where
  "event_addressed d dep user e \<longleftrightarrow>
     ev_ScopeType e = ''global'' \<or> (ev_ScopeType e = ''user'' \<and> ev_ScopeID e = user)
   \<or> (ev_ScopeType e = ''team''
      \<and> (if ev_IncludeDescendants e
         then (case event_teams d dep e of None \<Rightarrow> False
               | Some ts \<Rightarrow> list_ex (\<lambda>t. (dep, user, t) \<in> set (d_user_team_bindings d)) ts)
         else (dep, user, ev_ScopeID e) \<in> set (d_user_team_bindings d)))
   \<or> (ev_ScopeType e = ''role'' \<and> (dep, user, ev_ScopeID e) \<in> set (user_effective_roles d) \<and> enabled_role d dep (ev_ScopeID e))"

definition session_deliveries :: "session_env \<Rightarrow> string \<Rightarrow> string \<Rightarrow> delivery_row list option" where
  "session_deliveries env sessionID user =
     (let d = se_directory env; dep = App_DeploymentID env; now = se_clock env ''transaction'' in
      if list_ex (\<lambda>e. event_live now dep e \<and> ev_ScopeType e = ''team'' \<and> ev_IncludeDescendants e \<and> event_teams d dep e = None) (se_events env)
      then None
      else Some [\<lparr> cd_ID = se_uuid env (''delivery:'' @ ev_ID e), cd_EventID = ev_ID e, cd_SessionID = sessionID \<rparr>.
             e \<leftarrow> se_events env, event_live now dep e \<and> event_addressed d dep user e])"

section \<open>Issuing and refreshing\<close>

definition current_scopes :: "session_env \<Rightarrow> user_row \<Rightarrow> string list" where
  "current_scopes env user =
     (if u_RequirePasswordChange user then []
      else ModelScopes (se_directory env) (se_clock env ''scopes'') (u_DeploymentID user) (u_ID user))"

definition current_roles :: "session_env \<Rightarrow> user_row \<Rightarrow> string list" where
  "current_roles env user = EffectiveUserRoleIDs (se_directory env) (u_DeploymentID user) (u_ID user)"

definition session_tokens :: "session_env \<Rightarrow> user_row \<Rightarrow> string \<Rightarrow> string \<Rightarrow> (string \<times> string) option" where
  "session_tokens env user dep sessionID =
     IssueWithDeploymentSession (se_lib env) (se_service env) (se_clock env ''access'', se_uuid env ''access'') (se_clock env ''model'', se_uuid env ''model'')
       (u_ID user) dep sessionID (u_IsAdmin user) (u_RequirePasswordChange user) (current_roles env user) (current_scopes env user)"

definition token_response :: "session_env \<Rightarrow> user_row \<Rightarrow> string \<Rightarrow> string \<Rightarrow> string \<Rightarrow> string \<Rightarrow> string \<Rightarrow> TokenResponse" where
  "token_response env user access model refresh_token dep sessionID =
     \<lparr> tr_AccessToken = access, tr_RefreshToken = refresh_token, tr_ModelAccessToken = model, tr_ExpiresIn = go_div (se_AccessTTL env) second,
       tr_ModelAccessExpiresIn = go_div (se_ModelAccessTTL env) second, tr_DeploymentID = dep, tr_SessionID = sessionID,
       tr_PasswordChangeRequired = u_RequirePasswordChange user \<rparr>"

definition IssueUserSession :: "session_env \<Rightarrow> user_row \<Rightarrow> SessionClient \<Rightarrow> session_db \<Rightarrow> (app_error + TokenResponse) \<times> session_db" where
  "IssueUserSession env user client db =
     (if \<not> se_ok env ''database'' then (Inl ErrStore, db)
      else if agentExpired env user then (Inl ErrAgentExpired, db)
      else
       (let sessionID = se_uuid env ''session'';
            dep = App_DeploymentID env;
            topic = ''user:'' @ dep @ '':'' @ u_ID user in
        if \<not> se_ok env ''scopes'' \<or> \<not> se_ok env ''roles'' then (Inl ErrStore, db)
        else case session_tokens env user dep sessionID of
          None \<Rightarrow> (Inl ErrStore, db)
        | Some (access, model) \<Rightarrow>
           (case NewRefreshToken (se_random env) of
              None \<Rightarrow> (Inl ErrStore, db)
            | Some (refresh_token, refreshHash) \<Rightarrow>
               (let expires = pg_time (se_clock env ''expiry'' + se_RefreshTTL env);
                    row = \<lparr> s_DeploymentID = dep, s_UserID = u_ID user, s_Topic = topic, s_Client = client,
                            s_LastSeenAt = se_clock env ''transaction'', s_RevokedAt = None \<rparr> in
                if \<not> se_ok env ''begin'' \<or> \<not> se_ok env ''insert session'' \<or> sd_sessions db sessionID \<noteq> None then (Inl ErrStore, db)
                else if \<not> se_ok env ''insert token'' \<or> sd_tokens db refreshHash \<noteq> None then (Inl ErrStore, db)
                else case session_deliveries env sessionID (u_ID user) of
                  None \<Rightarrow> (Inl ErrStore, db)
                | Some ds \<Rightarrow>
                    if \<not> se_ok env ''insert deliveries'' \<or> \<not> se_ok env ''commit'' then (Inl ErrStore, db)
                    else (Inr (token_response env user access model refresh_token dep sessionID),
                          db \<lparr> sd_sessions := (sd_sessions db)(sessionID \<mapsto> row),
                               sd_tokens := (sd_tokens db)(refreshHash \<mapsto> \<lparr> rt_SessionID = sessionID, rt_ExpiresAt = expires, rt_RevokedAt = None \<rparr>),
                               sd_deliveries := sd_deliveries db @ ds \<rparr>)))))"

text \<open>The joined row of a refresh token: token, session and user.\<close>

definition refresh_lookup :: "session_env \<Rightarrow> string \<Rightarrow> session_db \<Rightarrow> (refresh_row \<times> session_row \<times> user_row) option" where
  "refresh_lookup env hash db =
     (case sd_tokens db hash of
        None \<Rightarrow> None
      | Some t \<Rightarrow>
         (case sd_sessions db (rt_SessionID t) of
            None \<Rightarrow> None
          | Some s \<Rightarrow> map_option (\<lambda>u. (t, s, u)) (find (\<lambda>u. u_ID u = s_UserID s) (d_users (se_directory env)))))"

definition RefreshUserSession :: "session_env \<Rightarrow> string \<Rightarrow> string \<Rightarrow> session_db \<Rightarrow> (app_error + TokenResponse) \<times> session_db" where
  "RefreshUserSession env rawToken requestedSessionID db =
     (if \<not> se_ok env ''database'' then (Inl ErrStore, db)
      else
       (let hash = HashRefreshToken rawToken in
        if \<not> se_ok env ''begin'' then (Inl ErrStore, db)
        else case (if se_ok env ''lookup'' then refresh_lookup env hash db else None) of
          None \<Rightarrow> (Inl ErrRefreshTokenInvalid, db)
        | Some (t, s, user) \<Rightarrow>
           (let sessionID = rt_SessionID t in
            if rt_RevokedAt t \<noteq> None \<or> s_RevokedAt s \<noteq> None \<or> se_clock env ''refresh'' > rt_ExpiresAt t
               \<or> (requestedSessionID \<noteq> [] \<and> requestedSessionID \<noteq> sessionID) then (Inl ErrRefreshTokenInvalid, db)
            else if u_Status user \<noteq> ''active'' then (Inl ErrRefreshTokenInvalid, db)
            else if agentExpired env user then (Inl ErrAgentExpired, db)
            else if \<not> se_ok env ''scopes'' \<or> \<not> se_ok env ''roles'' then (Inl ErrStore, db)
            else case session_tokens env user (s_DeploymentID s) sessionID of
              None \<Rightarrow> (Inl ErrStore, db)
            | Some (access, model) \<Rightarrow>
               (case NewRefreshToken (se_random env) of
                  None \<Rightarrow> (Inl ErrStore, db)
                | Some (refresh_token, newHash) \<Rightarrow>
                   (let tokens1 = (sd_tokens db)(hash \<mapsto> t \<lparr> rt_RevokedAt := Some (se_clock env ''transaction'') \<rparr>);
                        newExpires = pg_time (se_clock env ''expiry'' + se_RefreshTTL env) in
                    if \<not> se_ok env ''revoke token'' \<or> \<not> se_ok env ''insert token'' \<or> tokens1 newHash \<noteq> None then (Inl ErrStore, db)
                    else if \<not> se_ok env ''touch session'' \<or> \<not> se_ok env ''commit'' then (Inl ErrStore, db)
                    else (Inr (token_response env user access model refresh_token (s_DeploymentID s) sessionID),
                          db \<lparr> sd_tokens := tokens1(newHash \<mapsto> \<lparr> rt_SessionID = sessionID, rt_ExpiresAt = newExpires, rt_RevokedAt = None \<rparr>),
                               sd_sessions := (sd_sessions db)(sessionID \<mapsto> s \<lparr> s_LastSeenAt := se_clock env ''transaction'' \<rparr>) \<rparr>))))))"

section \<open>Revoking\<close>

definition revoke_session :: "time \<Rightarrow> session_row \<Rightarrow> session_row" where
  "revoke_session now s = s \<lparr> s_RevokedAt := Some now \<rparr>"

definition revoke_token :: "time \<Rightarrow> refresh_row \<Rightarrow> refresh_row" where
  "revoke_token now t = t \<lparr> rt_RevokedAt := Some now \<rparr>"

text \<open>\<^verbatim>\<open>logout\<close>: two statements without a transaction.\<close>

definition RevokeUserSession :: "session_env \<Rightarrow> string \<Rightarrow> string \<Rightarrow> session_db \<Rightarrow> (app_error + unit) \<times> session_db" where
  "RevokeUserSession env rawToken sessionID db =
     (if \<not> se_ok env ''database'' then (Inr (), db)
      else
       (let hash = HashRefreshToken rawToken in
        if sessionID = [] then (Inr (), db)
        else if \<not> se_ok env ''revoke token'' then (Inl ErrStore, db)
        else
         (let db1 = db \<lparr> sd_tokens := (\<lambda>h. map_option (\<lambda>t. if h = hash \<and> rt_SessionID t = sessionID
                                   then revoke_token (se_clock env ''revoke token'') t else t) (sd_tokens db h)) \<rparr> in
          if \<not> se_ok env ''revoke session'' then (Inl ErrStore, db1)
          else (Inr (), db1 \<lparr> sd_sessions := (\<lambda>k. map_option (\<lambda>s. if k = sessionID
                                   then revoke_session (se_clock env ''revoke session'') s else s) (sd_sessions db1 k)) \<rparr>))))"

definition RevokeUserSessionByID :: "session_env \<Rightarrow> string \<Rightarrow> string \<Rightarrow> session_db \<Rightarrow> (app_error + unit) \<times> session_db" where
  "RevokeUserSessionByID env deploymentID sessionID db =
     (if \<not> se_ok env ''database'' then (Inr (), db)
      else if deploymentID = [] \<or> sessionID = [] then (Inl ErrSessionNotFound, db)
      else if \<not> se_ok env ''begin'' \<or> \<not> se_ok env ''exists'' then (Inl ErrStore, db)
      else if \<not> (case sd_sessions db sessionID of None \<Rightarrow> False | Some s \<Rightarrow> s_DeploymentID s = deploymentID) then (Inl ErrSessionNotFound, db)
      else
       (let now = se_clock env ''transaction'';
            tokens1 = (\<lambda>h. map_option (\<lambda>t. if rt_SessionID t = sessionID \<and> rt_RevokedAt t = None then revoke_token now t else t) (sd_tokens db h));
            sessions1 = (\<lambda>k. map_option (\<lambda>s. if k = sessionID \<and> s_DeploymentID s = deploymentID \<and> s_RevokedAt s = None
                                         then revoke_session now s else s) (sd_sessions db k)) in
        if \<not> se_ok env ''revoke token'' \<or> \<not> se_ok env ''revoke session'' \<or> \<not> se_ok env ''commit'' then (Inl ErrStore, db)
        else (Inr (), db \<lparr> sd_tokens := tokens1, sd_sessions := sessions1 \<rparr>)))"

definition RevokeUserSessionSet :: "session_env \<Rightarrow> string \<Rightarrow> session_db \<Rightarrow> (app_error + unit) \<times> session_db" where
  "RevokeUserSessionSet env userID db =
     (if \<not> se_ok env ''database'' then (Inr (), db)
      else if \<not> se_ok env ''revoke token'' then (Inl ErrStore, db)
      else
       (let db1 = db \<lparr> sd_tokens := (\<lambda>h. map_option (\<lambda>t. if (case sd_sessions db (rt_SessionID t) of None \<Rightarrow> False | Some s \<Rightarrow> s_UserID s = userID)
                                   \<and> rt_RevokedAt t = None then revoke_token (se_clock env ''revoke token'') t else t) (sd_tokens db h)) \<rparr> in
        if \<not> se_ok env ''revoke session'' then (Inl ErrStore, db1)
        else (Inr (), db1 \<lparr> sd_sessions := (\<lambda>k. map_option (\<lambda>s. if s_UserID s = userID \<and> s_RevokedAt s = None
                                 then revoke_session (se_clock env ''revoke session'') s else s) (sd_sessions db1 k)) \<rparr>)))"

section \<open>Handlers\<close>

datatype 't answer = Answered 't | Problem_of int string

definition refreshSession :: "session_env \<Rightarrow> (string \<times> string) option \<Rightarrow> session_db \<Rightarrow> TokenResponse answer \<times> session_db" where
  "refreshSession env body db =
     (case body of
        None \<Rightarrow> (Problem_of 400 ''INVALID_REQUEST'', db)
      | Some (refresh_token, sessionID) \<Rightarrow>
         (case RefreshUserSession env refresh_token sessionID db of
            (Inl ErrRefreshTokenInvalid, db1) \<Rightarrow> (Problem_of 401 ''REFRESH_TOKEN_INVALID'', db1)
          | (Inl ErrAgentExpired, db1) \<Rightarrow> (Problem_of 403 ''AGENT_EXPIRED'', db1)
          | (Inl _, db1) \<Rightarrow> (Problem_of 500 ''INTERNAL_ERROR'', db1)
          | (Inr tokens, db1) \<Rightarrow> (Answered tokens, db1)))"

definition logout :: "session_env \<Rightarrow> Claims \<Rightarrow> string option \<Rightarrow> session_db \<Rightarrow> unit answer \<times> session_db" where
  "logout env claims body db =
     (case body of
        None \<Rightarrow> (Problem_of 400 ''INVALID_REQUEST'', db)
      | Some refresh_token \<Rightarrow>
         (case RevokeUserSession env refresh_token (tc_SessionID claims) db of
            (Inl _, db1) \<Rightarrow> (Problem_of 500 ''INTERNAL_ERROR'', db1)
          | (Inr _, db1) \<Rightarrow> (Answered (), db1)))"

definition revokeUserSession :: "session_env \<Rightarrow> Claims \<Rightarrow> string \<Rightarrow> session_db \<Rightarrow> unit answer \<times> session_db" where
  "revokeUserSession env claims sessionID db =
     (case RevokeUserSessionByID env (tc_DeploymentID claims) sessionID db of
        (Inl ErrSessionNotFound, db1) \<Rightarrow> (Problem_of 404 ''RESOURCE_NOT_FOUND'', db1)
      | (Inl _, db1) \<Rightarrow> (Problem_of 500 ''INTERNAL_ERROR'', db1)
      | (Inr _, db1) \<Rightarrow> (Answered (), db1))"

definition UpdatePassword :: "string \<Rightarrow> string \<Rightarrow> string \<Rightarrow> bool \<Rightarrow> user_row list \<Rightarrow> user_row list option" where
  "UpdatePassword dep i passwordHash requirePasswordChange users =
     (if \<not> list_ex (\<lambda>u. u_DeploymentID u = dep \<and> u_ID u = i) users then None
      else Some (map (\<lambda>u. if u_DeploymentID u = dep \<and> u_ID u = i
                 then u \<lparr> u_PasswordHash := passwordHash, u_RequirePasswordChange := requirePasswordChange \<rparr> else u) users))"

text \<open>The handler returns the answer with the users, the session tables and whether the change was
  recorded in the authentication audit.\<close>

definition changePassword ::
  "session_env \<Rightarrow> idkey \<Rightarrow> string option \<Rightarrow> SessionClient \<Rightarrow> Claims \<Rightarrow> (string \<times> string) option \<Rightarrow> user_row list \<Rightarrow> session_db
     \<Rightarrow> TokenResponse answer \<times> user_row list \<times> session_db \<times> bool" where
  "changePassword env idkey salt client claims body users db =
     (case body of
        None \<Rightarrow> (Problem_of 400 ''INVALID_REQUEST'', users, db, False)
      | Some (currentPassword0, newPassword) \<Rightarrow>
         (let currentPassword = TrimPassword currentPassword0 in
          if EdgeWhitespace newPassword \<or> ValidatePassword newPassword \<noteq> None then (Problem_of 400 ''PASSWORD_POLICY_VIOLATION'', users, db, False)
          else case resolveTenant (se_config env) (tc_DeploymentID claims) of
            None \<Rightarrow> (Problem_of 401 ''INVALID_TOKEN'', users, db, False)
          | Some deploymentID \<Rightarrow>
             (case (if se_ok env ''user'' then find (\<lambda>u. u_DeploymentID u = deploymentID \<and> u_ID u = tc_Subject claims) users else None) of
                None \<Rightarrow> (Problem_of 401 ''INVALID_CREDENTIALS'', users, db, False)
              | Some user \<Rightarrow>
                  if currentPassword \<noteq> [] \<and> \<not> VerifyPassword idkey (u_PasswordHash user) currentPassword
                  then (Problem_of 401 ''INVALID_CREDENTIALS'', users, db, False)
                  else case HashPassword idkey salt newPassword of
                    Inl _ \<Rightarrow> (Problem_of 500 ''INTERNAL_ERROR'', users, db, False)
                  | Inr hash \<Rightarrow>
                     (case (if se_ok env ''update password'' then UpdatePassword (u_DeploymentID user) (u_ID user) hash False users else None) of
                        None \<Rightarrow> (Problem_of 500 ''INTERNAL_ERROR'', users, db, False)
                      | Some users1 \<Rightarrow>
                         (case RevokeUserSessionSet env (u_ID user) db of
                            (Inl _, db1) \<Rightarrow> (Problem_of 500 ''INTERNAL_ERROR'', users1, db1, False)
                          | (Inr _, db1) \<Rightarrow>
                             (case IssueUserSession env (user \<lparr> u_RequirePasswordChange := False \<rparr>) client db1 of
                                (Inl _, db2) \<Rightarrow> (Problem_of 500 ''INTERNAL_ERROR'', users1, db2, False)
                              | (Inr tokens, db2) \<Rightarrow> (Answered tokens, users1, db2, True)))))))"

section \<open>Sessions over time\<close>

text \<open>One step is one call; \<open>P\<close> restricts the environments it may run in.\<close>

inductive session_step :: "(session_env \<Rightarrow> bool) \<Rightarrow> session_db \<Rightarrow> session_db \<Rightarrow> bool" for P where
  issue: "P env \<Longrightarrow> session_step P db (snd (IssueUserSession env user client db))"
| refresh: "P env \<Longrightarrow> session_step P db (snd (RefreshUserSession env raw requested db))"
| logout: "P env \<Longrightarrow> session_step P db (snd (RevokeUserSession env raw sid db))"
| revoke: "P env \<Longrightarrow> session_step P db (snd (RevokeUserSessionByID env dep sid db))"
| revoke_all: "P env \<Longrightarrow> session_step P db (snd (RevokeUserSessionSet env uid db))"

inductive_cases session_stepE: "session_step P db db'"

text \<open>A property that every step keeps is kept by every run.\<close>

locale stable =
  fixes step :: "'s \<Rightarrow> 's \<Rightarrow> bool" and keeps :: "'s \<Rightarrow> bool"
  assumes step_keeps: "step s t \<Longrightarrow> keeps s \<Longrightarrow> keeps t"
begin

lemma run_keeps: "step\<^sup>*\<^sup>* s t \<Longrightarrow> keeps s \<Longrightarrow> keeps t"
  by (induction rule: rtranclp_induct) (auto intro: step_keeps)

end

definition dead_token :: "string \<Rightarrow> session_db \<Rightarrow> bool" where
  "dead_token h db \<longleftrightarrow> (case sd_tokens db h of None \<Rightarrow> True | Some t \<Rightarrow> rt_RevokedAt t \<noteq> None)"

definition dead_session :: "string \<Rightarrow> session_db \<Rightarrow> bool" where
  "dead_session sid db \<longleftrightarrow> (case sd_sessions db sid of None \<Rightarrow> True | Some s \<Rightarrow> s_RevokedAt s \<noteq> None)"

definition draws_other_token :: "string \<Rightarrow> session_env \<Rightarrow> bool" where
  "draws_other_token raw env \<longleftrightarrow> (\<forall>b. se_random env = Some b \<longrightarrow> base64url b \<noteq> raw \<and> \<not> sha_collision (base64url b) raw)"

definition draws_other_session :: "string \<Rightarrow> session_env \<Rightarrow> bool" where
  "draws_other_session sid env \<longleftrightarrow> se_uuid env ''session'' \<noteq> sid"

lemma HashRefreshToken_eqD: "HashRefreshToken x = HashRefreshToken y \<Longrightarrow> x = y \<or> sha_collision x y"
  unfolding HashRefreshToken_def by (rule sha_url_eqD)

text \<open>What a successful call does to the tables.\<close>

lemma IssueUserSession_cases:
  assumes "IssueUserSession env user client db = (r, db1)"
  obtains (unchanged) e where "r = Inl e" "db1 = db"
  | (issued) access model b ds where
      "session_tokens env user (App_DeploymentID env) (se_uuid env ''session'') = Some (access, model)" "se_random env = Some b"
      "sd_sessions db (se_uuid env ''session'') = None" "sd_tokens db (HashRefreshToken (base64url b)) = None" "\<not> agentExpired env user"
      "r = Inr (token_response env user access model (base64url b) (App_DeploymentID env) (se_uuid env ''session''))"
      "db1 = db \<lparr> sd_sessions := (sd_sessions db)(se_uuid env ''session'' \<mapsto> \<lparr> s_DeploymentID = App_DeploymentID env, s_UserID = u_ID user,
            s_Topic = ''user:'' @ App_DeploymentID env @ '':'' @ u_ID user, s_Client = client, s_LastSeenAt = se_clock env ''transaction'', s_RevokedAt = None \<rparr>),
          sd_tokens := (sd_tokens db)(HashRefreshToken (base64url b) \<mapsto> \<lparr> rt_SessionID = se_uuid env ''session'',
            rt_ExpiresAt = pg_time (se_clock env ''expiry'' + se_RefreshTTL env), rt_RevokedAt = None \<rparr>),
          sd_deliveries := sd_deliveries db @ ds \<rparr>"
proof (cases r)
  case (Inl e)
  then have "db1 = db" using assms unfolding IssueUserSession_def
    by (auto simp: Let_def split: if_splits option.splits prod.splits)
  with Inl unchanged show thesis by blast
next
  case (Inr tr)
  then obtain access model b ds where tk: "session_tokens env user (App_DeploymentID env) (se_uuid env ''session'') = Some (access, model)"
    "se_random env = Some b" and ds: "session_deliveries env (se_uuid env ''session'') (u_ID user) = Some ds"
    using assms unfolding IssueUserSession_def NewRefreshToken_def by (auto simp: Let_def split: if_splits option.splits prod.splits)
  show thesis
    by (rule issued [OF tk])
      (use assms Inr in \<open>auto simp: IssueUserSession_def NewRefreshToken_def tk ds Let_def split: if_splits\<close>)
qed

lemma RefreshUserSession_cases:
  assumes "RefreshUserSession env raw requested db = (r, db1)"
  obtains (unchanged) e where "r = Inl e" "db1 = db"
  | (rotated) t s user access model b where
      "sd_tokens db (HashRefreshToken raw) = Some t" "sd_sessions db (rt_SessionID t) = Some s"
      "find (\<lambda>u. u_ID u = s_UserID s) (d_users (se_directory env)) = Some user" "rt_RevokedAt t = None" "s_RevokedAt s = None"
      "se_clock env ''refresh'' \<le> rt_ExpiresAt t" "requested = [] \<or> requested = rt_SessionID t" "u_Status user = ''active''"
      "\<not> agentExpired env user" "session_tokens env user (s_DeploymentID s) (rt_SessionID t) = Some (access, model)"
      "se_random env = Some b" "HashRefreshToken (base64url b) \<noteq> HashRefreshToken raw" "sd_tokens db (HashRefreshToken (base64url b)) = None"
      "r = Inr (token_response env user access model (base64url b) (s_DeploymentID s) (rt_SessionID t))"
      "db1 = db \<lparr> sd_tokens := (sd_tokens db)(HashRefreshToken raw \<mapsto> t \<lparr> rt_RevokedAt := Some (se_clock env ''transaction'') \<rparr>,
            HashRefreshToken (base64url b) \<mapsto> \<lparr> rt_SessionID = rt_SessionID t, rt_ExpiresAt = pg_time (se_clock env ''expiry'' + se_RefreshTTL env), rt_RevokedAt = None \<rparr>),
          sd_sessions := (sd_sessions db)(rt_SessionID t \<mapsto> s \<lparr> s_LastSeenAt := se_clock env ''transaction'' \<rparr>) \<rparr>"
proof (cases r)
    case (Inl e)
    then have "db1 = db" using assms unfolding RefreshUserSession_def
      by (auto simp: Let_def split: if_splits option.splits prod.splits)
    with Inl unchanged show thesis by blast
  next
    case (Inr tr)
    then obtain t s user where l: "refresh_lookup env (HashRefreshToken raw) db = Some (t, s, user)"
      using assms unfolding RefreshUserSession_def by (auto simp: Let_def split: if_splits option.splits)
    have lk: "sd_tokens db (HashRefreshToken raw) = Some t" "sd_sessions db (rt_SessionID t) = Some s"
      "find (\<lambda>u. u_ID u = s_UserID s) (d_users (se_directory env)) = Some user"
      using l by (auto simp: refresh_lookup_def split: option.splits)
    obtain access model b where tk: "session_tokens env user (s_DeploymentID s) (rt_SessionID t) = Some (access, model)" "se_random env = Some b"
      using assms Inr l unfolding RefreshUserSession_def NewRefreshToken_def by (auto simp: Let_def split: if_splits option.splits prod.splits)
    show thesis
      by (rule rotated [OF lk _ _ _ _ _ _ tk])
        (use assms Inr in \<open>auto simp: RefreshUserSession_def NewRefreshToken_def l tk Let_def split: if_splits\<close>)
qed

lemma dead_token_iff: "dead_token h db \<longleftrightarrow> (\<forall>t. sd_tokens db h = Some t \<longrightarrow> rt_RevokedAt t \<noteq> None)"
  by (auto simp: dead_token_def split: option.splits)

lemma dead_session_iff: "dead_session sid db \<longleftrightarrow> (\<forall>s. sd_sessions db sid = Some s \<longrightarrow> s_RevokedAt s \<noteq> None)"
  by (auto simp: dead_session_def split: option.splits)

text \<open>A revocation changes rows pointwise and never clears a mark.\<close>

definition only_revokes :: "session_db \<Rightarrow> session_db \<Rightarrow> bool" where
  "only_revokes db db1 \<longleftrightarrow>
     (\<forall>h t. sd_tokens db1 h = Some t \<longrightarrow> (\<exists>t0. sd_tokens db h = Some t0 \<and> (t = t0 \<or> rt_RevokedAt t \<noteq> None)))
   \<and> (\<forall>k s. sd_sessions db1 k = Some s \<longrightarrow> (\<exists>s0. sd_sessions db k = Some s0 \<and> (s = s0 \<or> s_RevokedAt s \<noteq> None)))"

lemma only_revokes_refl: "only_revokes db db" by (simp add: only_revokes_def)

lemma revocations_only_revoke:
  "only_revokes db (snd (RevokeUserSession env raw sid db))"
  "only_revokes db (snd (RevokeUserSessionByID env dep sid db))"
  "only_revokes db (snd (RevokeUserSessionSet env uid db))"
  unfolding RevokeUserSession_def RevokeUserSessionByID_def RevokeUserSessionSet_def Let_def only_revokes_def
  by (auto simp: revoke_token_def revoke_session_def)

lemma only_revokes_dead:
  assumes "only_revokes db db1"
  shows "dead_token h db \<Longrightarrow> dead_token h db1" "dead_session k db \<Longrightarrow> dead_session k db1"
  using assms unfolding only_revokes_def dead_token_iff dead_session_iff by blast+

lemma issue_dead:
  "draws_other_token raw env \<Longrightarrow> dead_token (HashRefreshToken raw) db \<Longrightarrow> dead_token (HashRefreshToken raw) (snd (IssueUserSession env user client db))"
  "draws_other_session sid env \<Longrightarrow> dead_session sid db \<Longrightarrow> dead_session sid (snd (IssueUserSession env user client db))"
proof -
  obtain r db1 where run: "IssueUserSession env user client db = (r, db1)" by force
  show "dead_token (HashRefreshToken raw) (snd (IssueUserSession env user client db))"
    if "draws_other_token raw env" "dead_token (HashRefreshToken raw) db"
  proof -
    have "dead_token (HashRefreshToken raw) db1"
      using run that by (cases rule: IssueUserSession_cases) (auto simp: dead_token_iff draws_other_token_def dest: HashRefreshToken_eqD HashRefreshToken_eqD [OF sym])
    with run show ?thesis by simp
  qed
  show "dead_session sid (snd (IssueUserSession env user client db))"
    if "draws_other_session sid env" "dead_session sid db"
  proof -
    have "dead_session sid db1"
      using run that by (cases rule: IssueUserSession_cases) (auto simp: dead_session_iff draws_other_session_def)
    with run show ?thesis by simp
  qed
qed

lemma refresh_dead:
  "draws_other_token raw env \<Longrightarrow> dead_token (HashRefreshToken raw) db \<Longrightarrow> dead_token (HashRefreshToken raw) (snd (RefreshUserSession env raw' requested db))"
  "dead_session sid db \<Longrightarrow> dead_session sid (snd (RefreshUserSession env raw' requested db))"
proof -
  obtain r db1 where run: "RefreshUserSession env raw' requested db = (r, db1)" by force
  show "dead_token (HashRefreshToken raw) (snd (RefreshUserSession env raw' requested db))"
    if "draws_other_token raw env" "dead_token (HashRefreshToken raw) db"
  proof -
    have "dead_token (HashRefreshToken raw) db1"
      using run that by (cases rule: RefreshUserSession_cases) (auto simp: dead_token_iff draws_other_token_def dest: HashRefreshToken_eqD HashRefreshToken_eqD [OF sym] split: if_splits)
    with run show ?thesis by simp
  qed
  show "dead_session sid (snd (RefreshUserSession env raw' requested db))" if "dead_session sid db"
  proof -
    have "dead_session sid db1" using run that by (cases rule: RefreshUserSession_cases) (auto simp: dead_session_iff)
    with run show ?thesis by simp
  qed
qed

interpretation dead_token_run: stable "session_step (draws_other_token raw)" "dead_token (HashRefreshToken raw)" for raw
  by unfold_locales (auto elim!: session_stepE intro: issue_dead refresh_dead only_revokes_dead revocations_only_revoke)

interpretation dead_session_run: stable "session_step (draws_other_session sid)" "dead_session sid" for sid
  by unfold_locales (auto elim!: session_stepE intro: issue_dead refresh_dead only_revokes_dead revocations_only_revoke)

lemma refresh_needs_live_token:
  assumes "dead_token (HashRefreshToken raw) db"
  shows "\<exists>e. RefreshUserSession env raw requested db = (Inl e, db)"
    "(\<forall>q. se_ok env q) \<Longrightarrow> RefreshUserSession env raw requested db = (Inl ErrRefreshTokenInvalid, db)"
proof -
  obtain r db1 where run: "RefreshUserSession env raw requested db = (r, db1)" by force
  then have "(\<exists>e. r = Inl e) \<and> db1 = db"
    using assms by (cases rule: RefreshUserSession_cases) (auto simp: dead_token_iff)
  with run show "\<exists>e. RefreshUserSession env raw requested db = (Inl e, db)" by auto
  show "RefreshUserSession env raw requested db = (Inl ErrRefreshTokenInvalid, db)" if "\<forall>q. se_ok env q"
    using assms that unfolding RefreshUserSession_def refresh_lookup_def dead_token_iff
    by (auto simp: Let_def split: option.splits)
qed

lemma refresh_needs_live_session:
  assumes "RefreshUserSession env raw requested db = (Inr tr, db1)"
  shows "\<not> dead_session (tr_SessionID tr) db"
  using assms by (cases rule: RefreshUserSession_cases) (auto simp: dead_session_iff token_response_def)

lemma validate_needs_live_session:
  "ValidateAccessSession ok d (sd_sessions db) dep user sid = Inr st \<Longrightarrow> \<not> dead_session sid db"
  by (auto simp: ValidateAccessSession_def dead_session_iff Let_def split: if_splits option.splits)

lemma revocations_kill:
  assumes "se_ok env ''database''" "sid \<noteq> []"
  shows "RevokeUserSession env raw sid db = (Inr (), db1) \<Longrightarrow> dead_session sid db1"
    "RevokeUserSessionByID env dep sid db = (Inr (), db1) \<Longrightarrow> dead_session sid db1"
    "RevokeUserSessionSet env uid db = (Inr (), db1) \<Longrightarrow> sd_sessions db sid = Some s \<Longrightarrow> s_UserID s = uid \<Longrightarrow> dead_session sid db1"
  using assms
  by (auto simp: RevokeUserSession_def RevokeUserSessionByID_def RevokeUserSessionSet_def Let_def dead_session_iff revoke_session_def
      split: if_splits option.splits)

text \<open>The grants a token may carry: an enabled model of the deployment with an assignment that has not
  expired, made to the user, to an enabled role the user holds, or to an enabled team of the user.\<close>

definition model_granted :: "directory \<Rightarrow> time \<Rightarrow> string \<Rightarrow> string \<Rightarrow> string \<Rightarrow> bool" where
  "model_granted d now dep user m \<longleftrightarrow>
     (\<exists>x \<in> set (d_models d). m_DeploymentID x = dep \<and> m_ID x = m \<and> m_Enabled x)
   \<and> (\<exists>u \<in> set (d_users d). u_ID u = user \<and> u_DeploymentID u = dep)
   \<and> (\<exists>ma \<in> set (d_model_assignments d). ma_DeploymentID ma = dep \<and> ma_ModelID ma = m
        \<and> (\<forall>e. ma_ExpiresAt ma = Some e \<longrightarrow> now < e)
        \<and> (ma_SubjectType ma = ''user'' \<and> ma_SubjectID ma = user
         \<or> ma_SubjectType ma = ''role'' \<and> holds_role d dep user (ma_SubjectID ma)
         \<or> ma_SubjectType ma = ''team'' \<and> (dep, user, ma_SubjectID ma) \<in> set (d_user_team_bindings d) \<and> enabled_team d dep (ma_SubjectID ma)))"

lemma ModelScopes_iff: "m \<in> set (ModelScopes d now dep user) \<longleftrightarrow> model_granted d now dep user m"
proof -
  have "m \<in> set (ModelScopes d now dep user) \<longleftrightarrow>
      (\<exists>x \<in> set (d_models d). m_DeploymentID x = dep \<and> m_ID x = m \<and> m_Enabled x)
    \<and> (\<exists>u \<in> set (d_users d). u_ID u = user \<and> u_DeploymentID u = dep)
    \<and> (\<exists>ma \<in> set (d_model_assignments d). ma_DeploymentID ma = dep \<and> ma_ModelID ma = m \<and> assigned d now dep user ma)"
    unfolding ModelScopes_def by auto
  moreover have "assigned d now dep user ma \<longleftrightarrow> (\<forall>e. ma_ExpiresAt ma = Some e \<longrightarrow> now < e)
        \<and> (ma_SubjectType ma = ''user'' \<and> ma_SubjectID ma = user
         \<or> ma_SubjectType ma = ''role'' \<and> holds_role d dep user (ma_SubjectID ma)
         \<or> ma_SubjectType ma = ''team'' \<and> (dep, user, ma_SubjectID ma) \<in> set (d_user_team_bindings d) \<and> enabled_team d dep (ma_SubjectID ma))" for ma
    unfolding assigned_def effective_roles_iff holds_role_def by (auto split: option.splits)
  ultimately show ?thesis unfolding model_granted_def by simp
qed

lemma current_scopes_iff:
  "m \<in> set (current_scopes env user) \<longleftrightarrow> \<not> u_RequirePasswordChange user
     \<and> model_granted (se_directory env) (se_clock env ''scopes'') (u_DeploymentID user) (u_ID user) m"
  by (simp add: current_scopes_def ModelScopes_iff)

text \<open>The model token of a session carries the scopes of the moment.\<close>

lemma session_tokens_scopes:
  assumes laws: "jwt_laws (se_lib env)" and out: "session_tokens env user dep sid = Some (access, model)"
    and utf: "list_all json_text ([sv_issuer (se_service env), u_ID user, dep, sid, se_uuid env ''model''] @ current_scopes env user)"
  shows "\<exists>c. carried_claims (se_lib env) model = Some c \<and> tc_ModelScopes c = current_scopes env user \<and> tc_Subject c = u_ID user
    \<and> tc_SessionID c = sid \<and> tc_TokenUse c = ''model'' \<and> \<not> tc_Admin c"
proof -
  have lits: "json_text []" "json_text ''model''" "json_text ''model-gateway''" by (rule json_ascii, simp add: byte_def)+
  obtain c where c: "jl_sign (se_lib env) (sv_private (se_service env)) (sv_keyID (se_service env)) c = Some model" "claims_text c"
    and f: "tc_ModelScopes c = current_scopes env user" "tc_Subject c = u_ID user" "tc_SessionID c = sid" "tc_TokenUse c = ''model''" "\<not> tc_Admin c"
    using out utf lits
    by (fastforce simp: session_tokens_def IssueWithDeploymentSession_def issue_def sign_def claims_text_def split: option.splits)
  from jwt_signed(1) [OF laws c(2,1)] f show ?thesis by (auto simp: carried_claims_def)
qed

section \<open>A concrete session\<close>

definition session_user :: "string \<Rightarrow> user_row" where
  "session_user kind = demo_user \<lparr> u_IsAdmin := True, u_Kind := kind \<rparr>"

definition demo_session_env :: "string \<Rightarrow> string \<Rightarrow> (string \<Rightarrow> string \<Rightarrow> agent_profile option) \<Rightarrow> session_env" where
  "demo_session_env dep kind profile = \<lparr> se_lib = demo_jwt [(''A'', (demo_token ''aep'' ''aep-control'' True) \<lparr> tc_DeploymentID := dep \<rparr>),
       (''M'', (demo_token ''model'' ''model-gateway'' False) \<lparr> tc_DeploymentID := dep \<rparr>)],
     se_service = demo_service, se_config = deployment_of dep ''acme'', se_RefreshTTL = hour, se_AccessTTL = 900 * second, se_ModelAccessTTL = 900 * second,
     se_directory = (demo_directory ''roles.read'') \<lparr> d_users := [session_user kind], d_team_default_roles := [] \<rparr>, se_events = [],
     se_profile = profile, se_clock = (\<lambda>_. 0), se_uuid = (\<lambda>q. if q = ''session'' then ''s1'' else ''i''), se_random = Some ''r1'', se_ok = (\<lambda>_. True) \<rparr>"

abbreviation empty_db :: session_db where
  "empty_db \<equiv> \<lparr> sd_sessions = (\<lambda>_. None), sd_tokens = (\<lambda>_. None), sd_deliveries = [] \<rparr>"

abbreviation no_client :: SessionClient where
  "no_client \<equiv> \<lparr> sc_Name = None, sc_Version = None, sc_DeviceID = None \<rparr>"

lemma demo_no_roles: "user_effective_roles (se_directory (demo_session_env dep kind profile)) = []"
  by (simp add: user_effective_roles_def demo_session_env_def demo_directory_def)

lemma demo_scopes: "current_scopes (demo_session_env dep kind profile) (session_user kind) = []"
  "current_roles (demo_session_env dep kind profile) (session_user kind) = []"
  by (simp_all add: current_scopes_def current_roles_def ModelScopes_def EffectiveUserRoleIDs_def assigned_def demo_no_roles)
    (simp_all add: demo_session_env_def demo_directory_def session_user_def demo_user_def assigned_def user_effective_roles_def)

lemma demo_app: "dep \<noteq> [] \<Longrightarrow> App_DeploymentID (demo_session_env dep kind profile) = dep"
  by (simp add: demo_session_env_def deployment_of_def)

lemma demo_session_tokens:
  "dep \<noteq> [] \<Longrightarrow> session_tokens (demo_session_env dep kind profile) (session_user kind) dep ''s1'' = Some (''A'', ''M'')"
  by (simp add: session_tokens_def demo_scopes)
    (simp add: demo_session_env_def IssueWithDeploymentSession_def issue_def sign_def demo_jwt_def demo_token_def demo_service_def session_user_def demo_user_def)

lemma demo_env_fields:
  "se_ok (demo_session_env dep kind profile) q" "se_random (demo_session_env dep kind profile) = Some ''r1''"
  "se_clock (demo_session_env dep kind profile) q = 0" "se_RefreshTTL (demo_session_env dep kind profile) = hour"
  by (simp_all add: demo_session_env_def)

lemma demo_issue:
  assumes "dep \<noteq> []" "\<not> agentExpired (demo_session_env dep kind profile) (session_user kind)"
  shows "\<exists>tr db1. IssueUserSession (demo_session_env dep kind profile) (session_user kind) no_client empty_db = (Inr tr, db1)
    \<and> tr_DeploymentID tr = dep \<and> tr_SessionID tr = ''s1'' \<and> tr_ModelAccessToken tr = ''M'' \<and> tr_RefreshToken tr = base64url ''r1''
    \<and> sd_tokens db1 (HashRefreshToken (base64url ''r1'')) = Some \<lparr> rt_SessionID = ''s1'', rt_ExpiresAt = pg_time hour, rt_RevokedAt = None \<rparr>
    \<and> sd_sessions db1 ''s1'' = Some \<lparr> s_DeploymentID = dep, s_UserID = ''bob'', s_Topic = ''user:'' @ dep @ '':bob'', s_Client = no_client,
         s_LastSeenAt = 0, s_RevokedAt = None \<rparr>"
proof -
  have u: "se_uuid (demo_session_env dep kind profile) ''session'' = ''s1''" "u_ID (session_user kind) = ''bob''"
    by (simp_all add: demo_session_env_def session_user_def demo_user_def)
  have "session_deliveries (demo_session_env dep kind profile) ''s1'' ''bob'' = Some []"
    by (simp add: session_deliveries_def demo_session_env_def)
  then show ?thesis
    using assms(2)
    by (simp add: IssueUserSession_def demo_app [OF assms(1)] u demo_session_tokens [OF assms(1)] NewRefreshToken_def Let_def
        demo_env_fields token_response_def)
qed

lemma demo_human: "\<not> agentExpired (demo_session_env dep ''human'' profile) (session_user ''human'')"
  by (simp add: agentExpired_def session_user_def)

section \<open>Properties\<close>

text \<open>
  \<^bold>\<open>A refresh token works once (C5).\<close> Once a refresh token has been exchanged, or its session logged out
  with it, no later refresh with it succeeds, whatever logins, refreshes and revocations happen in
  between, as long as no later draw repeats the token or collides with it under SHA-256. The refresh
  handler answers 401 when the database answers, and the tables stay as they are.
\<close>

theorem refresh_token_single_use:
  assumes spent: "RefreshUserSession env raw requested db = (Inr tr, db1)
      \<or> (RevokeUserSession env raw sid db = (Inr (), db1) \<and> se_ok env ''database'' \<and> sid \<noteq> []
          \<and> sd_tokens db (HashRefreshToken raw) = Some t \<and> rt_SessionID t = sid)"
    and run: "(session_step (draws_other_token raw))\<^sup>*\<^sup>* db1 db2"
  shows "(\<exists>e. RefreshUserSession env' raw requested' db2 = (Inl e, db2))
    \<and> ((\<forall>q. se_ok env' q) \<longrightarrow> refreshSession env' (Some (raw, requested')) db2 = (Problem_of 401 ''REFRESH_TOKEN_INVALID'', db2))"
proof -
  have "dead_token (HashRefreshToken raw) db1" using spent
  proof (elim disjE conjE)
    assume "RefreshUserSession env raw requested db = (Inr tr, db1)"
    then show ?thesis by (cases rule: RefreshUserSession_cases) (auto simp: dead_token_iff)
  qed (auto simp: RevokeUserSession_def Let_def dead_token_iff revoke_token_def split: if_splits)
  then have d: "dead_token (HashRefreshToken raw) db2" by (rule dead_token_run.run_keeps [OF run])
  show ?thesis
    using refresh_needs_live_token(1) [OF d] refresh_needs_live_token(2) [OF d] by (simp add: refreshSession_def)
qed

theorem refresh_token_single_use_witness:
  "\<exists>(db :: session_db) db1 (t :: refresh_row). let env = demo_session_env ''acme'' ''human'' (\<lambda>_ _. None); raw = base64url ''r1'' in
     sd_tokens db (HashRefreshToken raw) = Some t \<and> rt_RevokedAt t = None
     \<and> RevokeUserSession env raw ''s1'' db = (Inr (), db1)
     \<and> refreshSession env (Some (raw, [])) db1 = (Problem_of 401 ''REFRESH_TOKEN_INVALID'', db1)"
proof -
  let ?env = "demo_session_env ''acme'' ''human'' (\<lambda>_ _. None)" and ?raw = "base64url ''r1''"
  let ?t = "\<lparr> rt_SessionID = ''s1'', rt_ExpiresAt = pg_time hour, rt_RevokedAt = None \<rparr>"
  obtain db :: session_db where db: "sd_tokens db (HashRefreshToken ?raw) = Some ?t"
    using demo_issue [of "''acme''" "''human''" "\<lambda>_ _. None", OF _ demo_human] by auto
  have ok: "\<forall>q. se_ok ?env q" by (simp add: demo_session_env_def)
  then obtain db1 where db1: "RevokeUserSession ?env ?raw ''s1'' db = (Inr (), db1)" by (simp add: RevokeUserSession_def Let_def)
  have "refreshSession ?env (Some (?raw, [])) db1 = (Problem_of 401 ''REFRESH_TOKEN_INVALID'', db1)"
    using refresh_token_single_use [of ?env ?raw undefined db undefined db1 "''s1''" ?t db1 ?env "[]"] db1 db ok by simp
  with db db1 show ?thesis unfolding Let_def by (intro exI [of _ db] exI [of _ db1] exI [of _ ?t]) simp
qed

text \<open>
  \<^bold>\<open>A revoked session stays dead (C10).\<close> After a logout, an administrator's revocation or the revocation
  of all sessions of its user has succeeded, the session is never accepted by the access check again and
  no refresh ever yields tokens for it, whatever happens in between, as long as no new session draws the
  same identifier.
\<close>

theorem revoked_session_stays_dead:
  assumes ok: "se_ok env ''database''" "sid \<noteq> []"
    and killed: "RevokeUserSession env raw sid db = (Inr (), db1) \<or> RevokeUserSessionByID env dep sid db = (Inr (), db1)
      \<or> RevokeUserSessionSet env (s_UserID s) db = (Inr (), db1) \<and> sd_sessions db sid = Some s"
    and run: "(session_step (draws_other_session sid))\<^sup>*\<^sup>* db1 db2"
  shows "ValidateAccessSession True d (sd_sessions db2) dep' user sid = Inl ErrAccessSessionInvalid
    \<and> (\<forall>env' raw' requested tr db3. RefreshUserSession env' raw' requested db2 = (Inr tr, db3) \<longrightarrow> tr_SessionID tr \<noteq> sid)"
proof -
  have "dead_session sid db1" using killed by (auto dest: revocations_kill [OF ok])
  then have d: "dead_session sid db2" by (rule dead_session_run.run_keeps [OF run])
  have "\<forall>st. ValidateAccessSession True d (sd_sessions db2) dep' user sid \<noteq> Inr st"
    using validate_needs_live_session d by blast
  moreover have "ValidateAccessSession True d (sd_sessions db2) dep' user sid \<noteq> Inl ErrDatabase"
    by (auto simp: ValidateAccessSession_def Let_def split: option.splits)
  ultimately have "ValidateAccessSession True d (sd_sessions db2) dep' user sid = Inl ErrAccessSessionInvalid"
    by (cases "ValidateAccessSession True d (sd_sessions db2) dep' user sid") (auto intro: session_error.exhaust)
  with refresh_needs_live_session d show ?thesis by blast
qed

theorem revoked_session_stays_dead_witness:
  "\<exists>(db :: session_db) db1. let env = demo_session_env ''acme'' ''human'' (\<lambda>_ _. None) in
     RevokeUserSessionByID env ''acme'' ''s1'' db = (Inr (), db1)
     \<and> ValidateAccessSession True (se_directory env) (sd_sessions db) ''acme'' ''bob'' ''s1'' = Inr \<lparr> as_Admin = True, as_PasswordChangeRequired = False \<rparr>
     \<and> ValidateAccessSession True (se_directory env) (sd_sessions db1) ''acme'' ''bob'' ''s1'' = Inl ErrAccessSessionInvalid"
proof -
  let ?env = "demo_session_env ''acme'' ''human'' (\<lambda>_ _. None)"
  obtain db :: session_db where db: "sd_sessions db ''s1'' = Some \<lparr> s_DeploymentID = ''acme'', s_UserID = ''bob'', s_Topic = ''user:'' @ ''acme'' @ '':bob'', s_Client = no_client,
         s_LastSeenAt = 0, s_RevokedAt = None \<rparr>"
    using demo_issue [of "''acme''" "''human''" "\<lambda>_ _. None", OF _ demo_human] by auto
  have ok: "\<forall>q. se_ok ?env q" by (simp add: demo_session_env_def)
  then obtain db1 where db1: "RevokeUserSessionByID ?env ''acme'' ''s1'' db = (Inr (), db1)" by (simp add: RevokeUserSessionByID_def Let_def db)
  have "ValidateAccessSession True (se_directory ?env) (sd_sessions db1) ''acme'' ''bob'' ''s1'' = Inl ErrAccessSessionInvalid"
    using revoked_session_stays_dead [of ?env "''s1''" undefined db db1 "''acme''" undefined db1 "se_directory ?env" "''acme''" "''bob''"] db1 ok by simp
  moreover have "ValidateAccessSession True (se_directory ?env) (sd_sessions db) ''acme'' ''bob'' ''s1'' = Inr \<lparr> as_Admin = True, as_PasswordChangeRequired = False \<rparr>"
    by (simp add: ValidateAccessSession_def db demo_session_env_def session_user_def demo_user_def)
  ultimately show ?thesis unfolding Let_def using db1 by (intro exI conjI)
qed

text \<open>
  \<^bold>\<open>Model tokens carry exactly the current grants.\<close> At login and at every refresh the model token
  is issued for the user and session at hand and its scopes are exactly the enabled models with an
  unexpired assignment to the user, to an enabled role the user holds or to an enabled team of the user;
  none at all while the password must be changed.
\<close>

theorem session_scopes_are_current_grants:
  assumes laws: "jwt_laws (se_lib env)"
    and out: "IssueUserSession env user client db = (Inr tr, db1)
      \<or> (RefreshUserSession env raw requested db = (Inr tr, db1)
         \<and> (\<exists>t s. sd_tokens db (HashRefreshToken raw) = Some t \<and> sd_sessions db (rt_SessionID t) = Some s
              \<and> find (\<lambda>u. u_ID u = s_UserID s) (d_users (se_directory env)) = Some user))"
    and utf: "list_all json_text ([sv_issuer (se_service env), u_ID user, tr_DeploymentID tr, tr_SessionID tr, se_uuid env ''model''] @ current_scopes env user)"
  shows "\<exists>c. carried_claims (se_lib env) (tr_ModelAccessToken tr) = Some c \<and> tc_Subject c = u_ID user \<and> tc_SessionID c = tr_SessionID tr
    \<and> (\<forall>m. m \<in> set (tc_ModelScopes c) \<longleftrightarrow> \<not> u_RequirePasswordChange user
          \<and> model_granted (se_directory env) (se_clock env ''scopes'') (u_DeploymentID user) (u_ID user) m)"
proof -
  have "\<exists>access. session_tokens env user (tr_DeploymentID tr) (tr_SessionID tr) = Some (access, tr_ModelAccessToken tr)"
    using out
  proof (elim disjE conjE exE)
    assume "IssueUserSession env user client db = (Inr tr, db1)"
    then show ?thesis by (cases rule: IssueUserSession_cases) (auto simp: token_response_def)
  next
    fix t s
    assume "RefreshUserSession env raw requested db = (Inr tr, db1)" "sd_tokens db (HashRefreshToken raw) = Some t"
      "sd_sessions db (rt_SessionID t) = Some s" "find (\<lambda>u. u_ID u = s_UserID s) (d_users (se_directory env)) = Some user"
    then show ?thesis by (cases rule: RefreshUserSession_cases) (auto simp: token_response_def)
  qed
  then show ?thesis using session_tokens_scopes [OF laws _ utf] current_scopes_iff by fastforce
qed

theorem session_scopes_are_current_grants_witness:
  "\<exists>(tr :: TokenResponse) (db1 :: session_db) (c :: Claims). let env = demo_session_env ''acme'' ''human'' (\<lambda>_ _. None) in
     IssueUserSession env (session_user ''human'') no_client empty_db = (Inr tr, db1)
     \<and> carried_claims (se_lib env) (tr_ModelAccessToken tr) = Some c \<and> tc_Subject c = ''bob''
     \<and> (''m1'' \<in> set (tc_ModelScopes c) \<longleftrightarrow> model_granted (se_directory env) 0 ''acme'' ''bob'' ''m1'')"
proof -
  let ?env = "demo_session_env ''acme'' ''human'' (\<lambda>_ _. None)"
  obtain tr :: TokenResponse and db1 :: session_db where i: "IssueUserSession ?env (session_user ''human'') no_client empty_db = (Inr tr, db1)" "tr_DeploymentID tr = ''acme''" "tr_SessionID tr = ''s1''"
    using demo_issue [of "''acme''" "''human''" "\<lambda>_ _. None", OF _ demo_human] by auto
  have laws: "jwt_laws (se_lib ?env)" unfolding demo_session_env_def by (simp add: demo_laws)
  have f: "u_ID (session_user ''human'') = ''bob''" "\<not> u_RequirePasswordChange (session_user ''human'')" "u_DeploymentID (session_user ''human'') = ''acme''"
    "se_clock ?env ''scopes'' = 0" "sv_issuer (se_service ?env) = ''iss''" "se_uuid ?env ''model'' = ''i''"
    by (simp_all add: session_user_def demo_user_def demo_session_env_def demo_service_def)
  have utf: "list_all json_text ([sv_issuer (se_service ?env), u_ID (session_user ''human''), tr_DeploymentID tr, tr_SessionID tr, se_uuid ?env ''model'']
      @ current_scopes ?env (session_user ''human''))"
    unfolding f i demo_scopes by (simp, intro conjI; rule json_ascii, simp add: byte_def)
  note t = session_scopes_are_current_grants [OF laws disjI1 [OF i(1)] utf, unfolded f]
  then obtain c :: Claims where "carried_claims (se_lib ?env) (tr_ModelAccessToken tr) = Some c" "tc_Subject c = ''bob''"
    "\<forall>m. m \<in> set (tc_ModelScopes c) \<longleftrightarrow> True \<and> model_granted (se_directory ?env) 0 ''acme'' ''bob'' m"
    by (elim exE conjE) (rule that, assumption+, use f(2) in simp)
  with i(1) show ?thesis unfolding Let_def by (intro exI [of _ tr] exI [of _ db1] exI [of _ c]) simp
qed

text \<open>
  \<^bold>\<open>An issued session is usable only in one deployment (C36).\<close> The access check accepts the session just
  issued to an active user exactly when the user's deployment is the configured one, with the user's
  administrator and password state; when the bootstrap deployment that holds the users is configured
  differently from the deployment, every session is refused as revoked as soon as it is issued.
\<close>

theorem issued_session_usable_iff_one_deployment:
  assumes out: "IssueUserSession env user client db = (Inr tr, db1)"
    and user: "user \<in> set (d_users (se_directory env))" "distinct (map u_ID (d_users (se_directory env)))" "u_Status user = ''active''"
    and ids: "u_ID user \<noteq> []" "App_DeploymentID env \<noteq> []" "se_uuid env ''session'' \<noteq> []"
  shows "ValidateAccessSession True (se_directory env) (sd_sessions db1) (tr_DeploymentID tr) (u_ID user) (tr_SessionID tr) =
    (if u_DeploymentID user = App_DeploymentID env
     then Inr \<lparr> as_Admin = u_IsAdmin user, as_PasswordChangeRequired = u_RequirePasswordChange user \<rparr>
     else Inl ErrAccessSessionInvalid)"
proof -
  have uniq: "u = user" if "u \<in> set (d_users (se_directory env))" "u_ID u = u_ID user" for u
    using that user(1,2) by (metis distinct_map inj_onD)
  have f: "find (\<lambda>u. u_DeploymentID u = App_DeploymentID env \<and> u_ID u = u_ID user) (d_users (se_directory env)) =
      (if u_DeploymentID user = App_DeploymentID env then Some user else None)"
  proof (cases "u_DeploymentID user = App_DeploymentID env")
    case True
    then obtain u where u: "find (\<lambda>u. u_DeploymentID u = App_DeploymentID env \<and> u_ID u = u_ID user) (d_users (se_directory env)) = Some u"
      using user(1) by (cases "find (\<lambda>u. u_DeploymentID u = App_DeploymentID env \<and> u_ID u = u_ID user) (d_users (se_directory env))")
        (auto simp: find_None_iff)
    then have "u = user" by (intro uniq) (auto simp: find_Some_iff)
    with u True show ?thesis by simp
  next
    case False
    then show ?thesis using uniq by (auto simp: find_None_iff)
  qed
  show ?thesis
    using out
    by (cases rule: IssueUserSession_cases) (use ids user(3) in \<open>simp_all add: ValidateAccessSession_def f token_response_def\<close>)
qed

theorem issued_session_usable_iff_one_deployment_witness:
  "\<exists>(tr :: TokenResponse) (db1 :: session_db). let env = demo_session_env ''new'' ''human'' (\<lambda>_ _. None) in
     IssueUserSession env (session_user ''human'') no_client empty_db = (Inr tr, db1)
     \<and> ValidateAccessSession True (se_directory env) (sd_sessions db1) (tr_DeploymentID tr) ''bob'' (tr_SessionID tr) = Inl ErrAccessSessionInvalid"
proof -
  let ?env = "demo_session_env ''new'' ''human'' (\<lambda>_ _. None)"
  obtain tr :: TokenResponse and db1 :: session_db where i: "IssueUserSession ?env (session_user ''human'') no_client empty_db = (Inr tr, db1)"
    using demo_issue [of "''new''" "''human''" "\<lambda>_ _. None", OF _ demo_human] by auto
  have f: "u_ID (session_user ''human'') = ''bob''" "u_DeploymentID (session_user ''human'') = ''acme''" "u_Status (session_user ''human'') = ''active''"
    "se_uuid ?env ''session'' = ''s1''" "d_users (se_directory ?env) = [session_user ''human'']"
    by (simp_all add: session_user_def demo_user_def demo_session_env_def)
  show ?thesis
    using issued_session_usable_iff_one_deployment [OF i] i unfolding f demo_app [of "''new''", simplified] Let_def by auto
qed


end
