(* ===== verification/Retention.thy ===== *)
theory Retention
  imports Sessions
begin

text \<open>
  Retention cleanup (\<^verbatim>\<open>internal/app/retention.go\<close>): one transaction that deletes, table by table, a
  bounded batch of the oldest rows whose retention has passed. Tables are lists of rows with their keys;
  \<open>ok\<close> says which statements the database carries out. Foreign keys with \<^verbatim>\<open>ON DELETE CASCADE\<close> are
  part of the deletions of sessions and control events.
\<close>

section \<open>One batch\<close>

text \<open>\<^verbatim>\<open>DELETE ... WHERE key IN (SELECT key ... WHERE due ORDER BY at LIMIT batch)\<close>.\<close>

definition sweep :: "nat \<Rightarrow> ('r \<Rightarrow> bool) \<Rightarrow> ('r \<Rightarrow> time) \<Rightarrow> ('r \<Rightarrow> string) \<Rightarrow> 'r list \<Rightarrow> nat \<times> 'r list" where
  "sweep batch due stamp ky rows =
     (let victims = map ky (take batch (sort_key stamp (filter due rows))) in
      (length (filter (\<lambda>r. ky r \<in> set victims) rows), filter (\<lambda>r. ky r \<notin> set victims) rows))"

record aged_row =
  ag_Key :: string
  ag_At :: time

record delivery_state =
  ds_ID :: string
  ds_EventID :: string
  ds_SessionID :: string
  ds_State :: string
  ds_UpdatedAt :: time

record event_state =
  es_ID :: string
  es_State :: string
  es_CreatedAt :: time
  es_ExpiresAt :: time

record retention_db =
  rd_authentication_audit :: "aged_row list"
  rd_credential_audit :: "aged_row list"
  rd_license_audit :: "aged_row list"
  rd_admin_audit :: "aged_row list"
  rd_telemetry :: "aged_row list"
  rd_skill_sync :: "aged_row list"
  rd_deliveries :: "delivery_state list"
  rd_events :: "event_state list"
  rd_tokens :: "(string \<times> refresh_row) list"
  rd_sessions :: "(string \<times> session_row) list"
  rd_rate_limits :: "(string \<times> rate_row) list"
  rd_skill_assignments :: "(string \<times> time option) list"
  rd_model_assignments :: "(string \<times> time option) list"
  rd_credential_assignments :: "(string \<times> time option) list"
  rd_data_scope_rules :: "(string \<times> time option) list"

record RetentionResult =
  rr_LockAcquired :: bool
  rr_AuthenticationAudit :: nat
  rr_CredentialResolutionAudit :: nat
  rr_LicenseAudit :: nat
  rr_AdminAudit :: nat
  rr_Telemetry :: nat
  rr_SkillSync :: nat
  rr_ControlDeliveries :: nat
  rr_ControlEvents :: nat
  rr_SessionTokens :: nat
  rr_Sessions :: nat
  rr_LoginRateLimits :: nat
  rr_ExpiredAssignments :: nat

definition no_result :: "bool \<Rightarrow> RetentionResult" where
  "no_result lock = \<lparr> rr_LockAcquired = lock, rr_AuthenticationAudit = 0, rr_CredentialResolutionAudit = 0, rr_LicenseAudit = 0, rr_AdminAudit = 0,
     rr_Telemetry = 0, rr_SkillSync = 0, rr_ControlDeliveries = 0, rr_ControlEvents = 0, rr_SessionTokens = 0, rr_Sessions = 0,
     rr_LoginRateLimits = 0, rr_ExpiredAssignments = 0 \<rparr>"

definition Total :: "RetentionResult \<Rightarrow> nat" where
  "Total result = rr_AuthenticationAudit result + rr_CredentialResolutionAudit result + rr_LicenseAudit result
     + rr_AdminAudit result + rr_Telemetry result + rr_SkillSync result + rr_ControlDeliveries result + rr_ControlEvents result
     + rr_SessionTokens result + rr_Sessions result + rr_LoginRateLimits result + rr_ExpiredAssignments result"

record retention_config =
  rc_BatchSize :: int
  rc_AuditRetention :: duration
  rc_TelemetryRetention :: duration
  rc_OperationalRetention :: duration
  rc_LoginFailureWindow :: duration
  rc_LoginBackoffMax :: duration

section \<open>Which rows are due\<close>

definition aged_due :: "time \<Rightarrow> aged_row \<Rightarrow> bool" where
  "aged_due cutoff r \<longleftrightarrow> ag_At r < cutoff"

definition delivery_due :: "time \<Rightarrow> delivery_state \<Rightarrow> bool" where
  "delivery_due cutoff r \<longleftrightarrow> ds_State r \<in> {''succeeded'', ''expired'', ''superseded''} \<and> ds_UpdatedAt r < cutoff"

definition event_due :: "time \<Rightarrow> time \<Rightarrow> event_state \<Rightarrow> bool" where
  "event_due cutoff now r \<longleftrightarrow> (es_State r \<noteq> ''active'' \<or> es_ExpiresAt r < now) \<and> max (es_CreatedAt r) (es_ExpiresAt r) < cutoff"

definition token_due :: "time \<Rightarrow> string \<times> refresh_row \<Rightarrow> bool" where
  "token_due cutoff = (\<lambda>(_, t). rt_ExpiresAt t < cutoff \<or> (case rt_RevokedAt t of None \<Rightarrow> False | Some r \<Rightarrow> r < cutoff))"

definition token_at :: "string \<times> refresh_row \<Rightarrow> time" where
  "token_at = (\<lambda>(_, t). min (rt_ExpiresAt t) (case rt_RevokedAt t of None \<Rightarrow> rt_ExpiresAt t | Some r \<Rightarrow> r))"

definition session_at :: "string \<times> session_row \<Rightarrow> time" where
  "session_at = (\<lambda>(_, s). max (s_LastSeenAt s) (case s_RevokedAt s of None \<Rightarrow> s_LastSeenAt s | Some r \<Rightarrow> r))"

definition live_refresh :: "time \<Rightarrow> (string \<times> refresh_row) list \<Rightarrow> string \<Rightarrow> bool" where
  "live_refresh now tokens sid = list_ex (\<lambda>(_, t). rt_SessionID t = sid \<and> rt_RevokedAt t = None \<and> rt_ExpiresAt t > now) tokens"

definition session_due :: "time \<Rightarrow> time \<Rightarrow> (string \<times> refresh_row) list \<Rightarrow> string \<times> session_row \<Rightarrow> bool" where
  "session_due cutoff now tokens r \<longleftrightarrow> session_at r < cutoff \<and> (s_RevokedAt (snd r) \<noteq> None \<or> \<not> live_refresh now tokens (fst r))"

definition rate_due :: "time \<Rightarrow> string \<times> rate_row \<Rightarrow> bool" where
  "rate_due cutoff = (\<lambda>(_, r). updated_at r < cutoff)"

definition grant_due :: "time \<Rightarrow> string \<times> time option \<Rightarrow> bool" where
  "grant_due now = (\<lambda>(_, e). case e of None \<Rightarrow> False | Some t \<Rightarrow> t < now)"

definition grant_at :: "string \<times> time option \<Rightarrow> time" where
  "grant_at = (\<lambda>(_, e). case e of None \<Rightarrow> 0 | Some t \<Rightarrow> t)"

section \<open>The cleanup transaction\<close>

definition audit_phase :: "(string \<Rightarrow> bool) \<Rightarrow> retention_config \<Rightarrow> time \<Rightarrow> RetentionResult \<times> retention_db \<Rightarrow> (RetentionResult \<times> retention_db) option" where
  "audit_phase ok cfg now = (\<lambda>(result, db).
     if \<not> rc_AuditRetention cfg > 0 then Some (result, db)
     else
      (let cutoff = now - rc_AuditRetention cfg; batch = nat (rc_BatchSize cfg);
           (n1, t1) = sweep batch (aged_due cutoff) ag_At ag_Key (rd_authentication_audit db);
           (n2, t2) = sweep batch (aged_due cutoff) ag_At ag_Key (rd_credential_audit db);
           (n3, t3) = sweep batch (aged_due cutoff) ag_At ag_Key (rd_license_audit db);
           (n4, t4) = sweep batch (aged_due cutoff) ag_At ag_Key (rd_admin_audit db) in
       if ok ''authentication audit'' \<and> ok ''credential resolution audit'' \<and> ok ''license audit'' \<and> ok ''administrative audit''
       then Some (result \<lparr> rr_AuthenticationAudit := n1, rr_CredentialResolutionAudit := n2, rr_LicenseAudit := n3, rr_AdminAudit := n4 \<rparr>,
                  db \<lparr> rd_authentication_audit := t1, rd_credential_audit := t2, rd_license_audit := t3, rd_admin_audit := t4 \<rparr>)
       else None))"

definition telemetry_phase :: "(string \<Rightarrow> bool) \<Rightarrow> retention_config \<Rightarrow> time \<Rightarrow> RetentionResult \<times> retention_db \<Rightarrow> (RetentionResult \<times> retention_db) option" where
  "telemetry_phase ok cfg now = (\<lambda>(result, db).
     if \<not> rc_TelemetryRetention cfg > 0 then Some (result, db)
     else
      (let cutoff = now - rc_TelemetryRetention cfg; batch = nat (rc_BatchSize cfg);
           (n1, t1) = sweep batch (aged_due cutoff) ag_At ag_Key (rd_telemetry db);
           (n2, t2) = sweep batch (aged_due cutoff) ag_At ag_Key (rd_skill_sync db) in
       if ok ''telemetry'' \<and> ok ''Skill sync''
       then Some (result \<lparr> rr_Telemetry := n1, rr_SkillSync := n2 \<rparr>, db \<lparr> rd_telemetry := t1, rd_skill_sync := t2 \<rparr>)
       else None))"

text \<open>Deliveries follow their control event and their session, tokens follow their session.\<close>

definition operational_phase :: "(string \<Rightarrow> bool) \<Rightarrow> retention_config \<Rightarrow> time \<Rightarrow> RetentionResult \<times> retention_db \<Rightarrow> (RetentionResult \<times> retention_db) option" where
  "operational_phase ok cfg now = (\<lambda>(result, db).
     if \<not> rc_OperationalRetention cfg > 0 then Some (result, db)
     else
      (let cutoff = now - rc_OperationalRetention cfg; batch = nat (rc_BatchSize cfg);
           (n1, deliveries1) = sweep batch (delivery_due cutoff) ds_UpdatedAt ds_ID (rd_deliveries db);
           (n2, events1) = sweep batch (event_due cutoff now) (\<lambda>e. max (es_CreatedAt e) (es_ExpiresAt e)) es_ID (rd_events db);
           deliveries2 = filter (\<lambda>d. ds_EventID d \<in> set (map es_ID events1)) deliveries1;
           (n3, tokens1) = sweep batch (token_due cutoff) token_at fst (rd_tokens db);
           (n4, sessions1) = sweep batch (session_due cutoff now tokens1) session_at fst (rd_sessions db);
           tokens2 = filter (\<lambda>(_, t). rt_SessionID t \<in> set (map fst sessions1)) tokens1;
           deliveries3 = filter (\<lambda>d. ds_SessionID d \<in> set (map fst sessions1)) deliveries2 in
       if ok ''control deliveries'' \<and> ok ''control events'' \<and> ok ''session tokens'' \<and> ok ''sessions''
       then Some (result \<lparr> rr_ControlDeliveries := n1, rr_ControlEvents := n2, rr_SessionTokens := n3, rr_Sessions := n4 \<rparr>,
                  db \<lparr> rd_deliveries := deliveries3, rd_events := events1, rd_tokens := tokens2, rd_sessions := sessions1 \<rparr>)
       else None))"

definition login_phase :: "(string \<Rightarrow> bool) \<Rightarrow> retention_config \<Rightarrow> time \<Rightarrow> RetentionResult \<times> retention_db \<Rightarrow> (RetentionResult \<times> retention_db) option" where
  "login_phase ok cfg now = (\<lambda>(result, db).
     (let loginRetention = max (rc_LoginFailureWindow cfg) (rc_LoginBackoffMax cfg) in
      if \<not> loginRetention > 0 then Some (result, db)
      else
       (let (n1, t1) = sweep (nat (rc_BatchSize cfg)) (rate_due (now - loginRetention)) (\<lambda>(_, r). updated_at r) fst (rd_rate_limits db) in
        if ok ''login rate limits'' then Some (result \<lparr> rr_LoginRateLimits := n1 \<rparr>, db \<lparr> rd_rate_limits := t1 \<rparr>) else None)))"

definition assignment_phase :: "(string \<Rightarrow> bool) \<Rightarrow> retention_config \<Rightarrow> time \<Rightarrow> RetentionResult \<times> retention_db \<Rightarrow> (RetentionResult \<times> retention_db) option" where
  "assignment_phase ok cfg now = (\<lambda>(result, db).
     (let batch = nat (rc_BatchSize cfg);
          (n1, t1) = sweep batch (grant_due now) grant_at fst (rd_skill_assignments db);
          (n2, t2) = sweep batch (grant_due now) grant_at fst (rd_model_assignments db);
          (n3, t3) = sweep batch (grant_due now) grant_at fst (rd_credential_assignments db);
          (n4, t4) = sweep batch (grant_due now) grant_at fst (rd_data_scope_rules db) in
      if ok ''expired skill_assignments'' \<and> ok ''expired model_assignments'' \<and> ok ''expired credential_assignments'' \<and> ok ''expired data_scope_rules''
      then Some (result \<lparr> rr_ExpiredAssignments := rr_ExpiredAssignments result + n1 + n2 + n3 + n4 \<rparr>,
                 db \<lparr> rd_skill_assignments := t1, rd_model_assignments := t2, rd_credential_assignments := t3, rd_data_scope_rules := t4 \<rparr>)
      else None))"

text \<open>\<open>lock\<close> is the outcome of \<^verbatim>\<open>pg_try_advisory_xact_lock\<close>. The result of a failed run is
  \<^const>\<open>None\<close>; the transaction is rolled back.\<close>

definition CleanupRetention :: "(string \<Rightarrow> bool) \<Rightarrow> bool \<Rightarrow> retention_config \<Rightarrow> time \<Rightarrow> retention_db \<Rightarrow> RetentionResult option \<times> retention_db" where
  "CleanupRetention ok lock cfg now db =
     (if \<not> ok ''database'' \<or> rc_BatchSize cfg \<le> 0 \<or> \<not> ok ''begin'' \<or> \<not> ok ''lock'' then (None, db)
      else if \<not> lock then (Some (no_result False), db)
      else case Option.bind (audit_phase ok cfg now (no_result True, db)) (\<lambda>s1.
                Option.bind (telemetry_phase ok cfg now s1) (\<lambda>s2.
                Option.bind (operational_phase ok cfg now s2) (\<lambda>s3.
                Option.bind (login_phase ok cfg now s3) (assignment_phase ok cfg now)))) of
        None \<Rightarrow> (None, db)
      | Some (result, db1) \<Rightarrow> if ok ''commit'' then (Some result, db1) else (None, db))"

section \<open>The contract of a sweep\<close>

text \<open>A cleaner removes due rows only, never adds one, and makes progress by a whole batch or empties the
  backlog.\<close>

locale cleaner =
  fixes clean :: "'r list \<Rightarrow> 'r list" and due :: "'r \<Rightarrow> bool" and inv :: "'r list \<Rightarrow> bool" and batch :: nat
  assumes inv: "inv rows \<Longrightarrow> inv (clean rows)"
    and keeps: "inv rows \<Longrightarrow> r \<in> set rows \<Longrightarrow> \<not> due r \<Longrightarrow> r \<in> set (clean rows)"
    and adds_nothing: "set (clean rows) \<subseteq> set rows"
    and progress: "inv rows \<Longrightarrow> length (filter due (clean rows)) = length (filter due rows) - batch"
begin

lemma rounds_inv: "inv rows \<Longrightarrow> inv ((clean ^^ n) rows)"
  by (induction n) (auto intro: inv)

lemma rounds_keep: "inv rows \<Longrightarrow> r \<in> set rows \<Longrightarrow> \<not> due r \<Longrightarrow> r \<in> set ((clean ^^ n) rows)"
  by (induction n) (auto intro: keeps rounds_inv)

lemma rounds_subset: "set ((clean ^^ n) rows) \<subseteq> set rows"
  using adds_nothing by (induction n) (auto dest: subsetD)

lemma rounds_progress: "inv rows \<Longrightarrow> length (filter due ((clean ^^ n) rows)) = length (filter due rows) - n * batch"
  by (induction n) (simp_all add: progress rounds_inv)

lemma rounds_finish:
  assumes "inv rows" "length (filter due rows) \<le> n * batch"
  shows "set ((clean ^^ n) rows) = {r \<in> set rows. \<not> due r}"
proof -
  have "filter due ((clean ^^ n) rows) = []" using rounds_progress [OF assms(1), of n] assms(2) by simp
  then have "\<forall>r \<in> set ((clean ^^ n) rows). \<not> due r" by (simp add: filter_empty_conv)
  then show ?thesis using rounds_keep [OF assms(1)] rounds_subset [of n rows] by blast
qed

end

lemma sweep_rows: "set (snd (sweep batch due stamp ky rows)) \<subseteq> set rows"
  by (auto simp: sweep_def Let_def)

lemma sweep_victims:
  assumes "distinct (map ky rows)"
  shows "snd (sweep batch due stamp ky rows) = filter (\<lambda>r. r \<notin> set (take batch (sort_key stamp (filter due rows)))) rows"
proof -
  let ?v = "take batch (sort_key stamp (filter due rows))"
  have v: "set ?v \<subseteq> set rows" by (auto dest: in_set_takeD)
  have "ky r \<in> ky ` set ?v \<longleftrightarrow> r \<in> set ?v" if "r \<in> set rows" for r
    using assms v that by (auto simp: distinct_map dest: inj_onD)
  then show ?thesis unfolding sweep_def Let_def by (auto intro: filter_cong)
qed

lemma sweep_kept: "distinct (map ky rows) \<Longrightarrow> r \<in> set rows \<Longrightarrow> \<not> due r \<Longrightarrow> r \<in> set (snd (sweep batch due stamp ky rows))"
  by (auto simp: sweep_victims dest: in_set_takeD)

lemma sweep_distinct: "distinct (map ky rows) \<Longrightarrow> distinct (map ky (snd (sweep batch due stamp ky rows)))"
  by (auto simp: sweep_def Let_def distinct_map intro: inj_on_subset)

lemma sweep_backlog:
  assumes "distinct (map ky rows)"
  shows "length (filter due (snd (sweep batch due stamp ky rows))) = length (filter due rows) - batch"
proof -
  let ?s = "sort_key stamp (filter due rows)"
  let ?v = "take batch ?s"
  have d: "distinct rows" using assms by (simp add: distinct_map)
  have "filter due (snd (sweep batch due stamp ky rows)) = filter (\<lambda>r. r \<notin> set ?v) (filter due rows)"
    unfolding sweep_victims [OF assms] by (simp add: conj_commute)
  then have "length (filter due (snd (sweep batch due stamp ky rows))) = card (set (filter due rows) - set ?v)"
    using d by (simp add: distinct_card [symmetric] set_diff_eq)
  also have "\<dots> = length (filter due rows) - length ?v"
  proof -
    have "set ?v \<subseteq> set (filter due rows)" "distinct ?v" using d by (auto dest: in_set_takeD)
    moreover have "card (set (filter due rows)) = length (filter due rows)" using d by (intro distinct_card) simp
    ultimately show ?thesis using distinct_card [of ?v] by (simp add: card_Diff_subset)
  qed
  finally show ?thesis by simp
qed

interpretation sweeps: cleaner "\<lambda>rows. snd (sweep batch due stamp ky rows)" due "\<lambda>rows. distinct (map ky rows)" batch for batch due stamp ky
  by unfold_locales (auto intro: sweep_distinct sweep_kept sweep_backlog dest: subsetD [OF sweep_rows])


section \<open>What a run does\<close>

definition keyed_tables :: "retention_db \<Rightarrow> bool" where
  "keyed_tables db \<longleftrightarrow> distinct (map ag_Key (rd_authentication_audit db)) \<and> distinct (map ag_Key (rd_telemetry db))
     \<and> distinct (map es_ID (rd_events db)) \<and> distinct (map fst (rd_tokens db)) \<and> distinct (map fst (rd_sessions db))
     \<and> distinct (map fst (rd_rate_limits db)) \<and> distinct (map fst (rd_model_assignments db))"

lemma CleanupRetention_cases:
  assumes "CleanupRetention ok lock cfg now db = (r, db1)"
  obtains (unchanged) "db1 = db"
  | (swept) s1 s2 s3 s4 result where "audit_phase ok cfg now (no_result True, db) = Some s1" "telemetry_phase ok cfg now s1 = Some s2"
      "operational_phase ok cfg now s2 = Some s3" "login_phase ok cfg now s3 = Some s4" "assignment_phase ok cfg now s4 = Some (result, db1)"
  using assms unfolding CleanupRetention_def by (auto split: if_splits option.splits prod.splits elim!: bind_eq_Some_conv [THEN iffD1, elim_format])

lemma audit_phase_frame:
  assumes "audit_phase ok cfg now s = Some s1"
  shows "rd_telemetry (snd s1) = rd_telemetry (snd s)" "rd_events (snd s1) = rd_events (snd s)" "rd_tokens (snd s1) = rd_tokens (snd s)"
    "rd_sessions (snd s1) = rd_sessions (snd s)" "rd_rate_limits (snd s1) = rd_rate_limits (snd s)" "rd_model_assignments (snd s1) = rd_model_assignments (snd s)"
    "0 < rc_AuditRetention cfg \<Longrightarrow> rd_authentication_audit (snd s1) =
       snd (sweep (nat (rc_BatchSize cfg)) (aged_due (now - rc_AuditRetention cfg)) ag_At ag_Key (rd_authentication_audit (snd s)))"
  using assms by (cases s; auto simp: audit_phase_def Let_def split: prod.splits if_splits)+

lemma telemetry_phase_frame:
  assumes "telemetry_phase ok cfg now s = Some s1"
  shows "rd_authentication_audit (snd s1) = rd_authentication_audit (snd s)" "rd_events (snd s1) = rd_events (snd s)" "rd_tokens (snd s1) = rd_tokens (snd s)"
    "rd_sessions (snd s1) = rd_sessions (snd s)" "rd_rate_limits (snd s1) = rd_rate_limits (snd s)" "rd_model_assignments (snd s1) = rd_model_assignments (snd s)"
  using assms by (cases s; auto simp: telemetry_phase_def Let_def split: prod.splits if_splits)+

lemma login_phase_frame:
  assumes "login_phase ok cfg now s = Some s1"
  shows "rd_authentication_audit (snd s1) = rd_authentication_audit (snd s)" "rd_events (snd s1) = rd_events (snd s)" "rd_tokens (snd s1) = rd_tokens (snd s)"
    "rd_sessions (snd s1) = rd_sessions (snd s)" "rd_model_assignments (snd s1) = rd_model_assignments (snd s)"
    "0 < max (rc_LoginFailureWindow cfg) (rc_LoginBackoffMax cfg) \<Longrightarrow> rd_rate_limits (snd s1) =
       snd (sweep (nat (rc_BatchSize cfg)) (rate_due (now - max (rc_LoginFailureWindow cfg) (rc_LoginBackoffMax cfg))) (\<lambda>(_, r). updated_at r) fst (rd_rate_limits (snd s)))"
    "\<not> 0 < max (rc_LoginFailureWindow cfg) (rc_LoginBackoffMax cfg) \<Longrightarrow> rd_rate_limits (snd s1) = rd_rate_limits (snd s)"
  using assms by (cases s; auto simp: login_phase_def Let_def split: prod.splits if_splits)+

lemma assignment_phase_frame:
  assumes "assignment_phase ok cfg now s = Some s1"
  shows "rd_authentication_audit (snd s1) = rd_authentication_audit (snd s)" "rd_events (snd s1) = rd_events (snd s)" "rd_tokens (snd s1) = rd_tokens (snd s)"
    "rd_sessions (snd s1) = rd_sessions (snd s)" "rd_rate_limits (snd s1) = rd_rate_limits (snd s)"
    "rd_model_assignments (snd s1) = snd (sweep (nat (rc_BatchSize cfg)) (grant_due now) grant_at fst (rd_model_assignments (snd s)))"
  using assms by (cases s; auto simp: assignment_phase_def Let_def split: prod.splits if_splits)+

lemma operational_phase_frame:
  assumes "operational_phase ok cfg now s = Some s1"
  shows "rd_authentication_audit (snd s1) = rd_authentication_audit (snd s)" "rd_rate_limits (snd s1) = rd_rate_limits (snd s)"
    "rd_model_assignments (snd s1) = rd_model_assignments (snd s)"
  using assms by (cases s; auto simp: operational_phase_def Let_def split: prod.splits if_splits)+

lemma operational_phase_keeps:
  assumes "operational_phase ok cfg now s = Some s1" "distinct (map es_ID (rd_events (snd s)))" "distinct (map fst (rd_tokens (snd s)))"
    "distinct (map fst (rd_sessions (snd s)))"
  shows "e \<in> set (rd_events (snd s)) \<Longrightarrow> es_State e = ''active'' \<Longrightarrow> now \<le> es_ExpiresAt e \<Longrightarrow> e \<in> set (rd_events (snd s1))"
    "(h, t) \<in> set (rd_tokens (snd s)) \<Longrightarrow> rt_RevokedAt t = None \<Longrightarrow> now < rt_ExpiresAt t \<Longrightarrow> (rt_SessionID t, x) \<in> set (rd_sessions (snd s))
      \<Longrightarrow> s_RevokedAt x = None \<Longrightarrow> (h, t) \<in> set (rd_tokens (snd s1)) \<and> (rt_SessionID t, x) \<in> set (rd_sessions (snd s1))"
proof -
  obtain result db where s: "s = (result, db)" by force
  show "e \<in> set (rd_events (snd s1))" if "e \<in> set (rd_events (snd s))" "es_State e = ''active''" "now \<le> es_ExpiresAt e"
    using assms(1,2) that sweep_kept [of es_ID "rd_events db" e "event_due (now - rc_OperationalRetention cfg) now" "nat (rc_BatchSize cfg)"
        "\<lambda>e. max (es_CreatedAt e) (es_ExpiresAt e)"]
    by (auto simp: s operational_phase_def Let_def event_due_def split: prod.splits if_splits)
  show "(h, t) \<in> set (rd_tokens (snd s1)) \<and> (rt_SessionID t, x) \<in> set (rd_sessions (snd s1))"
    if live: "(h, t) \<in> set (rd_tokens (snd s))" "rt_RevokedAt t = None" "now < rt_ExpiresAt t" "(rt_SessionID t, x) \<in> set (rd_sessions (snd s))" "s_RevokedAt x = None"
  proof (cases "rc_OperationalRetention cfg > 0")
    case False
    then show ?thesis using assms(1) live by (auto simp: s operational_phase_def)
  next
    case True
    let ?c = "now - rc_OperationalRetention cfg"
    let ?tk = "snd (sweep (nat (rc_BatchSize cfg)) (token_due ?c) token_at fst (rd_tokens db))"
    let ?ss = "snd (sweep (nat (rc_BatchSize cfg)) (session_due ?c now ?tk) session_at fst (rd_sessions db))"
    have t: "(h, t) \<in> set ?tk" using live True assms(3) by (intro sweep_kept) (auto simp: s token_due_def)
    then have "live_refresh now ?tk (rt_SessionID t)" using live by (auto simp: live_refresh_def list_ex_iff)
    then have x: "(rt_SessionID t, x) \<in> set ?ss" using live assms(4) by (intro sweep_kept) (auto simp: s session_due_def)
    have "rd_tokens (snd s1) = filter (\<lambda>(_, t). rt_SessionID t \<in> set (map fst ?ss)) ?tk" "rd_sessions (snd s1) = ?ss"
      using assms(1) True by (auto simp: s operational_phase_def Let_def split: prod.splits if_splits)
    with t x show ?thesis by force
  qed
qed

definition run_retention :: "retention_config \<Rightarrow> time \<Rightarrow> retention_db \<Rightarrow> retention_db" where
  "run_retention cfg now db = snd (CleanupRetention (\<lambda>_. True) True cfg now db)"

lemma run_retention_tables:
  assumes "0 < rc_BatchSize cfg"
  shows "0 < rc_AuditRetention cfg \<Longrightarrow> rd_authentication_audit (run_retention cfg now db) =
      snd (sweep (nat (rc_BatchSize cfg)) (aged_due (now - rc_AuditRetention cfg)) ag_At ag_Key (rd_authentication_audit db))"
    "0 < max (rc_LoginFailureWindow cfg) (rc_LoginBackoffMax cfg) \<Longrightarrow> rd_rate_limits (run_retention cfg now db) =
      snd (sweep (nat (rc_BatchSize cfg)) (rate_due (now - max (rc_LoginFailureWindow cfg) (rc_LoginBackoffMax cfg))) (\<lambda>(_, r). updated_at r) fst (rd_rate_limits db))"
    "rd_model_assignments (run_retention cfg now db) = snd (sweep (nat (rc_BatchSize cfg)) (grant_due now) grant_at fst (rd_model_assignments db))"
proof -
  have some: "\<exists>s'. audit_phase (\<lambda>_. True) cfg now s = Some s'" "\<exists>s'. telemetry_phase (\<lambda>_. True) cfg now s = Some s'"
    "\<exists>s'. operational_phase (\<lambda>_. True) cfg now s = Some s'" "\<exists>s'. login_phase (\<lambda>_. True) cfg now s = Some s'"
    "\<exists>s'. assignment_phase (\<lambda>_. True) cfg now s = Some s'" for s
    by (cases s; auto simp: audit_phase_def telemetry_phase_def operational_phase_def login_phase_def assignment_phase_def Let_def split: prod.splits)+
  obtain s1 where s1: "audit_phase (\<lambda>_. True) cfg now (no_result True, db) = Some s1" using some(1) by blast
  obtain s2 where s2: "telemetry_phase (\<lambda>_. True) cfg now s1 = Some s2" using some(2) by blast
  obtain s3 where s3: "operational_phase (\<lambda>_. True) cfg now s2 = Some s3" using some(3) by blast
  obtain s4 where s4: "login_phase (\<lambda>_. True) cfg now s3 = Some s4" using some(4) by blast
  obtain s5 where s5: "assignment_phase (\<lambda>_. True) cfg now s4 = Some s5" using some(5) by blast
  have r: "run_retention cfg now db = snd s5"
    using assms by (cases s5) (simp add: run_retention_def CleanupRetention_def s1 s2 s3 s4 s5)
  note f = audit_phase_frame [OF s1] telemetry_phase_frame [OF s2] operational_phase_frame [OF s3] login_phase_frame [OF s4] assignment_phase_frame [OF s5]
  show "0 < rc_AuditRetention cfg \<Longrightarrow> rd_authentication_audit (run_retention cfg now db) =
      snd (sweep (nat (rc_BatchSize cfg)) (aged_due (now - rc_AuditRetention cfg)) ag_At ag_Key (rd_authentication_audit db))"
    "0 < max (rc_LoginFailureWindow cfg) (rc_LoginBackoffMax cfg) \<Longrightarrow> rd_rate_limits (run_retention cfg now db) =
      snd (sweep (nat (rc_BatchSize cfg)) (rate_due (now - max (rc_LoginFailureWindow cfg) (rc_LoginBackoffMax cfg))) (\<lambda>(_, r). updated_at r) fst (rd_rate_limits db))"
    "rd_model_assignments (run_retention cfg now db) = snd (sweep (nat (rc_BatchSize cfg)) (grant_due now) grant_at fst (rd_model_assignments db))"
    unfolding r using f by simp_all
qed

lemma table_rounds: "(\<And>x. f (run x) = clean (f x)) \<Longrightarrow> f ((run ^^ n) x) = (clean ^^ n) (f x)"
  by (induction n) simp_all

section \<open>A concrete run\<close>

definition demo_retention :: retention_config where
  "demo_retention = \<lparr> rc_BatchSize = 1, rc_AuditRetention = 10, rc_TelemetryRetention = 10, rc_OperationalRetention = 10, rc_LoginFailureWindow = 5, rc_LoginBackoffMax = 20 \<rparr>"

definition demo_rows :: retention_db where
  "demo_rows = \<lparr> rd_authentication_audit = [\<lparr> ag_Key = ''a'', ag_At = 1 \<rparr>, \<lparr> ag_Key = ''b'', ag_At = 2 \<rparr>, \<lparr> ag_Key = ''c'', ag_At = 95 \<rparr>],
     rd_credential_audit = [], rd_license_audit = [], rd_admin_audit = [], rd_telemetry = [], rd_skill_sync = [], rd_deliveries = [], rd_events = [],
     rd_tokens = [(''h'', \<lparr> rt_SessionID = ''s1'', rt_ExpiresAt = 200, rt_RevokedAt = None \<rparr>)], rd_sessions = [(''s1'', demo_session)],
     rd_rate_limits = [(''k'', \<lparr> failure_count = 9, blocked_until = Some 105, updated_at = 90 \<rparr>)], rd_skill_assignments = [],
     rd_model_assignments = [(''m'', Some 50)], rd_credential_assignments = [], rd_data_scope_rules = [] \<rparr>"

lemma demo_keyed: "keyed_tables demo_rows" by (simp add: keyed_tables_def demo_rows_def)

section \<open>Properties\<close>





end
