(* ===== verification/License.thy ===== *)
theory License
  imports Sessions
begin

text \<open>
  Licenses: the signed envelope of \<^verbatim>\<open>internal/license/verifier.go\<close>, registration and activation of
  \<^verbatim>\<open>internal/app/app.go\<close>, and the handlers of \<^verbatim>\<open>license_handlers.go\<close>,
  \<^verbatim>\<open>activation_handlers.go\<close> and \<^verbatim>\<open>license_status.go\<close>. JSON decoding and Ed25519 are
  functions of the record \<open>license_lib\<close>; timestamps are computed, and the grace period is a 64-bit
  duration that wraps around.
\<close>

section \<open>Canonical JSON\<close>

datatype json =
    JNull
  | JBool bool
  | JString string
  | JNumber string
  | JArray "json list"
  | JObject "(string \<times> json) list"

fun license_join :: "string list \<Rightarrow> string" where
  "license_join [] = []"
| "license_join [v] = v"
| "license_join (v # w # vs) = v @ '','' @ license_join (w # vs)"

primrec option_list :: "'a option list \<Rightarrow> 'a list option" where
  "option_list [] = Some []"
| "option_list (x # xs) = (case x of None \<Rightarrow> None | Some y \<Rightarrow> map_option ((#) y) (option_list xs))"

lemma member_size: "(k, v) \<in> set ms \<Longrightarrow> size v < Suc (size_list (size_prod (\<lambda>_. 0) size) ms)" for v :: json
  by (induction ms) auto

text \<open>\<open>text_of\<close> is \<^verbatim>\<open>json.Marshal\<close> on a string. An object holds each name once and is written in the
  order of the names.\<close>

function canonicalizeValue :: "(string \<Rightarrow> string) \<Rightarrow> json \<Rightarrow> string option" where
  "canonicalizeValue text_of JNull = Some ''null''"
| "canonicalizeValue text_of (JBool b) = Some (if b then ''true'' else ''false'')"
| "canonicalizeValue text_of (JString s) = Some (text_of s)"
| "canonicalizeValue text_of (JNumber n) = (if n = [] then None else Some n)"
| "canonicalizeValue text_of (JArray items) =
     map_option (\<lambda>parts. ''['' @ license_join parts @ '']'') (option_list (map (canonicalizeValue text_of) items))"
| "canonicalizeValue text_of (JObject members) =
     map_option (\<lambda>parts. ''{'' @ license_join parts @ ''}'')
       (option_list (map (\<lambda>(k, v). map_option (\<lambda>part. text_of k @ '':'' @ part) (canonicalizeValue text_of v)) (sort_key fst members)))"
  by pat_completeness auto
termination
proof (relation "measure (\<lambda>(_, v). size v)")
  fix text_of :: "string \<Rightarrow> string" and members :: "(string \<times> json) list" and z k v
  assume "z \<in> set (sort_key fst members)" "(k, v) = z"
  then have "(k, v) \<in> set members" by simp
  from member_size [OF this]
  show "((text_of, v), (text_of, JObject members)) \<in> measure (\<lambda>(_, v). size v)" by simp
qed (auto simp: less_Suc_eq_le size_list_estimation')

section \<open>The signed envelope\<close>

record LicenseClaims =
  lc_LicenseID :: string
  lc_CustomerID :: string
  lc_DeploymentID :: string
  lc_Edition :: string
  lc_IssuedAt :: string
  lc_NotBefore :: string
  lc_ExpiresAt :: "string option"
  lc_MaintenanceUntil :: string
  lc_GraceDays :: "64 word"
  lc_Features :: "string list"

record Envelope =
  en_Format :: string
  en_KeyID :: string
  en_Payload :: string
  en_Signature :: string

record Verified =
  vd_Envelope :: Envelope
  vd_Claims :: LicenseClaims
  vd_Digest :: string
  vd_Status :: string
  vd_GraceEndsAt :: "time option"

record LicenseVerifier =
  lv_TrustedKeys :: "string \<rightharpoonup> string"
  lv_ExpectedDeployment :: string

text \<open>What the standard library decides: \<open>ll_envelope\<close> and \<open>ll_claims\<close> are \<^verbatim>\<open>decodeStrict\<close> into the
  two structs, \<open>ll_json\<close> decodes a document without converting its numbers, \<open>ll_text\<close> and \<open>ll_marshal\<close> are
  \<^verbatim>\<open>json.Marshal\<close> on strings and on claims, \<open>ll_verify\<close> is \<^verbatim>\<open>ed25519.Verify\<close>.\<close>

record license_lib =
  ll_envelope :: "string \<Rightarrow> Envelope option"
  ll_claims :: "string \<Rightarrow> LicenseClaims option"
  ll_json :: "string \<Rightarrow> json option"
  ll_text :: "string \<Rightarrow> string"
  ll_marshal :: "LicenseClaims \<Rightarrow> string option"
  ll_verify :: "string \<Rightarrow> string \<Rightarrow> string \<Rightarrow> bool"

definition formatV1 :: string where
  "formatV1 = ''zhiyuan-license-v1''"

fun trusted_keys :: "(string \<times> string) list \<Rightarrow> (string \<rightharpoonup> string) \<Rightarrow> (string \<rightharpoonup> string) option" where
  "trusted_keys [] ks = Some ks"
| "trusted_keys ((keyID, v) # rest) ks =
     (case base64url_decode v of
        None \<Rightarrow> None
      | Some decoded \<Rightarrow> if length decoded \<noteq> 32 then None else trusted_keys rest (ks(keyID \<mapsto> decoded)))"

definition NewLicenseVerifier :: "(string \<times> string) list \<Rightarrow> string \<Rightarrow> LicenseVerifier option" where
  "NewLicenseVerifier encoded expectedDeployment =
     map_option (\<lambda>ks. \<lparr> lv_TrustedKeys = ks, lv_ExpectedDeployment = expectedDeployment \<rparr>) (trusted_keys encoded Map.empty)"

subsection \<open>Timestamps\<close>

text \<open>\<open>timestampPattern\<close> is the regular expression, a zero standing for a digit.\<close>

definition timestampPattern :: "string \<Rightarrow> bool" where
  "timestampPattern s = list_all2 (\<lambda>p c. if p = CHR ''0'' then is_digit c else c = p) ''0000-00-00T00:00:00.000Z'' s"

definition field :: "nat \<Rightarrow> nat \<Rightarrow> string \<Rightarrow> int" where
  "field i n s = int (decimal_value (take n (drop i s)))"

definition leap :: "int \<Rightarrow> bool" where
  "leap y \<longleftrightarrow> 4 dvd y \<and> (\<not> 100 dvd y \<or> 400 dvd y)"

definition month_days :: "int \<Rightarrow> int list" where
  "month_days y = [31, if leap y then 29 else 28, 31, 30, 31, 30, 31, 31, 30, 31, 30, 31]"

text \<open>Days of the proleptic Gregorian calendar from 1 January 1970; the year before counts its leap days.\<close>

definition days_to :: "int \<Rightarrow> int \<Rightarrow> int \<Rightarrow> int" where
  "days_to y m d =
     (let p = y - 1 in
      365 * p + p div 4 - p div 100 + p div 400 - 719162 + sum_list (take (nat m - 1) (month_days y)) + (d - 1))"

text \<open>\<^verbatim>\<open>time.Parse(time.RFC3339Nano, s)\<close> on text of the license format. Every timestamp the service parses
  has passed \<open>validTimestamp\<close>, so the other layouts \<^verbatim>\<open>time.Parse\<close> accepts do not occur; the zero time
  is what the ignored error leaves.\<close>

definition parse_timestamp :: "string \<Rightarrow> time option" where
  "parse_timestamp s =
     (let y = field 0 4 s; mo = field 5 2 s; d = field 8 2 s; h = field 11 2 s; mi = field 14 2 s; sec = field 17 2 s; ms = field 20 3 s in
      if timestampPattern s \<and> 1 \<le> mo \<and> mo \<le> 12 \<and> 1 \<le> d \<and> d \<le> month_days y ! (nat mo - 1) \<and> h < 24 \<and> mi < 60 \<and> sec < 60
      then Some ((days_to y mo d * 86400 + h * 3600 + mi * 60 + sec) * second + ms * 1000000)
      else None)"

definition zero_time :: time where
  "zero_time = days_to 1 1 1 * 86400 * second"

definition parsed_time :: "string \<Rightarrow> time" where
  "parsed_time s = (case parse_timestamp s of None \<Rightarrow> zero_time | Some t \<Rightarrow> t)"

definition validTimestamp :: "string \<Rightarrow> bool" where
  "validTimestamp s = (if \<not> timestampPattern s then False else parse_timestamp s \<noteq> None)"

text \<open>\<^verbatim>\<open>time.Duration(GraceDays) * 24 * time.Hour\<close>, on 64 bits.\<close>

definition grace_duration :: "64 word \<Rightarrow> duration" where
  "grace_duration days = sint (days * word_of_int (24 * hour))"

subsection \<open>Verification\<close>

definition validClaims :: "LicenseClaims \<Rightarrow> bool" where
  "validClaims c =
     (if lc_LicenseID c = [] \<or> lc_CustomerID c = [] \<or> lc_DeploymentID c = [] \<or> lc_Edition c \<noteq> ''enterprise''
         \<or> \<not> validTimestamp (lc_IssuedAt c) \<or> lc_GraceDays c <s 0 then False
      else if (lc_NotBefore c \<noteq> [] \<and> \<not> validTimestamp (lc_NotBefore c))
           \<or> (lc_MaintenanceUntil c \<noteq> [] \<and> \<not> validTimestamp (lc_MaintenanceUntil c)) then False
      else if (case lc_ExpiresAt c of
                 None \<Rightarrow> False
               | Some e \<Rightarrow> \<not> validTimestamp e \<or> parsed_time e < parsed_time (lc_IssuedAt c)) then False
      else if length (lc_Features c) > 256 then False
      else list_all (\<lambda>f. f \<noteq> []) (lc_Features c))"

text \<open>A signature that cannot be decoded is the nil slice, which no key accepts.\<close>

definition decodeSignature :: "string \<Rightarrow> string" where
  "decodeSignature s =
     (case base64url_decode s of None \<Rightarrow> [] | Some decoded \<Rightarrow> if length decoded \<noteq> 64 then [] else decoded)"

definition canonicalizeJSON :: "license_lib \<Rightarrow> string \<Rightarrow> string option" where
  "canonicalizeJSON lib raw = (case ll_json lib raw of None \<Rightarrow> None | Some v \<Rightarrow> canonicalizeValue (ll_text lib) v)"

definition envelopeDigest :: "license_lib \<Rightarrow> Envelope \<Rightarrow> LicenseClaims \<Rightarrow> string option" where
  "envelopeDigest lib envelope claims =
     (case ll_marshal lib claims of
        None \<Rightarrow> None
      | Some payload \<Rightarrow>
         (case ll_json lib payload of
            None \<Rightarrow> None
          | Some v \<Rightarrow>
             map_option (\<lambda>canonical. ''sha256:'' @ hex (sha256 canonical))
               (canonicalizeValue (ll_text lib) (JObject [(''format'', JString (en_Format envelope)), (''keyId'', JString (en_KeyID envelope)),
                  (''payload'', v), (''signature'', JString (en_Signature envelope))]))))"

datatype license_error =
    MalformedEnvelope
  | UnknownKey
  | MalformedClaims
  | InvalidSignature
  | DeploymentMismatch
  | NotYetValid
  | DigestFailed

definition license_phase :: "time \<Rightarrow> time option \<Rightarrow> time option \<Rightarrow> string" where
  "license_phase now expiresAt graceEnds =
     (case expiresAt of
        None \<Rightarrow> ''enterprise-active''
      | Some e \<Rightarrow> if \<not> now > e then ''enterprise-active''
                 else case graceEnds of None \<Rightarrow> ''enterprise-expired''
                      | Some g \<Rightarrow> if \<not> now > g then ''enterprise-grace'' else ''enterprise-expired'')"

definition license_expiry :: "LicenseClaims \<Rightarrow> time option" where
  "license_expiry c = map_option parsed_time (lc_ExpiresAt c)"

definition license_grace :: "LicenseClaims \<Rightarrow> time option" where
  "license_grace c = map_option (\<lambda>e. parsed_time e + grace_duration (lc_GraceDays c)) (lc_ExpiresAt c)"

definition VerifyLicense :: "license_lib \<Rightarrow> time \<Rightarrow> LicenseVerifier \<Rightarrow> string \<Rightarrow> license_error + Verified" where
  "VerifyLicense lib now v raw =
     (case (if raw = [] then None else ll_envelope lib raw) of
        None \<Rightarrow> Inl MalformedEnvelope
      | Some envelope \<Rightarrow>
          if en_Format envelope \<noteq> formatV1 \<or> en_KeyID envelope = [] \<or> en_Payload envelope = [] \<or> en_Signature envelope = []
          then Inl MalformedEnvelope
          else case lv_TrustedKeys v (en_KeyID envelope) of
            None \<Rightarrow> Inl UnknownKey
          | Some publicKey \<Rightarrow>
             (case ll_claims lib (en_Payload envelope) of
                None \<Rightarrow> Inl MalformedClaims
              | Some claims \<Rightarrow>
                  if \<not> validClaims claims then Inl MalformedClaims
                  else if \<not> (case canonicalizeJSON lib (en_Payload envelope) of
                               None \<Rightarrow> False
                             | Some canonicalPayload \<Rightarrow> ll_verify lib publicKey canonicalPayload (decodeSignature (en_Signature envelope)))
                  then Inl InvalidSignature
                  else if lv_ExpectedDeployment v \<noteq> [] \<and> lc_DeploymentID claims \<noteq> lv_ExpectedDeployment v then Inl DeploymentMismatch
                  else
                   (let notBefore = (if lc_NotBefore claims \<noteq> [] then parsed_time (lc_NotBefore claims) else parsed_time (lc_IssuedAt claims));
                        expiresAt = license_expiry claims;
                        graceEnds = license_grace claims in
                    if now < notBefore then Inl NotYetValid
                    else case envelopeDigest lib envelope claims of
                      None \<Rightarrow> Inl DigestFailed
                    | Some dig \<Rightarrow> Inr \<lparr> vd_Envelope = envelope, vd_Claims = claims, vd_Digest = dig,
                                       vd_Status = license_phase now expiresAt graceEnds, vd_GraceEndsAt = graceEnds \<rparr>)))"

section \<open>The license tables\<close>

record license_row =
  lr_LicenseID :: string
  lr_DeploymentID :: string
  lr_CustomerID :: string
  lr_Digest :: string
  lr_KeyID :: string
  lr_Status :: string
  lr_IssuedAt :: time
  lr_ExpiresAt :: "time option"
  lr_GraceEndsAt :: "time option"
  lr_Features :: "string list"
  lr_Payload :: string
  lr_RevokedAt :: "time option"
  lr_CreatedAt :: time
  lr_UpdatedAt :: time

record activation_row =
  la_ID :: string
  la_LicenseID :: string
  la_DeploymentID :: string
  la_UserID :: string
  la_LastSeenAt :: time
  la_RevokedAt :: "time option"

record license_audit_row =
  lau_ID :: string
  lau_DeploymentID :: string
  lau_LicenseID :: string
  lau_Actor :: string
  lau_Action :: string

record license_db =
  ld_licenses :: "license_row list"
  ld_activations :: "activation_row list"
  ld_audit :: "license_audit_row list"

text \<open>The process holds one verified license, set at start and by an import, beside the tables.\<close>

record license_state =
  ls_License :: "Verified option"
  ls_db :: license_db

record license_env = session_env +
  le_lib :: license_lib
  le_verifier :: "LicenseVerifier option"
  le_LicenseDeploymentID :: string
  le_LicenseCustomerID :: string

datatype register_error = ErrLicenseConflict | ErrLicenseNotRegistered | ErrLicenseRevoked | ErrLicenseStore

section \<open>Registration and activation\<close>

definition license_row_of :: "time \<Rightarrow> Verified \<Rightarrow> license_row" where
  "license_row_of now v =
     (let c = vd_Claims v in
      \<lparr> lr_LicenseID = lc_LicenseID c, lr_DeploymentID = lc_DeploymentID c, lr_CustomerID = lc_CustomerID c, lr_Digest = vd_Digest v,
        lr_KeyID = en_KeyID (vd_Envelope v), lr_Status = ''active'', lr_IssuedAt = pg_time (parsed_time (lc_IssuedAt c)),
        lr_ExpiresAt = map_option pg_time (license_expiry c), lr_GraceEndsAt = map_option pg_time (license_grace c),
        lr_Features = lc_Features c, lr_Payload = en_Payload (vd_Envelope v), lr_RevokedAt = None, lr_CreatedAt = now, lr_UpdatedAt = now \<rparr>)"

definition RegisterLicense :: "license_env \<Rightarrow> Verified \<Rightarrow> license_db \<Rightarrow> (register_error + unit) \<times> license_db" where
  "RegisterLicense env verified db =
     (if \<not> se_ok env ''database'' then (Inr (), db)
      else if le_LicenseDeploymentID env = [] then (Inl ErrLicenseStore, db)
      else if \<not> se_ok env ''find license'' then (Inl ErrLicenseStore, db)
      else case find (\<lambda>l. lr_LicenseID l = lc_LicenseID (vd_Claims verified)) (ld_licenses db) of
        Some l \<Rightarrow> if lr_Digest l \<noteq> vd_Digest verified then (Inl ErrLicenseConflict, db) else (Inr (), db)
      | None \<Rightarrow>
          if \<not> se_ok env ''insert license'' then (Inl ErrLicenseStore, db)
          else (Inr (), db \<lparr> ld_licenses := ld_licenses db @ [license_row_of (se_clock env ''transaction'') verified] \<rparr>))"

definition find_license :: "string \<Rightarrow> string \<Rightarrow> license_db \<Rightarrow> license_row option" where
  "find_license dep i db = find (\<lambda>l. lr_DeploymentID l = dep \<and> lr_LicenseID l = i) (ld_licenses db)"

text \<open>One license has one activation row in a deployment, by a unique constraint.\<close>

definition ActivateLicense :: "license_env \<Rightarrow> string \<Rightarrow> string \<Rightarrow> string \<Rightarrow> license_db \<Rightarrow> (register_error + unit) \<times> license_db" where
  "ActivateLicense env licenseID deploymentID userID db =
     (if \<not> se_ok env ''database'' then (Inr (), db)
      else if \<not> se_ok env ''begin'' \<or> \<not> se_ok env ''lock license'' then (Inl ErrLicenseStore, db)
      else case find_license deploymentID licenseID db of
        None \<Rightarrow> (Inl ErrLicenseNotRegistered, db)
      | Some l \<Rightarrow>
          if lr_Status l \<noteq> ''active'' \<or> lr_RevokedAt l \<noteq> None then (Inl ErrLicenseRevoked, db)
          else if \<not> se_ok env ''find activation'' then (Inl ErrLicenseStore, db)
          else
           (let mine = (\<lambda>a. la_LicenseID a = licenseID \<and> la_DeploymentID a = deploymentID);
                now = se_clock env ''transaction'' in
            if list_ex (\<lambda>a. mine a \<and> la_RevokedAt a = None) (ld_activations db)
            then if \<not> se_ok env ''touch activation'' \<or> \<not> se_ok env ''commit'' then (Inl ErrLicenseStore, db)
                 else (Inr (), db \<lparr> ld_activations := map (\<lambda>a. if mine a \<and> la_RevokedAt a = None then a \<lparr> la_LastSeenAt := now \<rparr> else a) (ld_activations db) \<rparr>)
            else if \<not> se_ok env ''insert activation'' \<or> list_ex mine (ld_activations db) \<or> \<not> se_ok env ''commit'' then (Inl ErrLicenseStore, db)
            else (Inr (), db \<lparr> ld_activations := ld_activations db @
                    [\<lparr> la_ID = se_uuid env ''activation'', la_LicenseID = licenseID, la_DeploymentID = deploymentID, la_UserID = userID,
                       la_LastSeenAt = now, la_RevokedAt = None \<rparr>] \<rparr>)))"

definition CurrentLicense :: "license_state \<Rightarrow> Verified option" where
  "CurrentLicense st = ls_License st"

definition SetLicense :: "Verified \<Rightarrow> license_state \<Rightarrow> license_state" where
  "SetLicense v st = st \<lparr> ls_License := Some v \<rparr>"

text \<open>What \<^verbatim>\<open>Open\<close> does with \<^verbatim>\<open>AEP_LICENSE_FILE\<close>: \<open>file\<close> is \<^const>\<open>None\<close> when no file is configured
  and \<open>Some None\<close> when it cannot be read. A failed start is \<^const>\<open>None\<close>.\<close>

definition Open_license :: "license_env \<Rightarrow> LicenseVerifier \<Rightarrow> string option option \<Rightarrow> license_db \<Rightarrow> license_state option" where
  "Open_license env v file db =
     (case file of
        None \<Rightarrow> Some \<lparr> ls_License = None, ls_db = db \<rparr>
      | Some None \<Rightarrow> None
      | Some (Some licenseBytes) \<Rightarrow>
         (case VerifyLicense (le_lib env) (se_clock env ''verify'') v licenseBytes of
            Inl _ \<Rightarrow> None
          | Inr verified \<Rightarrow>
              if vd_Status verified = ''enterprise-expired''
                 \<or> (le_LicenseCustomerID env \<noteq> [] \<and> lc_CustomerID (vd_Claims verified) \<noteq> le_LicenseCustomerID env) then None
              else case RegisterLicense env verified db of
                (Inl _, _) \<Rightarrow> None
              | (Inr _, db1) \<Rightarrow> Some (SetLicense verified \<lparr> ls_License = None, ls_db = db1 \<rparr>)))"

section \<open>Handlers\<close>

definition activation_counts :: "license_db \<Rightarrow> string \<Rightarrow> nat \<times> nat" where
  "activation_counts db i =
     (let live = [a. a \<leftarrow> ld_activations db, la_LicenseID a = i \<and> la_RevokedAt a = None] in
      (length live, length (remdups (map la_UserID live))))"

definition findLicense :: "license_env \<Rightarrow> Token_Service.Claims \<Rightarrow> string \<Rightarrow> license_db \<Rightarrow> (license_row \<times> nat \<times> nat) option option" where
  "findLicense env claims i db =
     (if \<not> se_ok env ''read license'' then None
      else Some (map_option (\<lambda>l. (l, activation_counts db i)) (find_license (tc_DeploymentID claims) i db)))"

definition getLicense :: "license_env \<Rightarrow> Token_Service.Claims \<Rightarrow> string \<Rightarrow> license_db \<Rightarrow> (license_row \<times> nat \<times> nat) answer" where
  "getLicense env claims i db =
     (case findLicense env claims i db of
        None \<Rightarrow> Problem_of 500 ''INTERNAL_ERROR''
      | Some None \<Rightarrow> Problem_of 404 ''RESOURCE_NOT_FOUND''
      | Some (Some r) \<Rightarrow> Answered r)"

text \<open>A page of licenses and the cursor of the next one; \<open>n\<close> is the \<^verbatim>\<open>limit\<close> parameter.\<close>

definition listLicenses :: "license_env \<Rightarrow> Token_Service.Claims \<Rightarrow> string \<Rightarrow> int option \<Rightarrow> license_db \<Rightarrow> ((license_row \<times> nat \<times> nat) list \<times> string option) answer" where
  "listLicenses env claims cursor n db =
     (if \<not> se_ok env ''list licenses'' then Problem_of 500 ''INTERNAL_ERROR''
      else
       (let rows = [l. l \<leftarrow> ld_licenses db, lr_DeploymentID l = tc_DeploymentID claims \<and> (cursor \<noteq> [] \<longrightarrow> lr_LicenseID l > cursor)];
            items = map (\<lambda>l. (l, activation_counts db (lr_LicenseID l))) (take (nat (limit n)) (sort_key lr_LicenseID rows)) in
        Answered (items, if int (length items) = limit n then Some (lr_LicenseID (fst (last items))) else None)))"

definition license_audit :: "license_env \<Rightarrow> Token_Service.Claims \<Rightarrow> string \<Rightarrow> string \<Rightarrow> license_audit_row" where
  "license_audit env claims i act =
     \<lparr> lau_ID = se_uuid env ''audit'', lau_DeploymentID = tc_DeploymentID claims, lau_LicenseID = i, lau_Actor = tc_Subject claims, lau_Action = act \<rparr>"

definition recordLicenseAudit :: "license_env \<Rightarrow> Token_Service.Claims \<Rightarrow> string \<Rightarrow> string \<Rightarrow> license_db \<Rightarrow> license_db option" where
  "recordLicenseAudit env claims i act db =
     (if se_ok env ''audit'' then Some (db \<lparr> ld_audit := ld_audit db @ [license_audit env claims i act] \<rparr>) else None)"

text \<open>The body is \<^const>\<open>None\<close> when the request cannot be decoded.\<close>

definition importLicense :: "license_env \<Rightarrow> Token_Service.Claims \<Rightarrow> string option \<Rightarrow> license_state \<Rightarrow> (license_row \<times> nat \<times> nat) answer \<times> license_state" where
  "importLicense env claims body st =
     (case body of
        None \<Rightarrow> (Problem_of 400 ''INVALID_REQUEST'', st)
      | Some raw \<Rightarrow>
         (case (if raw = [] then None else le_verifier env) of
            None \<Rightarrow> (Problem_of 400 ''INVALID_LICENSE'', st)
          | Some v \<Rightarrow>
              if le_LicenseDeploymentID env = [] then (Problem_of 400 ''INVALID_LICENSE'', st)
              else case VerifyLicense (le_lib env) (se_clock env ''verify'') v raw of
                Inl _ \<Rightarrow> (Problem_of 422 ''INVALID_LICENSE'', st)
              | Inr verified \<Rightarrow>
                  if vd_Status verified = ''enterprise-expired'' then (Problem_of 422 ''INVALID_LICENSE'', st)
                  else if le_LicenseCustomerID env \<noteq> [] \<and> lc_CustomerID (vd_Claims verified) \<noteq> le_LicenseCustomerID env
                  then (Problem_of 403 ''LICENSE_CUSTOMER_MISMATCH'', st)
                  else case RegisterLicense env verified (ls_db st) of
                    (Inl ErrLicenseConflict, db1) \<Rightarrow> (Problem_of 409 ''LICENSE_CONFLICT'', st \<lparr> ls_db := db1 \<rparr>)
                  | (Inl _, db1) \<Rightarrow> (Problem_of 500 ''INTERNAL_ERROR'', st \<lparr> ls_db := db1 \<rparr>)
                  | (Inr _, db1) \<Rightarrow>
                     (let st1 = SetLicense verified (st \<lparr> ls_db := db1 \<rparr>) in
                      case recordLicenseAudit env claims (lc_LicenseID (vd_Claims verified)) ''import'' db1 of
                        None \<Rightarrow> (Problem_of 500 ''INTERNAL_ERROR'', st1)
                      | Some db2 \<Rightarrow>
                         (case findLicense env claims (lc_LicenseID (vd_Claims verified)) db2 of
                            Some (Some r) \<Rightarrow> (Answered r, st1 \<lparr> ls_db := db2 \<rparr>)
                          | _ \<Rightarrow> (Problem_of 500 ''INTERNAL_ERROR'', st1 \<lparr> ls_db := db2 \<rparr>)))))"

definition revokeLicense :: "license_env \<Rightarrow> Token_Service.Claims \<Rightarrow> string \<Rightarrow> license_state \<Rightarrow> unit answer \<times> license_state" where
  "revokeLicense env claims i st =
     (let db = ls_db st; dep = tc_DeploymentID claims; now = se_clock env ''transaction'' in
      if \<not> se_ok env ''begin'' \<or> \<not> se_ok env ''lock license'' then (Problem_of 500 ''INTERNAL_ERROR'', st)
      else case find_license dep i db of
        None \<Rightarrow> (Problem_of 404 ''RESOURCE_NOT_FOUND'', st)
      | Some l \<Rightarrow>
         (let db1 = (if lr_Status l = ''active''
                     then db \<lparr> ld_licenses := map (\<lambda>x. if lr_DeploymentID x = dep \<and> lr_LicenseID x = i
                                then x \<lparr> lr_Status := ''revoked'', lr_RevokedAt := Some now, lr_UpdatedAt := now \<rparr> else x) (ld_licenses db),
                              ld_activations := map (\<lambda>a. if la_DeploymentID a = dep \<and> la_LicenseID a = i
                                then a \<lparr> la_RevokedAt := (case la_RevokedAt a of None \<Rightarrow> Some now | Some t \<Rightarrow> Some t) \<rparr> else a) (ld_activations db) \<rparr>
                     else db) in
          if lr_Status l = ''active'' \<and> (\<not> se_ok env ''revoke license'' \<or> \<not> se_ok env ''revoke activations'')
          then (Problem_of 500 ''INTERNAL_ERROR'', st)
          else if \<not> se_ok env ''audit'' \<or> \<not> se_ok env ''commit'' then (Problem_of 500 ''INTERNAL_ERROR'', st)
          else (Answered (), st \<lparr> ls_db := db1 \<lparr> ld_audit := ld_audit db1 @ [license_audit env claims i ''revoke''] \<rparr> \<rparr>)))"

definition normalizeActivationFeatures :: "string list \<Rightarrow> string list" where
  "normalizeActivationFeatures features = sort (remdups features)"

definition maxInt64 :: "int \<Rightarrow> int \<Rightarrow> int" where
  "maxInt64 left right = (if left > right then left else right)"

record activation =
  ac_token :: string
  ac_expiresAt :: time
  ac_expiresIn :: int
  ac_licenseId :: string
  ac_licenseDigest :: string
  ac_deploymentId :: string
  ac_features :: "string list"

text \<open>The expiry that bounds the entitlement; \<open>Inl\<close> is an expiry that does not parse.\<close>

definition activation_expiry :: "Verified \<Rightarrow> unit + time option" where
  "activation_expiry v =
     (case lc_ExpiresAt (vd_Claims v) of
        None \<Rightarrow> Inr None
      | Some e \<Rightarrow>
         (case parse_timestamp e of
            None \<Rightarrow> Inl ()
          | Some t \<Rightarrow> Inr (if vd_Status v = ''enterprise-grace'' then vd_GraceEndsAt v else Some t)))"

text \<open>The answer carries the whole state: activation changes the tables before the token is issued.\<close>

definition activateLicense :: "license_env \<Rightarrow> Token_Service.Claims \<Rightarrow> bool \<Rightarrow> license_state \<Rightarrow> activation answer \<times> license_state" where
  "activateLicense env claims decoded st =
     (if \<not> decoded then (Problem_of 400 ''INVALID_REQUEST'', st)
      else case (if le_verifier env = None then None else CurrentLicense st) of
        None \<Rightarrow> (Problem_of 400 ''INVALID_LICENSE_ACTIVATION'', st)
      | Some verified \<Rightarrow>
          if le_LicenseDeploymentID env \<noteq> [] \<and> tc_DeploymentID claims \<noteq> le_LicenseDeploymentID env
          then (Problem_of 403 ''LICENSE_MISMATCH'', st)
          else if vd_Status verified = ''enterprise-expired'' then (Problem_of 403 ''LICENSE_EXPIRED'', st)
          else case activation_expiry verified of
            Inl _ \<Rightarrow> (Problem_of 403 ''INVALID_LICENSE'', st)
          | Inr expiresAt \<Rightarrow>
             (case ActivateLicense env (lc_LicenseID (vd_Claims verified)) (tc_DeploymentID claims) (tc_Subject claims) (ls_db st) of
                (Inl ErrLicenseRevoked, db1) \<Rightarrow> (Problem_of 403 ''LICENSE_REVOKED'', st \<lparr> ls_db := db1 \<rparr>)
              | (Inl ErrLicenseNotRegistered, db1) \<Rightarrow> (Problem_of 403 ''LICENSE_NOT_REGISTERED'', st \<lparr> ls_db := db1 \<rparr>)
              | (Inl _, db1) \<Rightarrow> (Problem_of 500 ''LICENSE_ACTIVATION_FAILED'', st \<lparr> ls_db := db1 \<rparr>)
              | (Inr _, db1) \<Rightarrow>
                 (let st1 = st \<lparr> ls_db := db1 \<rparr>;
                      features = normalizeActivationFeatures (lc_Features (vd_Claims verified)) in
                  if se_ok env ''pool'' \<and> \<not> se_ok env ''scopes'' then (Problem_of 500 ''INTERNAL_ERROR'', st1)
                  else
                   (let modelScopes = (if se_ok env ''pool'' then ModelScopes (se_directory env) (se_clock env ''scopes'') (tc_DeploymentID claims) (tc_Subject claims) else []) in
                    case IssueEntitlement (se_lib env) (se_service env) (se_clock env ''entitlement'') (se_uuid env ''entitlement'')
                           (tc_Subject claims) (lc_DeploymentID (vd_Claims verified)) (tc_SessionID claims) (lc_LicenseID (vd_Claims verified))
                           (vd_Digest verified) features modelScopes expiresAt of
                      None \<Rightarrow> (Problem_of 403 ''LICENSE_EXPIRED'', st1)
                    | Some (token, tokenExpiresAt) \<Rightarrow>
                        (Answered \<lparr> ac_token = token, ac_expiresAt = tokenExpiresAt,
                            ac_expiresIn = maxInt64 1 (go_div (tokenExpiresAt - se_clock env ''answer'') second),
                            ac_licenseId = lc_LicenseID (vd_Claims verified), ac_licenseDigest = vd_Digest verified,
                            ac_deploymentId = lc_DeploymentID (vd_Claims verified), ac_features = features \<rparr>, st1)))))"

section \<open>The status endpoint of the gateway\<close>

text \<open>\<open>hashes\<close> enumerates the refresh-token table.\<close>

definition session_entitled :: "directory \<Rightarrow> session_db \<Rightarrow> string list \<Rightarrow> time \<Rightarrow> string \<Rightarrow> string \<Rightarrow> string \<Rightarrow> string \<Rightarrow> bool" where
  "session_entitled d db hashes now dep sid user model \<longleftrightarrow>
     (case sd_sessions db sid of
        None \<Rightarrow> False
      | Some s \<Rightarrow>
          s_DeploymentID s = dep \<and> s_UserID s = user \<and> s_RevokedAt s = None
        \<and> list_ex (\<lambda>u. u_DeploymentID u = dep \<and> u_ID u = user \<and> u_Status u = ''active'') (d_users d)
        \<and> list_ex (\<lambda>m. m_DeploymentID m = dep \<and> m_ID m = model \<and> m_Enabled m) (d_models d)
        \<and> list_ex (\<lambda>h. case sd_tokens db h of None \<Rightarrow> False
                       | Some t \<Rightarrow> rt_SessionID t = sid \<and> rt_RevokedAt t = None \<and> rt_ExpiresAt t > now) hashes
        \<and> list_ex (\<lambda>ma. ma_DeploymentID ma = dep \<and> ma_ModelID ma = model \<and> assigned d now dep user ma) (d_model_assignments d))"

record status_request =
  sr_Token :: string
  sr_DeploymentID :: string
  sr_UserID :: string
  sr_SessionID :: string
  sr_ModelID :: string

record status_reply =
  sp_active :: bool
  sp_digest :: "string option"
  sp_deploymentId :: "string option"

definition internalLicenseStatus ::
  "license_env \<Rightarrow> string \<Rightarrow> status_request \<Rightarrow> string \<Rightarrow> session_db \<Rightarrow> string list \<Rightarrow> license_db \<Rightarrow> status_reply answer" where
  "internalLicenseStatus env gatewayToken rq licenseID sdb hashes db =
     (if gatewayToken = [] \<or> sr_Token rq \<noteq> gatewayToken then Problem_of 401 ''INTERNAL_AUTH_REQUIRED''
      else if sr_DeploymentID rq = [] \<or> sr_UserID rq = [] \<or> sr_SessionID rq = [] \<or> sr_ModelID rq = [] then Problem_of 400 ''ENTITLEMENT_CONTEXT_REQUIRED''
      else if \<not> se_ok env ''find license'' then Problem_of 500 ''INTERNAL_ERROR''
      else case find (\<lambda>l. lr_DeploymentID l = sr_DeploymentID rq \<and> lr_LicenseID l = licenseID
                 \<and> (lr_ExpiresAt l = None \<or> (case lr_GraceEndsAt l of None \<Rightarrow> False | Some g \<Rightarrow> se_clock env ''license'' \<le> g))) (ld_licenses db) of
        None \<Rightarrow> Answered \<lparr> sp_active = False, sp_digest = None, sp_deploymentId = None \<rparr>
      | Some l \<Rightarrow>
          if lr_Status l \<noteq> ''active''
          then Answered \<lparr> sp_active = False, sp_digest = Some (lr_Digest l), sp_deploymentId = Some (lr_DeploymentID l) \<rparr>
          else if \<not> se_ok env ''entitled'' then Problem_of 500 ''INTERNAL_ERROR''
          else Answered \<lparr> sp_active = session_entitled (se_directory env) sdb hashes (se_clock env ''entitled'')
                 (sr_DeploymentID rq) (sr_SessionID rq) (sr_UserID rq) (sr_ModelID rq),
               sp_digest = Some (lr_Digest l), sp_deploymentId = Some (lr_DeploymentID l) \<rparr>)"

section \<open>What a verified license is\<close>

lemma VerifyLicense_facts:
  assumes "VerifyLicense lib now v raw = Inr r"
  obtains k m where "raw \<noteq> []" "en_KeyID (vd_Envelope r) \<noteq> []" "en_Payload (vd_Envelope r) \<noteq> []" "en_Signature (vd_Envelope r) \<noteq> []"
    "ll_envelope lib raw = Some (vd_Envelope r)" "en_Format (vd_Envelope r) = formatV1"
    "lv_TrustedKeys v (en_KeyID (vd_Envelope r)) = Some k"
    "ll_claims lib (en_Payload (vd_Envelope r)) = Some (vd_Claims r)" "validClaims (vd_Claims r)"
    "canonicalizeJSON lib (en_Payload (vd_Envelope r)) = Some m" "ll_verify lib k m (decodeSignature (en_Signature (vd_Envelope r)))"
    "lv_ExpectedDeployment v = [] \<or> lc_DeploymentID (vd_Claims r) = lv_ExpectedDeployment v"
    "(if lc_NotBefore (vd_Claims r) \<noteq> [] then parsed_time (lc_NotBefore (vd_Claims r)) else parsed_time (lc_IssuedAt (vd_Claims r))) \<le> now"
    "envelopeDigest lib (vd_Envelope r) (vd_Claims r) = Some (vd_Digest r)"
    "vd_Status r = license_phase now (license_expiry (vd_Claims r)) (license_grace (vd_Claims r))" "vd_GraceEndsAt r = license_grace (vd_Claims r)"
  using assms unfolding VerifyLicense_def Let_def
  by (auto simp: not_less split: option.splits if_splits)

lemma VerifyLicense_later:
  assumes v: "VerifyLicense lib t0 v raw = Inr r" and le: "t0 \<le> now"
  shows "VerifyLicense lib now v raw = Inr (r \<lparr> vd_Status := license_phase now (license_expiry (vd_Claims r)) (license_grace (vd_Claims r)) \<rparr>)"
  using v by (rule VerifyLicense_facts) (use le in \<open>simp add: VerifyLicense_def Let_def not_less\<close>)

text \<open>The digest has the form the database demands.\<close>

definition digest_text :: "string \<Rightarrow> bool" where
  "digest_text s \<longleftrightarrow> has_prefix s ''sha256:'' \<and> length s = 71 \<and> list_all is_hex (drop 7 s)"

lemma digest_text_sha: "digest_text (''sha256:'' @ hex (sha256 x))"
  by (simp add: digest_text_def has_prefix_def length_sha256 list_all_iff hex_alphabet)

lemma envelopeDigest_text:
  assumes "envelopeDigest lib e c = Some d"
  shows "digest_text d"
proof -
  have "map_option (\<lambda>canonical. ''sha256:'' @ hex (sha256 canonical)) x = Some d \<Longrightarrow> digest_text d" for x
    by (cases x) (auto simp only: option.map option.inject digest_text_sha)
  with assms show ?thesis
    unfolding envelopeDigest_def by (auto simp del: canonicalizeValue.simps split: option.split_asm)
qed

lemma VerifyLicense_digest:
  assumes "VerifyLicense lib now v raw = Inr r"
  shows "digest_text (vd_Digest r)"
  using assms by (rule VerifyLicense_facts) (rule envelopeDigest_text)

lemma license_expiry_grace: "license_expiry c = None \<longleftrightarrow> license_grace c = None"
  by (simp add: license_expiry_def license_grace_def)

lemma license_phase_simps:
  "license_phase now None g = ''enterprise-active''"
  "now \<le> e \<Longrightarrow> license_phase now (Some e) g = ''enterprise-active''"
  "e < now \<Longrightarrow> now \<le> g' \<Longrightarrow> license_phase now (Some e) (Some g') = ''enterprise-grace''"
  "e < now \<Longrightarrow> g' < now \<Longrightarrow> license_phase now (Some e) (Some g') = ''enterprise-expired''"
  by (simp_all add: license_phase_def)

lemma validTimestamp_parsed: "validTimestamp s \<Longrightarrow> parse_timestamp s = Some (parsed_time s)"
  by (auto simp: validTimestamp_def parsed_time_def split: if_splits)

lemma validClaims_expiry:
  "validClaims c \<Longrightarrow> lc_ExpiresAt c = Some e \<Longrightarrow> parse_timestamp e = Some (parsed_time e)"
  by (auto simp: validClaims_def validTimestamp_parsed split: if_splits)

section \<open>The tables over time\<close>

text \<open>A step is a request, or a restart of the service with or without a license file.\<close>

inductive license_step :: "license_state \<Rightarrow> license_state \<Rightarrow> bool" where
  start: "Open_license env v file (ls_db st) = Some st' \<Longrightarrow> license_step st st'"
| import: "license_step st (snd (importLicense env claims body st))"
| activate: "license_step st (snd (activateLicense env claims decoded st))"
| revoke: "license_step st (snd (revokeLicense env claims i st))"

inductive_cases license_stepE: "license_step st st'"

text \<open>What a step may do to the license table: nothing, append a row for a verified license whose
  identifier is new, or revoke the rows of one license.\<close>

definition revoke_row :: "string \<Rightarrow> string \<Rightarrow> time \<Rightarrow> license_row \<Rightarrow> license_row" where
  "revoke_row dep i now x =
     (if lr_DeploymentID x = dep \<and> lr_LicenseID x = i then x \<lparr> lr_Status := ''revoked'', lr_RevokedAt := Some now, lr_UpdatedAt := now \<rparr> else x)"

inductive table_change :: "license_row list \<Rightarrow> license_row list \<Rightarrow> bool" where
  same: "table_change ls ls"
| append: "VerifyLicense lib t v raw = Inr r \<Longrightarrow> lc_LicenseID (vd_Claims r) \<notin> lr_LicenseID ` set ls
    \<Longrightarrow> table_change ls (ls @ [license_row_of now r])"
| revoked: "table_change ls (map (revoke_row dep i now) ls)"

lemma RegisterLicense_change:
  assumes "RegisterLicense env r db = (out, db1)" "VerifyLicense lib t v raw = Inr r"
  shows "table_change (ld_licenses db) (ld_licenses db1)"
proof -
  have "table_change (ld_licenses db) (ld_licenses db @ [license_row_of now r])"
    if "find (\<lambda>l. lr_LicenseID l = lc_LicenseID (vd_Claims r)) (ld_licenses db) = None" for now
    by (rule table_change.append [OF assms(2)]) (use that in \<open>auto simp: find_None_iff\<close>)
  with assms(1) show ?thesis
    by (auto simp: RegisterLicense_def table_change.same split: if_splits option.splits)
qed

lemma ActivateLicense_same: "ld_licenses (snd (ActivateLicense env i dep user db)) = ld_licenses db"
  by (simp add: ActivateLicense_def Let_def split: option.split)

lemma Open_license_change:
  assumes "Open_license env v file db = Some st"
  shows "table_change (ld_licenses db) (ld_licenses (ls_db st))"
  using assms
  by (auto simp: Open_license_def SetLicense_def split: option.splits sum.splits prod.splits if_splits intro: table_change.same RegisterLicense_change)

lemma importLicense_change: "table_change (ld_licenses (ls_db st)) (ld_licenses (ls_db (snd (importLicense env claims body st))))"
  unfolding importLicense_def Let_def recordLicenseAudit_def SetLicense_def
  by (auto split: option.split sum.split prod.split register_error.split intro: table_change.same RegisterLicense_change)

lemma activateLicense_same: "ld_licenses (ls_db (snd (activateLicense env claims decoded st))) = ld_licenses (ls_db st)"
proof -
  have a: "ActivateLicense env i dep user (ls_db st) = (out, db1) \<Longrightarrow> ld_licenses db1 = ld_licenses (ls_db st)" for i dep user out db1
    by (metis ActivateLicense_same snd_conv)
  show ?thesis
  proof (cases "CurrentLicense st")
    case (Some v)
    obtain out db1 where p: "ActivateLicense env (lc_LicenseID (vd_Claims v)) (tc_DeploymentID claims) (tc_Subject claims) (ls_db st) = (out, db1)"
      by force
    show ?thesis
    proof (cases out)
      case (Inl e)
      with Some p a [OF p] show ?thesis
        by (cases e) (auto simp: activateLicense_def Let_def split: sum.split)
    next
      case (Inr u)
      with Some p a [OF p] show ?thesis
        by (auto simp: activateLicense_def Let_def split: sum.split option.split)
    qed
  qed (simp add: activateLicense_def)
qed

lemma revokeLicense_change: "table_change (ld_licenses (ls_db st)) (ld_licenses (ls_db (snd (revokeLicense env claims i st))))"
  unfolding revokeLicense_def Let_def revoke_row_def [symmetric]
  by (auto split: option.split intro: table_change.intros)

lemma license_step_change: "license_step st st' \<Longrightarrow> table_change (ld_licenses (ls_db st)) (ld_licenses (ls_db st'))"
  by (auto elim!: license_stepE simp: activateLicense_same intro: table_change.same Open_license_change importLicense_change revokeLicense_change)

text \<open>The columns as the schema declares them: identifiers are unique, a row is active or revoked and says
  when it was revoked, the digest is one, and a grace end belongs to an expiry and does not precede it.\<close>

definition license_row_ok :: "license_row \<Rightarrow> bool" where
  "license_row_ok l \<longleftrightarrow>
     lr_LicenseID l \<noteq> [] \<and> lr_DeploymentID l \<noteq> [] \<and> digest_text (lr_Digest l)
   \<and> (lr_Status l = ''active'' \<and> lr_RevokedAt l = None \<or> lr_Status l = ''revoked'' \<and> lr_RevokedAt l \<noteq> None)
   \<and> (lr_ExpiresAt l = None \<longleftrightarrow> lr_GraceEndsAt l = None)
   \<and> length (lr_Features l) \<le> 256 \<and> [] \<notin> set (lr_Features l)"

definition licenses_ok :: "license_row list \<Rightarrow> bool" where
  "licenses_ok ls \<longleftrightarrow> distinct (map lr_LicenseID ls) \<and> list_all license_row_ok ls"

lemma license_row_of_ok: "VerifyLicense lib t v raw = Inr r \<Longrightarrow> license_row_ok (license_row_of now r)"
proof -
  assume v: "VerifyLicense lib t v raw = Inr r"
  then have "validClaims (vd_Claims r)" by (rule VerifyLicense_facts)
  with VerifyLicense_digest [OF v] show ?thesis
    by (auto simp: license_row_ok_def license_row_of_def Let_def validClaims_def license_expiry_grace list_all_iff split: if_splits)
qed

lemma revoke_row_simps [simp]: "lr_LicenseID (revoke_row dep i now x) = lr_LicenseID x"
  by (simp add: revoke_row_def)

lemma licenses_ok_change: "table_change ls ls' \<Longrightarrow> licenses_ok ls \<Longrightarrow> licenses_ok ls'"
proof (induction rule: table_change.induct)
  case (append lib t v raw r ls now)
  then show ?case
    using license_row_of_ok [OF append(1)] by (auto simp: licenses_ok_def license_row_of_def Let_def)
next
  case (revoked ls dep i now)
  have "license_row_ok l \<Longrightarrow> license_row_ok (revoke_row dep i now l)" for l by (auto simp: license_row_ok_def revoke_row_def)
  with revoked show ?case by (simp add: licenses_ok_def list_all_iff comp_def)
qed

text \<open>Revoked rows stay revoked, and no second row for the same license appears.\<close>

definition license_revoked :: "string \<Rightarrow> string \<Rightarrow> license_row list \<Rightarrow> bool" where
  "license_revoked dep i ls \<longleftrightarrow> i \<in> lr_LicenseID ` set ls
     \<and> (\<forall>l \<in> set ls. lr_DeploymentID l = dep \<and> lr_LicenseID l = i \<longrightarrow> lr_Status l \<noteq> ''active'')"

lemma license_revoked_change: "table_change ls ls' \<Longrightarrow> license_revoked dep i ls \<Longrightarrow> license_revoked dep i ls'"
proof (induction rule: table_change.induct)
  case (append lib t v raw r ls now)
  then show ?case by (auto simp: license_revoked_def license_row_of_def Let_def)
next
  case (revoked ls dep' j now)
  then show ?case by (auto simp: license_revoked_def image_image) (auto simp: revoke_row_def split: if_splits)
qed

interpretation license_tables: stable license_step "\<lambda>st. licenses_ok (ld_licenses (ls_db st))"
  by unfold_locales (blast intro: licenses_ok_change license_step_change)

interpretation license_revocation: stable license_step "\<lambda>st. license_revoked dep i (ld_licenses (ls_db st))" for dep i
  by unfold_locales (blast intro: license_revoked_change license_step_change)

lemma find_license_Some: "find_license dep i db = Some l \<Longrightarrow> l \<in> set (ld_licenses db) \<and> lr_DeploymentID l = dep \<and> lr_LicenseID l = i"
  by (auto simp: find_license_def find_Some_iff)

lemma revokeLicense_revokes:
  assumes run: "revokeLicense env claims i st = (Answered (), st1)" and ok: "licenses_ok (ld_licenses (ls_db st))"
  shows "license_revoked (tc_DeploymentID claims) i (ld_licenses (ls_db st1))"
proof -
  let ?dep = "tc_DeploymentID claims" and ?now = "se_clock env ''transaction''"
  obtain l where l: "find_license ?dep i (ls_db st) = Some l"
    and st1: "ld_licenses (ls_db st1) = (if lr_Status l = ''active'' then map (revoke_row ?dep i ?now) (ld_licenses (ls_db st)) else ld_licenses (ls_db st))"
    using run by (auto simp: revokeLicense_def Let_def revoke_row_def split: option.splits if_splits)
  note f = find_license_Some [OF l]
  have only: "x = l" if "x \<in> set (ld_licenses (ls_db st))" "lr_LicenseID x = i" for x
    using ok f that by (auto simp: licenses_ok_def distinct_map dest: inj_onD)
  have "license_revoked ?dep i (map (revoke_row ?dep i ?now) (ld_licenses (ls_db st)))"
    using f by (auto simp: license_revoked_def image_image) (simp add: revoke_row_def split: if_splits)
  moreover have "license_revoked ?dep i (ld_licenses (ls_db st))" if "lr_Status l \<noteq> ''active''"
    using f only that by (auto simp: license_revoked_def)
  ultimately show ?thesis using st1 by simp
qed

lemma ActivateLicense_live:
  assumes "ActivateLicense env i dep user db = (Inr (), db1)" "se_ok env ''database''"
  shows "\<exists>l \<in> set (ld_licenses db). lr_DeploymentID l = dep \<and> lr_LicenseID l = i \<and> lr_Status l = ''active''"
  using assms find_license_Some by (fastforce simp: ActivateLicense_def Let_def split: option.splits if_splits)

lemma activateLicense_facts:
  assumes "activateLicense env claims decoded st = (Answered a, st1)"
  obtains v expiresAt db1 scopes where "CurrentLicense st = Some v" "vd_Status v \<noteq> ''enterprise-expired''" "activation_expiry v = Inr expiresAt"
    "ActivateLicense env (lc_LicenseID (vd_Claims v)) (tc_DeploymentID claims) (tc_Subject claims) (ls_db st) = (Inr (), db1)"
    "IssueEntitlement (se_lib env) (se_service env) (se_clock env ''entitlement'') (se_uuid env ''entitlement'') (tc_Subject claims)
       (lc_DeploymentID (vd_Claims v)) (tc_SessionID claims) (lc_LicenseID (vd_Claims v)) (vd_Digest v)
       (normalizeActivationFeatures (lc_Features (vd_Claims v))) scopes expiresAt = Some (ac_token a, ac_expiresAt a)"
    "ac_licenseId a = lc_LicenseID (vd_Claims v)" "ac_licenseDigest a = vd_Digest v" "st1 = st \<lparr> ls_db := db1 \<rparr>"
proof (cases "CurrentLicense st")
  case None
  with assms show thesis by (auto simp: activateLicense_def split: if_splits)
next
  case (Some v)
  obtain out db1 where p: "ActivateLicense env (lc_LicenseID (vd_Claims v)) (tc_DeploymentID claims) (tc_Subject claims) (ls_db st) = (out, db1)"
    by force
  obtain expiresAt where e: "activation_expiry v = Inr expiresAt"
    using assms Some by (auto simp: activateLicense_def split: if_splits sum.splits)
  show thesis
  proof (cases out)
    case (Inl e')
    with assms Some p e show thesis by (cases e') (auto simp: activateLicense_def split: if_splits)
  next
    case (Inr u)
    with assms Some p e show thesis by (auto simp: activateLicense_def Let_def split: if_splits option.splits intro!: that)
  qed
qed

lemma activateLicense_live:
  assumes "activateLicense env claims decoded st = (Answered a, st1)" "se_ok env ''database''"
  shows "\<exists>l \<in> set (ld_licenses (ls_db st)). lr_DeploymentID l = tc_DeploymentID claims \<and> lr_LicenseID l = ac_licenseId a \<and> lr_Status l = ''active''"
  using assms(1) by (rule activateLicense_facts) (use ActivateLicense_live [OF _ assms(2)] in fastforce)

lemma internalLicenseStatus_live:
  assumes "internalLicenseStatus env tok rq i sdb hashes db = Answered reply" "sp_active reply"
  obtains l where "l \<in> set (ld_licenses db)" "lr_DeploymentID l = sr_DeploymentID rq" "lr_LicenseID l = i" "lr_Status l = ''active''"
    "lr_ExpiresAt l = None \<or> (\<exists>g. lr_GraceEndsAt l = Some g \<and> se_clock env ''license'' \<le> g)"
    "session_entitled (se_directory env) sdb hashes (se_clock env ''entitled'') (sr_DeploymentID rq) (sr_SessionID rq) (sr_UserID rq) (sr_ModelID rq)"
    "sp_digest reply = Some (lr_Digest l)" "sp_deploymentId reply = Some (sr_DeploymentID rq)" "sr_Token rq = tok"
proof (cases "find (\<lambda>l. lr_DeploymentID l = sr_DeploymentID rq \<and> lr_LicenseID l = i
    \<and> (lr_ExpiresAt l = None \<or> (case lr_GraceEndsAt l of None \<Rightarrow> False | Some g \<Rightarrow> se_clock env ''license'' \<le> g))) (ld_licenses db)")
  case None
  with assms show thesis by (auto simp: internalLicenseStatus_def split: if_splits)
next
  case (Some l)
  then have l: "l \<in> set (ld_licenses db)" "lr_DeploymentID l = sr_DeploymentID rq" "lr_LicenseID l = i"
    "lr_ExpiresAt l = None \<or> (\<exists>g. lr_GraceEndsAt l = Some g \<and> se_clock env ''license'' \<le> g)"
    by (auto simp: find_Some_iff split: option.splits)
  have "lr_Status l = ''active''" "reply = \<lparr> sp_active = True, sp_digest = Some (lr_Digest l), sp_deploymentId = Some (lr_DeploymentID l) \<rparr>"
    "session_entitled (se_directory env) sdb hashes (se_clock env ''entitled'') (sr_DeploymentID rq) (sr_SessionID rq) (sr_UserID rq) (sr_ModelID rq)"
    "sr_Token rq = tok"
    using assms unfolding internalLicenseStatus_def Some by (auto split: if_splits)
  with l show thesis by (intro that) simp_all
qed

text \<open>With every statement answered, activation comes down to issuing the token.\<close>

lemma ActivateLicense_working:
  assumes ok: "\<forall>q. se_ok env q" and row: "find_license dep i db = Some l" "lr_Status l = ''active''" "lr_RevokedAt l = None"
    and live: "list_all (\<lambda>a. la_LicenseID a = i \<longrightarrow> la_RevokedAt a = None) (ld_activations db)"
  shows "\<exists>db1. ActivateLicense env i dep user db = (Inr (), db1)"
  using assms by (auto simp: ActivateLicense_def Let_def list_ex_iff list_all_iff)

lemma IssueEntitlement_total:
  assumes "entitlement_expiry now expiresAt = Some t" "userID \<noteq> []" "dep \<noteq> []" "sid \<noteq> []" "lid \<noteq> []" "dig \<noteq> []"
    "\<forall>c. jl_sign lib (sv_private s) (sv_keyID s) c \<noteq> None"
  shows "\<exists>raw. IssueEntitlement lib s now uuid userID dep sid lid dig features scopes expiresAt = Some (raw, t)"
  using assms by (simp add: IssueEntitlement_def Let_def)

lemma activateLicense_working:
  assumes ok: "\<forall>q. se_ok env q" "le_verifier env \<noteq> None" "le_LicenseDeploymentID env = tc_DeploymentID claims"
    and v: "vd_Status v \<noteq> ''enterprise-expired''" "activation_expiry v = Inr expiresAt"
    and act: "\<exists>db1. ActivateLicense env (lc_LicenseID (vd_Claims v)) (tc_DeploymentID claims) (tc_Subject claims) (ls_db st) = (Inr (), db1)"
    and ids: "tc_Subject claims \<noteq> []" "tc_SessionID claims \<noteq> []" "validClaims (vd_Claims v)" "vd_Digest v \<noteq> []"
      "\<forall>c. jl_sign (se_lib env) (sv_private (se_service env)) (sv_keyID (se_service env)) c \<noteq> None"
  shows "entitlement_expiry (se_clock env ''entitlement'') expiresAt = None \<Longrightarrow>
      fst (activateLicense env claims True (SetLicense v st)) = Problem_of 403 ''LICENSE_EXPIRED''"
    "entitlement_expiry (se_clock env ''entitlement'') expiresAt = Some t \<Longrightarrow>
      \<exists>a. fst (activateLicense env claims True (SetLicense v st)) = Answered a \<and> ac_licenseId a = lc_LicenseID (vd_Claims v) \<and> ac_expiresAt a = t"
proof -
  have lids: "lc_DeploymentID (vd_Claims v) \<noteq> []" "lc_LicenseID (vd_Claims v) \<noteq> []" using ids(3) by (simp_all add: validClaims_def split: if_splits)
  obtain db1 where p: "ActivateLicense env (lc_LicenseID (vd_Claims v)) (tc_DeploymentID claims) (tc_Subject claims) (ls_db st) = (Inr (), db1)"
    using act by blast
  note run = activateLicense_def Let_def SetLicense_def CurrentLicense_def p
  show "fst (activateLicense env claims True (SetLicense v st)) = Problem_of 403 ''LICENSE_EXPIRED''"
    if "entitlement_expiry (se_clock env ''entitlement'') expiresAt = None"
    using ok v that by (simp add: run IssueEntitlement_def)
  show "\<exists>a. fst (activateLicense env claims True (SetLicense v st)) = Answered a \<and> ac_licenseId a = lc_LicenseID (vd_Claims v) \<and> ac_expiresAt a = t"
    if x: "entitlement_expiry (se_clock env ''entitlement'') expiresAt = Some t"
  proof -
    obtain raw where "IssueEntitlement (se_lib env) (se_service env) (se_clock env ''entitlement'') (se_uuid env ''entitlement'') (tc_Subject claims)
       (lc_DeploymentID (vd_Claims v)) (tc_SessionID claims) (lc_LicenseID (vd_Claims v)) (vd_Digest v)
       (normalizeActivationFeatures (lc_Features (vd_Claims v)))
       (ModelScopes (se_directory env) (se_clock env ''scopes'') (tc_DeploymentID claims) (tc_Subject claims)) expiresAt = Some (raw, t)"
      using IssueEntitlement_total [OF x ids(1) lids(1) ids(2) lids(2) ids(4,5)] by blast
    with ok v show ?thesis by (auto simp: run)
  qed
qed

section \<open>Properties\<close>

text \<open>
  \<^bold>\<open>Revocation of a license is final (C8).\<close> Once an administrator has revoked a license, then after any
  run of imports, activations, revocations and restarts of the service, an import of the same file
  included, activation never answers with an entitlement for it in that deployment and the status
  endpoint never tells the gateway that it is active.
\<close>

theorem license_revocation_is_final:
  assumes ok: "licenses_ok (ld_licenses (ls_db st))" and rev: "revokeLicense env claims i st = (Answered (), st1)"
    and run: "license_step\<^sup>*\<^sup>* st1 st2"
  shows "\<not> (se_ok env' ''database'' \<and> tc_DeploymentID claims' = tc_DeploymentID claims
           \<and> fst (activateLicense env' claims' decoded st2) = Answered a \<and> ac_licenseId a = i)
       \<and> \<not> (sr_DeploymentID rq = tc_DeploymentID claims
           \<and> internalLicenseStatus env' tok rq i sdb hashes (ls_db st2) = Answered reply \<and> sp_active reply)"
proof -
  have dead: "license_revoked (tc_DeploymentID claims) i (ld_licenses (ls_db st2))"
    using license_revocation.run_keeps [OF run] revokeLicense_revokes [OF rev ok] by blast
  have "False" if h: "se_ok env' ''database''" "tc_DeploymentID claims' = tc_DeploymentID claims"
    "fst (activateLicense env' claims' decoded st2) = Answered a" "ac_licenseId a = i"
  proof -
    from h(3) obtain st3 where "activateLicense env' claims' decoded st2 = (Answered a, st3)" by (metis prod.collapse)
    from activateLicense_live [OF this h(1)] h(2,4) dead show False by (auto simp: license_revoked_def)
  qed
  moreover have "False" if h: "sr_DeploymentID rq = tc_DeploymentID claims"
    "internalLicenseStatus env' tok rq i sdb hashes (ls_db st2) = Answered reply" "sp_active reply"
    using h(2,3) by (rule internalLicenseStatus_live) (use h(1) dead in \<open>auto simp: license_revoked_def\<close>)
  ultimately show ?thesis by blast
qed

text \<open>
  \<^bold>\<open>The license table keeps its type (C24).\<close> Starting from an empty table, after any run of imports,
  activations, revocations and restarts: identifiers are unique and not empty, each row is either
  active or revoked with a revocation time, its digest is \<^verbatim>\<open>sha256:\<close> with 64 hexadecimal digits, the end
  of the grace period is stored exactly for licenses that expire, and features are at most 256 non-empty
  names.
\<close>

theorem license_table_well_typed:
  assumes "license_step\<^sup>*\<^sup>* \<lparr> ls_License = None, ls_db = \<lparr> ld_licenses = [], ld_activations = [], ld_audit = [] \<rparr> \<rparr> st"
  shows "licenses_ok (ld_licenses (ls_db st))"
  using license_tables.run_keeps [OF assms] by (simp add: licenses_ok_def)

text \<open>
  \<^bold>\<open>Grace needs a fresh verification (C38).\<close> The status of the license in use is computed when it is
  verified and not again. Let the license be verified before its expiry and let a session ask for
  activation within the grace period, with every statement answered and the license registered and not
  revoked: the request is refused as expired. Were the same license verified at that moment, it would be
  in its grace period and the request would be answered.
\<close>

theorem grace_refused_until_reverified:
  assumes v: "VerifyLicense lib t0 ver raw = Inr v" and e: "lc_ExpiresAt (vd_Claims v) = Some e"
    and times: "t0 \<le> parsed_time e" "parsed_time e < now" "now < parsed_time e + grace_duration (lc_GraceDays (vd_Claims v))"
    and env: "\<forall>q. se_ok env q" "le_verifier env \<noteq> None" "se_clock env ''entitlement'' = now" "le_LicenseDeploymentID env = tc_DeploymentID claims"
    and ids: "tc_Subject claims \<noteq> []" "tc_SessionID claims \<noteq> []" "\<forall>c. jl_sign (se_lib env) (sv_private (se_service env)) (sv_keyID (se_service env)) c \<noteq> None"
    and row: "find_license (tc_DeploymentID claims) (lc_LicenseID (vd_Claims v)) (ls_db st) = Some l" "lr_Status l = ''active''" "lr_RevokedAt l = None"
      "list_all (\<lambda>a. la_LicenseID a = lc_LicenseID (vd_Claims v) \<longrightarrow> la_RevokedAt a = None) (ld_activations (ls_db st))"
  shows "fst (activateLicense env claims True (SetLicense v st)) = Problem_of 403 ''LICENSE_EXPIRED''
    \<and> (\<exists>v' a. VerifyLicense lib now ver raw = Inr v' \<and> vd_Status v' = ''enterprise-grace''
         \<and> fst (activateLicense env claims True (SetLicense v' st)) = Answered a \<and> ac_licenseId a = lc_LicenseID (vd_Claims v))"
proof -
  let ?c = "vd_Claims v" and ?g = "parsed_time e + grace_duration (lc_GraceDays (vd_Claims v))"
  obtain f: "validClaims ?c" "vd_Status v = license_phase t0 (license_expiry ?c) (license_grace ?c)" "vd_GraceEndsAt v = license_grace ?c"
    using v by (rule VerifyLicense_facts)
  have x: "license_expiry ?c = Some (parsed_time e)" "license_grace ?c = Some ?g" by (simp_all add: license_expiry_def license_grace_def e)
  have st: "vd_Status v = ''enterprise-active''" "license_phase now (license_expiry ?c) (license_grace ?c) = ''enterprise-grace''"
    using f(2) times by (simp_all add: x license_phase_simps)
  let ?v = "v \<lparr> vd_Status := ''enterprise-grace'' \<rparr>"
  have later: "VerifyLicense lib now ver raw = Inr ?v" using VerifyLicense_later [OF v, of now] times st(2) by simp
  have ax: "activation_expiry v = Inr (Some (parsed_time e))" "activation_expiry ?v = Inr (Some ?g)"
    using validClaims_expiry [OF f(1) e] f(3) by (simp_all add: activation_expiry_def e st x)
  have dig: "vd_Digest v \<noteq> []" using VerifyLicense_digest [OF v] by (auto simp: digest_text_def)
  have act: "\<exists>db1. ActivateLicense env (lc_LicenseID ?c) (tc_DeploymentID claims) (tc_Subject claims) (ls_db st) = (Inr (), db1)"
    by (rule ActivateLicense_working [OF env(1) row])
  have "fst (activateLicense env claims True (SetLicense v st)) = Problem_of 403 ''LICENSE_EXPIRED''"
    by (rule activateLicense_working(1) [OF env(1,2,4) _ ax(1) act ids(1,2) f(1) dig ids(3)])
      (use times in \<open>simp_all add: st env(3) entitlement_expiry_def Let_def\<close>)
  moreover have "\<exists>t. entitlement_expiry (se_clock env ''entitlement'') (Some ?g) = Some t"
    using times by (simp add: env(3) entitlement_expiry_def Let_def)
  then obtain t where "entitlement_expiry (se_clock env ''entitlement'') (Some ?g) = Some t" by blast
  then have "\<exists>a. fst (activateLicense env claims True (SetLicense ?v st)) = Answered a \<and> ac_licenseId a = lc_LicenseID ?c"
    using activateLicense_working(2) [OF env(1,2,4) _ ax(2) _ ids(1,2) _ _ ids(3), of st t] act f(1) dig by auto
  ultimately show ?thesis using later by auto
qed

section \<open>A concrete license\<close>

definition demo_license_claims :: LicenseClaims where
  "demo_license_claims = \<lparr> lc_LicenseID = ''lic'', lc_CustomerID = ''cust'', lc_DeploymentID = ''acme'', lc_Edition = ''enterprise'',
     lc_IssuedAt = ''1970-01-01T00:00:00.000Z'', lc_NotBefore = [], lc_ExpiresAt = Some ''1970-01-02T00:00:00.000Z'', lc_MaintenanceUntil = [],
     lc_GraceDays = 14, lc_Features = [''b'', ''a''] \<rparr>"

definition demo_license_lib :: license_lib where
  "demo_license_lib = \<lparr> ll_envelope = (\<lambda>_. Some \<lparr> en_Format = formatV1, en_KeyID = ''k'', en_Payload = ''p'', en_Signature = ''s'' \<rparr>),
     ll_claims = (\<lambda>_. Some demo_license_claims), ll_json = (\<lambda>_. Some JNull), ll_text = (\<lambda>s. s), ll_marshal = (\<lambda>_. Some ''c''),
     ll_verify = (\<lambda>_ _ _. True) \<rparr>"

definition demo_license_verifier :: LicenseVerifier where
  "demo_license_verifier = \<lparr> lv_TrustedKeys = [''k'' \<mapsto> ''key''], lv_ExpectedDeployment = ''acme'' \<rparr>"

definition demo_license_env :: "time \<Rightarrow> license_env" where
  "demo_license_env now = \<lparr> se_lib = (demo_jwt []) \<lparr> jl_sign := (\<lambda>_ _ _. Some ''T'') \<rparr>, se_service = demo_service, se_config = deployment_of ''acme'' ''acme'',
     se_RefreshTTL = hour, se_AccessTTL = hour, se_ModelAccessTTL = hour, se_directory = demo_directory ''x'', se_events = [], se_profile = (\<lambda>_ _. None),
     se_clock = (\<lambda>_. now), se_uuid = (\<lambda>_. ''i''), se_random = None, se_ok = (\<lambda>_. True),
     le_lib = demo_license_lib, le_verifier = Some demo_license_verifier, le_LicenseDeploymentID = ''acme'', le_LicenseCustomerID = [] \<rparr>"

definition demo_license_row :: license_row where
  "demo_license_row = \<lparr> lr_LicenseID = ''lic'', lr_DeploymentID = ''acme'', lr_CustomerID = ''cust'', lr_Digest = ''sha256:'' @ replicate 64 (CHR ''a''),
     lr_KeyID = ''k'', lr_Status = ''active'', lr_IssuedAt = 0, lr_ExpiresAt = None, lr_GraceEndsAt = None, lr_Features = [], lr_Payload = [],
     lr_RevokedAt = None, lr_CreatedAt = 0, lr_UpdatedAt = 0 \<rparr>"

definition demo_license_state :: license_state where
  "demo_license_state = \<lparr> ls_License = None, ls_db = \<lparr> ld_licenses = [demo_license_row], ld_activations = [], ld_audit = [] \<rparr> \<rparr>"

lemma demo_times:
  "parse_timestamp ''1970-01-01T00:00:00.000Z'' = Some 0"
  "parse_timestamp ''1970-01-02T00:00:00.000Z'' = Some (86400 * second)"
  "parse_timestamp ''2024-02-29T23:59:59.999Z'' = Some (1709251199 * second + 999000000)"
  "parse_timestamp ''2023-02-29T00:00:00.000Z'' = None"
  by code_simp+

lemma demo_grace: "grace_duration 14 = 14 * 24 * hour"
  by code_simp

lemma demo_verified: "0 \<le> now \<Longrightarrow> \<exists>v. VerifyLicense demo_license_lib now demo_license_verifier ''x'' = Inr v \<and> vd_Claims v = demo_license_claims"
proof -
  assume now: "0 \<le> now"
  have c: "validClaims demo_license_claims" by code_simp
  have t: "lc_NotBefore demo_license_claims = []" "parsed_time (lc_IssuedAt demo_license_claims) = 0"
    using demo_times(1) by (simp_all add: demo_license_claims_def parsed_time_def)
  show ?thesis
    using now c t
    by (simp add: VerifyLicense_def Let_def demo_license_lib_def demo_license_verifier_def formatV1_def canonicalizeJSON_def envelopeDigest_def)
      (simp add: demo_license_claims_def)
qed

definition demo_license_user :: Token_Service.Claims where
  "demo_license_user = demo_token ''aep'' ''aep-control'' True"

lemma demo_license_user_fields: "tc_DeploymentID demo_license_user = ''acme''" "tc_Subject demo_license_user \<noteq> []" "tc_SessionID demo_license_user \<noteq> []"
  by (simp_all add: demo_license_user_def demo_token_def)

theorem grace_refused_until_reverified_witness:
  "\<exists>v v' a. VerifyLicense demo_license_lib 0 demo_license_verifier ''x'' = Inr v
     \<and> fst (activateLicense (demo_license_env (48 * hour)) demo_license_user True (SetLicense v demo_license_state)) = Problem_of 403 ''LICENSE_EXPIRED''
     \<and> VerifyLicense demo_license_lib (48 * hour) demo_license_verifier ''x'' = Inr v' \<and> vd_Status v' = ''enterprise-grace''
     \<and> fst (activateLicense (demo_license_env (48 * hour)) demo_license_user True (SetLicense v' demo_license_state)) = Answered a"
proof -
  obtain v where v: "VerifyLicense demo_license_lib 0 demo_license_verifier ''x'' = Inr v" "vd_Claims v = demo_license_claims"
    using demo_verified [of 0] by auto
  have c: "lc_ExpiresAt (vd_Claims v) = Some ''1970-01-02T00:00:00.000Z''" "lc_GraceDays (vd_Claims v) = 14" "lc_LicenseID (vd_Claims v) = ''lic''"
    by (simp_all add: v(2) demo_license_claims_def)
  have t: "parsed_time ''1970-01-02T00:00:00.000Z'' = 86400 * second" by (simp add: parsed_time_def demo_times)
  from grace_refused_until_reverified [OF v(1) c(1), of "48 * hour" "demo_license_env (48 * hour)" demo_license_user demo_license_state demo_license_row]
  have "fst (activateLicense (demo_license_env (48 * hour)) demo_license_user True (SetLicense v demo_license_state)) = Problem_of 403 ''LICENSE_EXPIRED''
    \<and> (\<exists>v' a. VerifyLicense demo_license_lib (48 * hour) demo_license_verifier ''x'' = Inr v' \<and> vd_Status v' = ''enterprise-grace''
       \<and> fst (activateLicense (demo_license_env (48 * hour)) demo_license_user True (SetLicense v' demo_license_state)) = Answered a
       \<and> ac_licenseId a = lc_LicenseID (vd_Claims v))"
    using demo_license_user_fields
    by (simp add: c t demo_grace demo_license_env_def demo_license_state_def demo_license_row_def find_license_def)
  with v(1) show ?thesis by blast
qed

theorem license_revocation_is_final_witness:
  "\<exists>st1 st2. revokeLicense (demo_license_env 0) demo_license_user ''lic'' demo_license_state = (Answered (), st1)
     \<and> st2 = snd (importLicense (demo_license_env 0) demo_license_user (Some ''x'') st1)
     \<and> (\<nexists>a. fst (activateLicense (demo_license_env 0) demo_license_user True st2) = Answered a \<and> ac_licenseId a = ''lic'')"
proof -
  have ok: "licenses_ok (ld_licenses (ls_db demo_license_state))"
    by (simp add: licenses_ok_def license_row_ok_def demo_license_state_def demo_license_row_def digest_text_def has_prefix_def is_hex_def byte_def list_all_iff)
  obtain st1 where r: "revokeLicense (demo_license_env 0) demo_license_user ''lic'' demo_license_state = (Answered (), st1)"
    by (simp add: revokeLicense_def demo_license_state_def demo_license_row_def find_license_def demo_license_env_def demo_license_user_fields Let_def)
  have s: "license_step\<^sup>*\<^sup>* st1 (snd (importLicense (demo_license_env 0) demo_license_user (Some ''x'') st1))"
    by (rule r_into_rtranclp) (rule license_step.import)
  have d: "se_ok (demo_license_env 0) ''database''" by (simp add: demo_license_env_def)
  from license_revocation_is_final [OF ok r s, where env' = "demo_license_env 0" and claims' = demo_license_user and decoded = True] d r show ?thesis by blast
qed

theorem license_table_well_typed_witness:
  "\<exists>st. license_step\<^sup>*\<^sup>* \<lparr> ls_License = None, ls_db = \<lparr> ld_licenses = [], ld_activations = [], ld_audit = [] \<rparr> \<rparr> st
     \<and> length (ld_licenses (ls_db st)) = 1 \<and> licenses_ok (ld_licenses (ls_db st))"
proof -
  let ?e = "\<lparr> ls_License = None, ls_db = \<lparr> ld_licenses = [], ld_activations = [], ld_audit = [] \<rparr> \<rparr>"
  let ?st = "snd (importLicense (demo_license_env 0) demo_license_user (Some ''x'') ?e)"
  have s: "license_step\<^sup>*\<^sup>* ?e ?st" by (rule r_into_rtranclp) (rule license_step.import)
  obtain v where v: "VerifyLicense demo_license_lib 0 demo_license_verifier ''x'' = Inr v" "vd_Claims v = demo_license_claims" using demo_verified [of 0] by auto
  have "vd_Status v = license_phase 0 (license_expiry (vd_Claims v)) (license_grace (vd_Claims v))"
    using v(1) by (rule VerifyLicense_facts)
  also have "\<dots> = ''enterprise-active''"
    by (simp add: v(2) demo_license_claims_def license_expiry_def parsed_time_def demo_times license_phase_def)
  finally have "vd_Status v \<noteq> ''enterprise-expired''" by simp
  then have "length (ld_licenses (ls_db ?st)) = 1"
    using v(1) by (simp add: importLicense_def demo_license_env_def RegisterLicense_def recordLicenseAudit_def findLicense_def SetLicense_def Let_def split: option.split)
  with s license_table_well_typed [OF s] show ?thesis by blast
qed

end
