(* ===== verification/Rbac_Store.thy ===== *)
theory Rbac_Store
  imports Sessions Identifiers
begin

text \<open>
  The directory of roles, teams and users as the repository layer changes it:
  \<^verbatim>\<open>internal/repository/rbac.go\<close>, \<^verbatim>\<open>identity.go\<close> and the helpers of \<^verbatim>\<open>store.go\<close>, with the
  foreign keys, unique constraints and cascades of the schema. An operation returns an error or the new
  tables; a failed transaction leaves the tables as they were.
\<close>

section \<open>Results and tables\<close>

datatype store_error =
    ErrNotFound
  | ErrUnknownPermission
  | ErrUnknownRole
  | ErrUnknownTeam
  | ErrBuiltInResource
  | UniqueViolation
  | ForeignKeyViolation string
  | StoreFailure

definition bindS :: "'e + 'a \<Rightarrow> ('a \<Rightarrow> 'e + 'b) \<Rightarrow> 'e + 'b" where
  "bindS m f = (case m of Inl e \<Rightarrow> Inl e | Inr x \<Rightarrow> f x)"

definition ensure :: "bool \<Rightarrow> 'e \<Rightarrow> 'e + unit" where
  "ensure b e = (if b then Inr () else Inl e)"

abbreviation stmt :: "session_env \<Rightarrow> string \<Rightarrow> store_error + unit" where
  "stmt env q \<equiv> ensure (se_ok env q) StoreFailure"

lemma bindS_simps [simp]: "bindS (Inl e) f = Inl e" "bindS (Inr x) f = f x"
  by (simp_all add: bindS_def)

lemma bindS_Inr_iff: "bindS m f = Inr y \<longleftrightarrow> (\<exists>x. m = Inr x \<and> f x = Inr y)"
  by (cases m) simp_all

lemma ensure_Inr [simp]: "ensure b e = Inr u \<longleftrightarrow> b"
  by (simp add: ensure_def)

lemma find_SomeD: "find P xs = Some x \<Longrightarrow> x \<in> set xs \<and> P x"
  by (auto simp: find_Some_iff)

text \<open>\<open>rb_grants\<close> holds the rows of \<^verbatim>\<open>skill_assignments\<close>, \<^verbatim>\<open>credential_assignments\<close> and
  \<^verbatim>\<open>data_scope_rules\<close>; model assignments are in the directory. \<open>rb_homes\<close> are the triples
  of deployment, agent and home team of the agent profiles. The payload of an audit row is not kept.\<close>

record grant_row =
  gr_Table :: string
  gr_DeploymentID :: string
  gr_SubjectType :: string
  gr_SubjectID :: string
  gr_ResourceID :: string

record admin_audit_row =
  aa_DeploymentID :: string
  aa_Actor :: string
  aa_Action :: string
  aa_ResourceType :: string
  aa_ResourceID :: string

record rbac_db =
  rb_dir :: directory
  rb_permissions :: "string list"
  rb_grants :: "grant_row list"
  rb_homes :: "(string \<times> string \<times> string) list"
  rb_audit :: "admin_audit_row list"

fun unique_from :: "string list \<Rightarrow> string list \<Rightarrow> string list" where
  "unique_from seen [] = []"
| "unique_from seen (v # vs) = (if v \<in> set seen then unique_from seen vs else v # unique_from (v # seen) vs)"

definition uniqueStrings :: "string list \<Rightarrow> string list" where
  "uniqueStrings xs = unique_from [] xs"

definition RecordAdminAudit :: "session_env \<Rightarrow> string \<Rightarrow> string \<Rightarrow> string \<Rightarrow> string \<Rightarrow> string \<Rightarrow> rbac_db \<Rightarrow> store_error + rbac_db" where
  "RecordAdminAudit env dep actor act kind i db =
     bindS (stmt env ''audit'') (\<lambda>_.
     Inr (db \<lparr> rb_audit := rb_audit db @
       [\<lparr> aa_DeploymentID = dep, aa_Actor = actor, aa_Action = act, aa_ResourceType = kind, aa_ResourceID = i \<rparr>] \<rparr>))"

section \<open>Roles\<close>

type_synonym role_record = "role_row \<times> string list"

definition role_permission_ids :: "directory \<Rightarrow> string \<Rightarrow> string \<Rightarrow> string list" where
  "role_permission_ids d dep role = sort [p. (dep', role', p) \<leftarrow> d_role_permissions d, dep' = dep \<and> role' = role]"

definition ListPermissions :: "session_env \<Rightarrow> rbac_db \<Rightarrow> store_error + string list" where
  "ListPermissions env db = bindS (stmt env ''list permissions'') (\<lambda>_. Inr (sort (rb_permissions db)))"

definition ListRolesPage :: "session_env \<Rightarrow> string \<Rightarrow> string \<Rightarrow> nat \<Rightarrow> rbac_db \<Rightarrow> store_error + role_record list" where
  "ListRolesPage env dep cursor fetchLimit db =
     bindS (stmt env ''list roles'') (\<lambda>_.
     (let rows = sort_key role_ID (filter (\<lambda>r. role_DeploymentID r = dep \<and> (cursor \<noteq> [] \<longrightarrow> role_ID r > cursor)) (d_roles (rb_dir db)));
          roles = (if fetchLimit > 0 then take fetchLimit rows else rows) in
      bindS (ensure (roles = [] \<or> se_ok env ''list role permissions'') StoreFailure) (\<lambda>_.
      Inr (map (\<lambda>r. (r, role_permission_ids (rb_dir db) dep (role_ID r))) roles))))"

definition find_role :: "directory \<Rightarrow> string \<Rightarrow> string \<Rightarrow> role_row option" where
  "find_role d dep i = find (\<lambda>r. role_DeploymentID r = dep \<and> role_ID r = i) (d_roles d)"

definition take_role :: "session_env \<Rightarrow> string \<Rightarrow> string \<Rightarrow> rbac_db \<Rightarrow> store_error + role_row" where
  "take_role env dep i db =
     bindS (stmt env ''take role'') (\<lambda>_. case find_role (rb_dir db) dep i of None \<Rightarrow> Inl ErrNotFound | Some r \<Rightarrow> Inr r)"

definition GetRoleRecord :: "session_env \<Rightarrow> string \<Rightarrow> string \<Rightarrow> rbac_db \<Rightarrow> store_error + role_record" where
  "GetRoleRecord env dep i db =
     bindS (take_role env dep i db) (\<lambda>role.
     bindS (ListRolesPage env dep [] 0 db) (\<lambda>roles.
     case find (\<lambda>(r, _). role_ID r = i) roles of None \<Rightarrow> Inr (role, []) | Some item \<Rightarrow> Inr item))"

definition permissions_known :: "session_env \<Rightarrow> string list \<Rightarrow> rbac_db \<Rightarrow> store_error + unit" where
  "permissions_known env items db =
     (if items = [] then Inr ()
      else bindS (stmt env ''count permissions'') (\<lambda>_.
           ensure (length (filter (\<lambda>p. p \<in> set items) (rb_permissions db)) = length items) ErrUnknownPermission))"

definition CreateRole :: "session_env \<Rightarrow> string \<Rightarrow> role_row \<Rightarrow> string list \<Rightarrow> rbac_db \<Rightarrow> store_error + rbac_db" where
  "CreateRole env dep role0 permissions0 db =
     (let role = role0 \<lparr> role_DeploymentID := dep, role_Enabled := True \<rparr>;
          permissions = uniqueStrings permissions0;
          d = rb_dir db in
      bindS (stmt env ''insert role'') (\<lambda>_.
      bindS (ensure (\<not> list_ex (\<lambda>r. role_DeploymentID r = dep \<and> (role_ID r = role_ID role \<or> role_Name r = role_Name role)) (d_roles d)) UniqueViolation) (\<lambda>_.
      bindS (permissions_known env permissions db) (\<lambda>_.
      bindS (ensure (permissions = [] \<or> se_ok env ''insert role permissions'') StoreFailure) (\<lambda>_.
      Inr (db \<lparr> rb_dir := d \<lparr> d_roles := d_roles d @ [role],
                 d_role_permissions := d_role_permissions d @ map (\<lambda>p. (dep, role_ID role, p)) permissions \<rparr> \<rparr>))))))"

definition set_if :: "'a option \<Rightarrow> ('a \<Rightarrow> 'r \<Rightarrow> 'r) \<Rightarrow> 'r \<Rightarrow> 'r" where
  "set_if v f r = (case v of None \<Rightarrow> r | Some x \<Rightarrow> f x r)"

definition update_role_row :: "string option \<Rightarrow> string option \<Rightarrow> bool option \<Rightarrow> role_row \<Rightarrow> role_row" where
  "update_role_row name description enabled r =
     set_if enabled (\<lambda>v. role_Enabled_update (\<lambda>_. v)) (set_if description (\<lambda>v. role_Description_update (\<lambda>_. v))
       (set_if name (\<lambda>v. role_Name_update (\<lambda>_. v)) r))"

definition UpdateRole ::
  "session_env \<Rightarrow> string \<Rightarrow> string \<Rightarrow> string option \<Rightarrow> string option \<Rightarrow> bool option \<Rightarrow> string list option \<Rightarrow> rbac_db \<Rightarrow> store_error + (role_record \<times> rbac_db)" where
  "UpdateRole env dep i name description enabled permissions db =
     bindS (take_role env dep i db) (\<lambda>role.
     bindS (ensure (\<not> role_BuiltIn role) ErrBuiltInResource) (\<lambda>_.
     bindS (stmt env ''update role'') (\<lambda>_.
     bindS (ensure (name = None \<or> \<not> list_ex (\<lambda>r. role_DeploymentID r = dep \<and> role_ID r \<noteq> i \<and> Some (role_Name r) = name) (d_roles (rb_dir db))) UniqueViolation) (\<lambda>_.
     (let d = rb_dir db;
          d1 = d \<lparr> d_roles := map (\<lambda>r. if role_DeploymentID r = dep \<and> role_ID r = i then update_role_row name description enabled r else r) (d_roles d) \<rparr> in
      bindS (case permissions of
               None \<Rightarrow> Inr d1
             | Some requested \<Rightarrow>
                (let items = uniqueStrings requested in
                 bindS (permissions_known env items db) (\<lambda>_.
                 bindS (ensure (se_ok env ''delete role permissions'' \<and> (items = [] \<or> se_ok env ''insert role permissions'')) StoreFailure) (\<lambda>_.
                 Inr (d1 \<lparr> d_role_permissions := filter (\<lambda>(dep', role', _). \<not> (dep' = dep \<and> role' = i)) (d_role_permissions d1)
                            @ map (\<lambda>p. (dep, i, p)) items \<rparr>)))))
        (\<lambda>d2. let db1 = db \<lparr> rb_dir := d2 \<rparr> in
          bindS (GetRoleRecord env dep i db1) (\<lambda>r. Inr (r, db1))))))))"

section \<open>Deleting a role or a team\<close>

definition drop_grants :: "string \<Rightarrow> string \<Rightarrow> string \<Rightarrow> rbac_db \<Rightarrow> rbac_db" where
  "drop_grants dep kind i db = db \<lparr>
     rb_grants := filter (\<lambda>g. \<not> (gr_DeploymentID g = dep \<and> gr_SubjectType g = kind \<and> gr_SubjectID g = i)) (rb_grants db),
     rb_dir := (rb_dir db) \<lparr> d_model_assignments :=
       filter (\<lambda>a. \<not> (ma_DeploymentID a = dep \<and> ma_SubjectType a = kind \<and> ma_SubjectID a = i)) (d_model_assignments (rb_dir db)) \<rparr> \<rparr>"

text \<open>Deleting the row itself: a role cascades to its permissions and bindings and is held by the
  default roles of teams; a team cascades to its memberships and default roles and is held by child teams
  and by the home teams of agents.\<close>

definition delete_role_row :: "string \<Rightarrow> string \<Rightarrow> rbac_db \<Rightarrow> store_error + rbac_db" where
  "delete_role_row dep i db =
     (let d = rb_dir db in
      if list_ex (\<lambda>(dep', _, role). dep' = dep \<and> role = i) (d_team_default_roles d) then Inl (ForeignKeyViolation ''team_default_roles_role_fk'')
      else Inr (db \<lparr> rb_dir := d \<lparr>
        d_roles := filter (\<lambda>r. \<not> (role_DeploymentID r = dep \<and> role_ID r = i)) (d_roles d),
        d_role_permissions := filter (\<lambda>(dep', role, _). \<not> (dep' = dep \<and> role = i)) (d_role_permissions d),
        d_user_role_bindings := filter (\<lambda>(dep', _, role). \<not> (dep' = dep \<and> role = i)) (d_user_role_bindings d) \<rparr> \<rparr>))"

definition delete_team_row :: "string \<Rightarrow> string \<Rightarrow> rbac_db \<Rightarrow> store_error + rbac_db" where
  "delete_team_row dep i db =
     (let d = rb_dir db in
      if list_ex (\<lambda>t. team_DeploymentID t = dep \<and> team_ParentTeamID t = Some i) (d_teams d) then Inl (ForeignKeyViolation ''teams_parent_fk'')
      else if list_ex (\<lambda>(dep', _, team). dep' = dep \<and> team = i) (rb_homes db) then Inl (ForeignKeyViolation ''agent_profiles_home_team_fk'')
      else Inr (db \<lparr> rb_dir := d \<lparr>
        d_teams := filter (\<lambda>t. \<not> (team_DeploymentID t = dep \<and> team_ID t = i)) (d_teams d),
        d_user_team_bindings := filter (\<lambda>(dep', _, team). \<not> (dep' = dep \<and> team = i)) (d_user_team_bindings d),
        d_team_default_roles := filter (\<lambda>(dep', team, _). \<not> (dep' = dep \<and> team = i)) (d_team_default_roles d) \<rparr> \<rparr>))"

definition deleteSubject :: "session_env \<Rightarrow> string \<Rightarrow> string \<Rightarrow> string \<Rightarrow> (rbac_db \<Rightarrow> store_error + rbac_db) \<Rightarrow> rbac_db \<Rightarrow> store_error + rbac_db" where
  "deleteSubject env dep kind i delete_row db =
     bindS (stmt env ''lock subject'') (\<lambda>_.
     bindS (stmt env ''delete grants'') (\<lambda>_.
     bindS (stmt env ''delete subject'') (\<lambda>_.
     delete_row (drop_grants dep kind i db))))"

definition DeleteRole :: "session_env \<Rightarrow> string \<Rightarrow> string \<Rightarrow> rbac_db \<Rightarrow> store_error + rbac_db" where
  "DeleteRole env dep i db =
     bindS (take_role env dep i db) (\<lambda>role.
     bindS (ensure (\<not> role_BuiltIn role) ErrBuiltInResource) (\<lambda>_.
     deleteSubject env dep ''role'' i (delete_role_row dep i) db))"

section \<open>Teams\<close>

type_synonym team_record = "team_row \<times> nat \<times> string list"

definition team_record_of :: "directory \<Rightarrow> string \<Rightarrow> team_row \<Rightarrow> team_record" where
  "team_record_of d dep t =
     (t, length (filter (\<lambda>(dep', _, team). dep' = dep \<and> team = team_ID t) (d_user_team_bindings d)),
      sort [role. (dep', team, role) \<leftarrow> d_team_default_roles d, dep' = dep \<and> team = team_ID t])"

definition ListTeamsPage :: "session_env \<Rightarrow> string \<Rightarrow> string \<Rightarrow> nat \<Rightarrow> rbac_db \<Rightarrow> store_error + team_record list" where
  "ListTeamsPage env dep cursor fetchLimit db =
     bindS (stmt env ''list teams'') (\<lambda>_.
     (let rows = sort_key team_ID (filter (\<lambda>t. team_DeploymentID t = dep \<and> (cursor \<noteq> [] \<longrightarrow> team_ID t > cursor)) (d_teams (rb_dir db))) in
      Inr (map (team_record_of (rb_dir db) dep) (if fetchLimit > 0 then take fetchLimit rows else rows))))"

definition GetTeamRecord :: "session_env \<Rightarrow> string \<Rightarrow> string \<Rightarrow> rbac_db \<Rightarrow> store_error + team_record" where
  "GetTeamRecord env dep i db =
     bindS (ListTeamsPage env dep [] 0 db) (\<lambda>teams.
     case find (\<lambda>(t, _). team_ID t = i) teams of None \<Rightarrow> Inl ErrNotFound | Some item \<Rightarrow> Inr item)"

definition replaceTeamDefaultRoles :: "session_env \<Rightarrow> string \<Rightarrow> string \<Rightarrow> string list \<Rightarrow> rbac_db \<Rightarrow> store_error + rbac_db" where
  "replaceTeamDefaultRoles env dep team roleIDs0 db =
     (let roleIDs = uniqueStrings roleIDs0; d = rb_dir db in
      bindS (if roleIDs = [] then Inr ()
             else bindS (stmt env ''count roles'') (\<lambda>_.
                  ensure (length (filter (\<lambda>r. role_DeploymentID r = dep \<and> role_ID r \<in> set roleIDs) (d_roles d)) = length roleIDs) ErrUnknownRole)) (\<lambda>_.
      bindS (ensure (se_ok env ''delete default roles'' \<and> (roleIDs = [] \<or> se_ok env ''insert default roles'')) StoreFailure) (\<lambda>_.
      Inr (db \<lparr> rb_dir := d \<lparr> d_team_default_roles :=
        filter (\<lambda>(dep', team', _). \<not> (dep' = dep \<and> team' = team)) (d_team_default_roles d) @ map (\<lambda>r. (dep, team, r)) roleIDs \<rparr> \<rparr>))))"

definition CreateTeam :: "session_env \<Rightarrow> string \<Rightarrow> team_row \<Rightarrow> string list option \<Rightarrow> rbac_db \<Rightarrow> store_error + rbac_db" where
  "CreateTeam env dep team0 defaults db =
     (let team = team0 \<lparr> team_DeploymentID := dep, team_Enabled := True \<rparr>; d = rb_dir db in
      bindS (stmt env ''insert team'') (\<lambda>_.
      bindS (ensure (\<not> list_ex (\<lambda>t. team_DeploymentID t = dep \<and> (team_ID t = team_ID team \<or> team_Name t = team_Name team)) (d_teams d)) UniqueViolation) (\<lambda>_.
      bindS (ensure (case team_ParentTeamID team of None \<Rightarrow> True
               | Some p \<Rightarrow> list_ex (\<lambda>t. team_DeploymentID t = dep \<and> team_ID t = p) (d_teams d)) (ForeignKeyViolation ''teams_parent_fk'')) (\<lambda>_.
      (let db1 = db \<lparr> rb_dir := d \<lparr> d_teams := d_teams d @ [team] \<rparr> \<rparr> in
       case defaults of None \<Rightarrow> Inr db1 | Some ids \<Rightarrow> replaceTeamDefaultRoles env dep (team_ID team) ids db1)))))"

definition update_team_row :: "string option \<Rightarrow> string option \<Rightarrow> bool option \<Rightarrow> team_row \<Rightarrow> team_row" where
  "update_team_row name description enabled t =
     set_if enabled (\<lambda>v. team_Enabled_update (\<lambda>_. v)) (set_if description (\<lambda>v. team_Description_update (\<lambda>_. v))
       (set_if name (\<lambda>v. team_Name_update (\<lambda>_. v)) t))"

definition UpdateTeam ::
  "session_env \<Rightarrow> string \<Rightarrow> string \<Rightarrow> string option \<Rightarrow> string option \<Rightarrow> bool option \<Rightarrow> string list option \<Rightarrow> rbac_db \<Rightarrow> store_error + (team_record \<times> rbac_db)" where
  "UpdateTeam env dep i name description enabled defaults db =
     (let d = rb_dir db;
          mine = (\<lambda>t. team_DeploymentID t = dep \<and> team_ID t = i) in
      bindS (stmt env ''update team'') (\<lambda>_.
      bindS (ensure (name = None \<or> \<not> list_ex mine (d_teams d)
              \<or> \<not> list_ex (\<lambda>t. team_DeploymentID t = dep \<and> team_ID t \<noteq> i \<and> Some (team_Name t) = name) (d_teams d)) UniqueViolation) (\<lambda>_.
      bindS (ensure (list_ex mine (d_teams d)) ErrNotFound) (\<lambda>_.
      (let db1 = db \<lparr> rb_dir := d \<lparr> d_teams := map (\<lambda>t. if mine t then update_team_row name description enabled t else t) (d_teams d) \<rparr> \<rparr> in
       bindS (case defaults of None \<Rightarrow> Inr db1 | Some ids \<Rightarrow> replaceTeamDefaultRoles env dep i ids db1) (\<lambda>db2.
       bindS (GetTeamRecord env dep i db2) (\<lambda>t. Inr (t, db2))))))))"

definition DeleteTeam :: "session_env \<Rightarrow> string \<Rightarrow> string \<Rightarrow> rbac_db \<Rightarrow> store_error + rbac_db" where
  "DeleteTeam env dep i db =
     bindS (stmt env ''take team'') (\<lambda>_.
     case find (\<lambda>t. team_DeploymentID t = dep \<and> team_ID t = i) (d_teams (rb_dir db)) of
       None \<Rightarrow> Inl ErrNotFound
     | Some team \<Rightarrow>
        bindS (ensure (\<not> team_BuiltIn team) ErrBuiltInResource) (\<lambda>_.
        deleteSubject env dep ''team'' i (delete_team_row dep i) db))"

section \<open>Users\<close>

record CreateUserParams =
  cu_ID :: string
  cu_Username :: string
  cu_DisplayName :: string
  cu_Email :: "string option"
  cu_PasswordHash :: string
  cu_RequirePasswordChange :: bool
  cu_IsAdmin :: bool
  cu_Kind :: string
  cu_RoleIDs :: "string list"
  cu_TeamIDs :: "string list"

type_synonym user_record = "user_row \<times> string list \<times> string list"

definition find_user :: "directory \<Rightarrow> string \<Rightarrow> string \<Rightarrow> user_row option" where
  "find_user d dep i = find (\<lambda>u. u_DeploymentID u = dep \<and> u_ID u = i) (d_users d)"

definition GetUser :: "session_env \<Rightarrow> string \<Rightarrow> string \<Rightarrow> rbac_db \<Rightarrow> store_error + user_row" where
  "GetUser env dep i db =
     bindS (stmt env ''take user'') (\<lambda>_. case find_user (rb_dir db) dep i of None \<Rightarrow> Inl ErrNotFound | Some u \<Rightarrow> Inr u)"

definition UserRoleIDs :: "directory \<Rightarrow> string \<Rightarrow> string \<Rightarrow> string list" where
  "UserRoleIDs d dep user = sort [role. (dep', user', role) \<leftarrow> d_user_role_bindings d, dep' = dep \<and> user' = user]"

definition GetUserRecord :: "session_env \<Rightarrow> string \<Rightarrow> string \<Rightarrow> rbac_db \<Rightarrow> store_error + user_record" where
  "GetUserRecord env dep i db =
     bindS (GetUser env dep i db) (\<lambda>user.
     bindS (stmt env ''user roles'') (\<lambda>_.
     bindS (stmt env ''user teams'') (\<lambda>_.
     Inr (user, UserRoleIDs (rb_dir db) dep i, UserTeamIDs (rb_dir db) dep i))))"

definition ListUsers :: "session_env \<Rightarrow> string \<Rightarrow> string \<Rightarrow> nat \<Rightarrow> rbac_db \<Rightarrow> store_error + user_record list" where
  "ListUsers env dep cursor n db =
     bindS (stmt env ''list users'') (\<lambda>_.
     (let users = take n (sort_key u_ID (filter (\<lambda>u. u_DeploymentID u = dep \<and> u_Kind u = ''human'' \<and> (cursor \<noteq> [] \<longrightarrow> u_ID u > cursor)) (d_users (rb_dir db)))) in
      bindS (ensure (users = [] \<or> (se_ok env ''list user roles'' \<and> se_ok env ''list user teams'')) StoreFailure) (\<lambda>_.
      Inr (map (\<lambda>u. (u, UserRoleIDs (rb_dir db) dep (u_ID u), UserTeamIDs (rb_dir db) dep (u_ID u))) users))))"

text \<open>A binding names an existing role or team of the deployment, by its foreign key.\<close>

definition role_exists :: "directory \<Rightarrow> string \<Rightarrow> string \<Rightarrow> bool" where
  "role_exists d dep i = list_ex (\<lambda>r. role_DeploymentID r = dep \<and> role_ID r = i) (d_roles d)"

definition team_exists :: "directory \<Rightarrow> string \<Rightarrow> string \<Rightarrow> bool" where
  "team_exists d dep i = list_ex (\<lambda>t. team_DeploymentID t = dep \<and> team_ID t = i) (d_teams d)"

definition CreateUser :: "session_env \<Rightarrow> string \<Rightarrow> CreateUserParams \<Rightarrow> rbac_db \<Rightarrow> store_error + (user_record \<times> rbac_db)" where
  "CreateUser env dep params db =
     (let d = rb_dir db;
          kind = (if cu_Kind params \<noteq> ''agent'' then ''human'' else cu_Kind params);
          user = \<lparr> u_DeploymentID = dep, u_ID = cu_ID params, u_Username = cu_Username params, u_PasswordHash = cu_PasswordHash params, u_Status = ''active'',
                   u_RequirePasswordChange = cu_RequirePasswordChange params, u_IsAdmin = cu_IsAdmin params, u_Kind = kind,
                   u_DisplayName = cu_DisplayName params, u_Email = cu_Email params \<rparr>;
          roleIDs = uniqueStrings (cu_RoleIDs params);
          teamIDs = uniqueStrings (cu_TeamIDs params) in
      bindS (stmt env ''insert user'') (\<lambda>_.
      bindS (ensure (\<not> list_ex (\<lambda>u. u_ID u = u_ID user \<or> (u_DeploymentID u = dep \<and> u_Username u = u_Username user)) (d_users d)) UniqueViolation) (\<lambda>_.
      bindS (ensure (roleIDs = [] \<or> se_ok env ''insert user roles'') StoreFailure) (\<lambda>_.
      bindS (ensure (list_all (role_exists d dep) roleIDs) (ForeignKeyViolation ''user_role_bindings_role_fk'')) (\<lambda>_.
      bindS (ensure (teamIDs = [] \<or> se_ok env ''insert user teams'') StoreFailure) (\<lambda>_.
      bindS (ensure (list_all (team_exists d dep) teamIDs) (ForeignKeyViolation ''user_team_bindings_team_fk'')) (\<lambda>_.
      Inr ((user, roleIDs, teamIDs),
           db \<lparr> rb_dir := d \<lparr> d_users := d_users d @ [user],
                 d_user_role_bindings := d_user_role_bindings d @ map (\<lambda>r. (dep, u_ID user, r)) roleIDs,
                 d_user_team_bindings := d_user_team_bindings d @ map (\<lambda>t. (dep, u_ID user, t)) teamIDs \<rparr> \<rparr>))))))))"

definition update_user_row :: "string option \<Rightarrow> string option \<Rightarrow> string option \<Rightarrow> user_row \<Rightarrow> user_row" where
  "update_user_row displayName email status u =
     set_if status (\<lambda>v. u_Status_update (\<lambda>_. v)) (set_if email (\<lambda>v. u_Email_update (\<lambda>_. Some v)) (set_if displayName (\<lambda>v. u_DisplayName_update (\<lambda>_. v)) u))"

text \<open>The column \<^verbatim>\<open>status\<close> only takes two values.\<close>

definition UpdateUser :: "session_env \<Rightarrow> string \<Rightarrow> string \<Rightarrow> string option \<Rightarrow> string option \<Rightarrow> string option \<Rightarrow> rbac_db \<Rightarrow> store_error + (user_record \<times> rbac_db)" where
  "UpdateUser env dep i displayName email status db =
     (let d = rb_dir db;
          mine = (\<lambda>u. u_DeploymentID u = dep \<and> u_ID u = i) in
      bindS (ensure (se_ok env ''update user'' \<and> (status \<in> {None, Some ''active'', Some ''disabled''} \<or> \<not> list_ex mine (d_users d))) StoreFailure) (\<lambda>_.
      bindS (ensure (list_ex mine (d_users d)) ErrNotFound) (\<lambda>_.
      (let db1 = db \<lparr> rb_dir := d \<lparr> d_users := map (\<lambda>u. if mine u then update_user_row displayName email status u else u) (d_users d) \<rparr> \<rparr> in
       bindS (GetUserRecord env dep i db1) (\<lambda>u. Inr (u, db1))))))"

text \<open>\<^verbatim>\<open>UpdatePassword\<close> on the whole database.\<close>

definition UpdatePasswordDB :: "session_env \<Rightarrow> string \<Rightarrow> string \<Rightarrow> string \<Rightarrow> bool \<Rightarrow> rbac_db \<Rightarrow> store_error + rbac_db" where
  "UpdatePasswordDB env dep i hash requireChange db =
     bindS (stmt env ''update password'') (\<lambda>_.
     case UpdatePassword dep i hash requireChange (d_users (rb_dir db)) of
       None \<Rightarrow> Inl ErrNotFound
     | Some users \<Rightarrow> Inr (db \<lparr> rb_dir := (rb_dir db) \<lparr> d_users := users \<rparr> \<rparr>))"

text \<open>Deleting a user revokes the sessions, then removes the row; the foreign keys then remove the
  sessions, their tokens, the bindings and the agent profile.\<close>

definition DeleteUser :: "session_env \<Rightarrow> string \<Rightarrow> string \<Rightarrow> rbac_db \<times> session_db \<Rightarrow> store_error + (rbac_db \<times> session_db)" where
  "DeleteUser env dep i s =
     (case s of (db, sdb) \<Rightarrow>
      (let d = rb_dir db in
       bindS (ensure (se_ok env ''revoke token'' \<and> se_ok env ''revoke session'' \<and> se_ok env ''delete user'') StoreFailure) (\<lambda>_.
       bindS (ensure (list_ex (\<lambda>u. u_DeploymentID u = dep \<and> u_ID u = i) (d_users d)) ErrNotFound) (\<lambda>_.
       bindS (ensure (se_ok env ''delete user roles'' \<and> se_ok env ''delete user teams'') StoreFailure) (\<lambda>_.
       Inr (db \<lparr> rb_dir := d \<lparr> d_users := filter (\<lambda>u. \<not> (u_DeploymentID u = dep \<and> u_ID u = i)) (d_users d),
                  d_user_role_bindings := filter (\<lambda>(_, user, _). user \<noteq> i) (d_user_role_bindings d),
                  d_user_team_bindings := filter (\<lambda>(_, user, _). user \<noteq> i) (d_user_team_bindings d) \<rparr>,
                rb_homes := filter (\<lambda>(_, user, _). user \<noteq> i) (rb_homes db) \<rparr>,
            sdb \<lparr> sd_sessions := (\<lambda>k. case sd_sessions sdb k of None \<Rightarrow> None | Some x \<Rightarrow> if s_UserID x = i then None else Some x),
                  sd_tokens := (\<lambda>h. case sd_tokens sdb h of None \<Rightarrow> None
                     | Some t \<Rightarrow> (case sd_sessions sdb (rt_SessionID t) of None \<Rightarrow> Some t | Some x \<Rightarrow> if s_UserID x = i then None else Some t)) \<rparr>))))))"

definition ReplaceUserRBAC :: "session_env \<Rightarrow> string \<Rightarrow> string \<Rightarrow> string list \<Rightarrow> string list \<Rightarrow> rbac_db \<Rightarrow> store_error + rbac_db" where
  "ReplaceUserRBAC env dep user roleIDs0 teamIDs0 db =
     (let roleIDs = uniqueStrings roleIDs0; teamIDs = uniqueStrings teamIDs0; d = rb_dir db in
      bindS (ensure (se_ok env ''count users'') StoreFailure) (\<lambda>_.
      bindS (ensure (length (filter (\<lambda>u. u_DeploymentID u = dep \<and> u_ID u = user) (d_users d)) = 1) ErrNotFound) (\<lambda>_.
      bindS (stmt env ''count roles'') (\<lambda>_.
      bindS (ensure (length (filter (\<lambda>r. role_DeploymentID r = dep \<and> role_ID r \<in> set roleIDs) (d_roles d)) = length roleIDs) ErrUnknownRole) (\<lambda>_.
      bindS (stmt env ''count teams'') (\<lambda>_.
      bindS (ensure (length (filter (\<lambda>t. team_DeploymentID t = dep \<and> team_ID t \<in> set teamIDs) (d_teams d)) = length teamIDs) ErrUnknownTeam) (\<lambda>_.
      bindS (ensure (se_ok env ''delete user roles'' \<and> se_ok env ''delete user teams'') StoreFailure) (\<lambda>_.
      bindS (ensure (roleIDs \<noteq> [] \<and> se_ok env ''insert user roles'') StoreFailure) (\<lambda>_.
      bindS (ensure (teamIDs \<noteq> [] \<and> se_ok env ''insert user teams'') StoreFailure) (\<lambda>_.
      Inr (db \<lparr> rb_dir := d \<lparr>
        d_user_role_bindings := filter (\<lambda>(dep', user', _). \<not> (dep' = dep \<and> user' = user)) (d_user_role_bindings d) @ map (\<lambda>r. (dep, user, r)) roleIDs,
        d_user_team_bindings := filter (\<lambda>(dep', user', _). \<not> (dep' = dep \<and> user' = user)) (d_user_team_bindings d) @ map (\<lambda>t. (dep, user, t)) teamIDs \<rparr> \<rparr>)))))))))))"

end
