(* ===== verification/Rbac.thy ===== *)
theory Rbac
  imports Rbac_Store
begin

text \<open>
  Administration of roles, teams and users: the handlers of \<^verbatim>\<open>internal/httpapi/rbac_handlers.go\<close> and
  \<^verbatim>\<open>admin_users.go\<close> over the store. A body that cannot be decoded is \<^const>\<open>None\<close>; the claims are those
  the middleware left, with the administrator flag read from the database.
\<close>

section \<open>What an administrator may delegate\<close>

definition permissionSubset :: "string list \<Rightarrow> string list \<Rightarrow> bool" where
  "permissionSubset grantor requested = list_all (\<lambda>p. p \<in> set grantor) requested"

definition roleGrantAllowed :: "bool \<Rightarrow> string list \<Rightarrow> role_record list \<Rightarrow> bool" where
  "roleGrantAllowed admin grantor roles =
     (if admin then True
      else if list_ex (\<lambda>(r, _). role_BuiltIn r) roles then False
      else permissionSubset grantor (concat (map snd roles)))"

definition teamGrantAllowed :: "bool \<Rightarrow> string list \<Rightarrow> string list \<Rightarrow> bool" where
  "teamGrantAllowed admin grantor requested = (if admin then True else list_all (\<lambda>t. t \<in> set grantor) requested)"

text \<open>A rune that is not one of these bytes ends the loop, so the bytes decide.\<close>

definition validRBACID :: "string \<Rightarrow> bool" where
  "validRBACID s = (if length s = 0 \<or> length s > 100 then False else list_all (\<lambda>c. is_alnum c \<or> c \<in> set ''-_.'') s)"

text \<open>The roles that exist among the named ones.\<close>

fun granted_roles :: "session_env \<Rightarrow> string \<Rightarrow> string list \<Rightarrow> rbac_db \<Rightarrow> store_error + role_record list" where
  "granted_roles env dep [] db = Inr []"
| "granted_roles env dep (i # is) db =
     (case GetRoleRecord env dep i db of
        Inl ErrNotFound \<Rightarrow> granted_roles env dep is db
      | Inl e \<Rightarrow> Inl e
      | Inr r \<Rightarrow> bindS (granted_roles env dep is db) (\<lambda>rs. Inr (r # rs)))"

definition authorizeRoleGrant :: "session_env \<Rightarrow> Claims \<Rightarrow> string list \<Rightarrow> rbac_db \<Rightarrow> problem option" where
  "authorizeRoleGrant env claims roleIDs db =
     (if tc_Admin claims then None
      else case granted_roles env (tc_DeploymentID claims) roleIDs db of
        Inl _ \<Rightarrow> Some (500, ''INTERNAL_ERROR'')
      | Inr roles \<Rightarrow>
          if \<not> se_ok env ''user permissions'' then Some (500, ''INTERNAL_ERROR'')
          else if \<not> roleGrantAllowed False (UserPermissionIDs (rb_dir db) (tc_DeploymentID claims) (tc_Subject claims)) roles
          then Some (403, ''ROLE_GRANT_FORBIDDEN'') else None)"

fun team_defaults_loop :: "session_env \<Rightarrow> Claims \<Rightarrow> string list \<Rightarrow> rbac_db \<Rightarrow> problem option" where
  "team_defaults_loop env claims [] db = None"
| "team_defaults_loop env claims (i # is) db =
     (case GetTeamRecord env (tc_DeploymentID claims) i db of
        Inl _ \<Rightarrow> Some (500, ''INTERNAL_ERROR'')
      | Inr (t, n, defaults) \<Rightarrow>
         (case (if defaults \<noteq> [] then authorizeRoleGrant env claims defaults db else None) of
            Some p \<Rightarrow> Some p
          | None \<Rightarrow> team_defaults_loop env claims is db))"

definition authorizeTeamGrant :: "session_env \<Rightarrow> Claims \<Rightarrow> string list \<Rightarrow> rbac_db \<Rightarrow> problem option" where
  "authorizeTeamGrant env claims teamIDs db =
     (if tc_Admin claims then None
      else if \<not> se_ok env ''user teams'' then Some (500, ''INTERNAL_ERROR'')
      else if \<not> teamGrantAllowed False (UserTeamIDs (rb_dir db) (tc_DeploymentID claims) (tc_Subject claims)) teamIDs
      then Some (403, ''TEAM_GRANT_FORBIDDEN'')
      else team_defaults_loop env claims teamIDs db)"

definition authorizeTeamDefaults :: "session_env \<Rightarrow> Claims \<Rightarrow> string list option \<Rightarrow> rbac_db \<Rightarrow> problem option" where
  "authorizeTeamDefaults env claims defaults db =
     (case defaults of
        None \<Rightarrow> None
      | Some ids \<Rightarrow>
          if length ids > 64 then Some (400, ''INVALID_ROLE'')
          else if \<not> list_all validRBACID ids \<or> \<not> distinct ids then Some (400, ''INVALID_ROLE'')
          else if ids = [] then None
          else authorizeRoleGrant env claims ids db)"

definition authorizeDelegatedPermissions :: "session_env \<Rightarrow> Claims \<Rightarrow> string list \<Rightarrow> rbac_db \<Rightarrow> problem option" where
  "authorizeDelegatedPermissions env claims requested db =
     (if tc_Admin claims then None
      else if \<not> se_ok env ''user permissions'' then Some (500, ''INTERNAL_ERROR'')
      else if \<not> permissionSubset (UserPermissionIDs (rb_dir db) (tc_DeploymentID claims) (tc_Subject claims)) requested
      then Some (403, ''ROLE_PERMISSION_ESCALATION'') else None)"

section \<open>Roles\<close>

abbreviation refuse :: "problem \<Rightarrow> 't answer" where
  "refuse p \<equiv> Problem_of (fst p) (snd p)"

definition transaction :: "session_env \<Rightarrow> store_error + 'a \<Rightarrow> store_error + 'a" where
  "transaction env m = bindS (stmt env ''begin'') (\<lambda>_. bindS m (\<lambda>x. bindS (stmt env ''commit'') (\<lambda>_. Inr x)))"

lemma transaction_Inr: "transaction env m = Inr x \<Longrightarrow> m = Inr x"
  by (auto simp: transaction_def bindS_Inr_iff)

definition page :: "'a list \<Rightarrow> nat \<Rightarrow> ('a \<Rightarrow> string) \<Rightarrow> 'a list \<times> string option" where
  "page items pageSize i =
     (if length items \<le> pageSize then (items, None)
      else (take pageSize items, Some (i (last (take pageSize items)))))"

text \<open>\<^verbatim>\<open>identifierExists\<close> for the kinds asked here, role and team.\<close>

definition rbac_identifierExists :: "session_env \<Rightarrow> string \<Rightarrow> rbac_db \<Rightarrow> string \<Rightarrow> string \<Rightarrow> store_error + bool" where
  "rbac_identifierExists env dep db kind candidate =
     (if kind = ''role'' then (case GetRoleRecord env dep candidate db of Inl ErrNotFound \<Rightarrow> Inr False | Inl e \<Rightarrow> Inl e | Inr _ \<Rightarrow> Inr True)
      else if kind = ''team'' then (case GetTeamRecord env dep candidate db of Inl ErrNotFound \<Rightarrow> Inr False | Inl e \<Rightarrow> Inl e | Inr _ \<Rightarrow> Inr True)
      else Inl StoreFailure)"

definition new_identifier :: "session_env \<Rightarrow> string \<Rightarrow> string \<Rightarrow> string \<Rightarrow> rbac_db \<Rightarrow> store_error + string" where
  "new_identifier env dep kind name db =
     generateIdentifier (rbac_identifierExists env dep db) (case se_random env of None \<Rightarrow> Inl StoreFailure | Some b \<Rightarrow> Inr b) kind name"

definition listRoles :: "session_env \<Rightarrow> Claims \<Rightarrow> string \<Rightarrow> int option \<Rightarrow> rbac_db \<Rightarrow> (role_record list \<times> string option) answer" where
  "listRoles env claims cursor n db =
     (let pageSize = nat (limit n) in
      case ListRolesPage env (tc_DeploymentID claims) cursor (pageSize + 1) db of
        Inl _ \<Rightarrow> Problem_of 500 ''INTERNAL_ERROR''
      | Inr roles \<Rightarrow> Answered (page roles pageSize (\<lambda>r. role_ID (fst r))))"

definition createRole :: "session_env \<Rightarrow> Claims \<Rightarrow> (string \<times> string \<times> string list) option \<Rightarrow> rbac_db \<Rightarrow> (string \<times> string \<times> string list) answer \<times> rbac_db" where
  "createRole env claims body db =
     (case body of
        None \<Rightarrow> (Problem_of 400 ''INVALID_REQUEST'', db)
      | Some (name, description, permissions) \<Rightarrow>
          if trim_space name = [] \<or> length permissions > 128 then (Problem_of 400 ''INVALID_ROLE'', db)
          else case authorizeDelegatedPermissions env claims permissions db of
            Some p \<Rightarrow> (refuse p, db)
          | None \<Rightarrow>
             (case new_identifier env (tc_DeploymentID claims) ''role'' name db of
                Inl _ \<Rightarrow> (Problem_of 500 ''INTERNAL_ERROR'', db)
              | Inr identifier \<Rightarrow>
                 (case transaction env (CreateRole env (tc_DeploymentID claims)
                         \<lparr> role_DeploymentID = [], role_ID = identifier, role_Enabled = False, role_Name = trim_space name,
                           role_Description = description, role_BuiltIn = False \<rparr> permissions db) of
                    Inl UniqueViolation \<Rightarrow> (Problem_of 409 ''ROLE_EXISTS'', db)
                  | Inl ErrUnknownPermission \<Rightarrow> (Problem_of 400 ''INVALID_PERMISSION'', db)
                  | Inl _ \<Rightarrow> (Problem_of 500 ''INTERNAL_ERROR'', db)
                  | Inr db1 \<Rightarrow> (Answered (identifier, trim_space name, permissions), db1))))"

definition getRole :: "session_env \<Rightarrow> Claims \<Rightarrow> string \<Rightarrow> rbac_db \<Rightarrow> role_record answer" where
  "getRole env claims i db =
     (case GetRoleRecord env (tc_DeploymentID claims) i db of
        Inl ErrNotFound \<Rightarrow> Problem_of 404 ''RESOURCE_NOT_FOUND''
      | Inl _ \<Rightarrow> Problem_of 500 ''INTERNAL_ERROR''
      | Inr r \<Rightarrow> Answered r)"

record role_update =
  ru_Name :: "string option"
  ru_Description :: "string option"
  ru_Enabled :: "bool option"
  ru_Permissions :: "string list option"

definition updateRole :: "session_env \<Rightarrow> Claims \<Rightarrow> string \<Rightarrow> role_update option \<Rightarrow> rbac_db \<Rightarrow> role_record answer \<times> rbac_db" where
  "updateRole env claims i body db =
     (case body of
        None \<Rightarrow> (Problem_of 400 ''INVALID_REQUEST'', db)
      | Some input \<Rightarrow>
          if ru_Name input = None \<and> ru_Description input = None \<and> ru_Enabled input = None \<and> ru_Permissions input = None
          then (Problem_of 400 ''INVALID_ROLE'', db)
          else if (case ru_Name input of None \<Rightarrow> False | Some n \<Rightarrow> trim_space n = []) then (Problem_of 400 ''INVALID_ROLE'', db)
          else if (case ru_Permissions input of None \<Rightarrow> False | Some ps \<Rightarrow> length ps > 128) then (Problem_of 400 ''INVALID_ROLE'', db)
          else case (case ru_Permissions input of None \<Rightarrow> None | Some ps \<Rightarrow> authorizeDelegatedPermissions env claims ps db) of
            Some p \<Rightarrow> (refuse p, db)
          | None \<Rightarrow>
             (case transaction env
                     (bindS (GetRoleRecord env (tc_DeploymentID claims) i db) (\<lambda>before.
                      bindS (UpdateRole env (tc_DeploymentID claims) i (ru_Name input) (ru_Description input) (ru_Enabled input) (ru_Permissions input) db) (\<lambda>(updated, db1).
                      bindS (RecordAdminAudit env (tc_DeploymentID claims) (tc_Subject claims) ''update'' ''role'' i db1) (\<lambda>db2. Inr (updated, db2))))) of
                Inl ErrNotFound \<Rightarrow> (Problem_of 404 ''RESOURCE_NOT_FOUND'', db)
              | Inl ErrUnknownPermission \<Rightarrow> (Problem_of 400 ''INVALID_PERMISSION'', db)
              | Inl ErrBuiltInResource \<Rightarrow> (Problem_of 409 ''BUILT_IN_RESOURCE'', db)
              | Inl _ \<Rightarrow> (Problem_of 500 ''INTERNAL_ERROR'', db)
              | Inr (role, db1) \<Rightarrow> (Answered role, db1)))"

definition deleteRole :: "session_env \<Rightarrow> Claims \<Rightarrow> string \<Rightarrow> rbac_db \<Rightarrow> unit answer \<times> rbac_db" where
  "deleteRole env claims i db =
     (case transaction env
             (bindS (GetRoleRecord env (tc_DeploymentID claims) i db) (\<lambda>existing.
              bindS (DeleteRole env (tc_DeploymentID claims) i db) (\<lambda>db1.
              RecordAdminAudit env (tc_DeploymentID claims) (tc_Subject claims) ''delete'' ''role'' i db1))) of
        Inl ErrNotFound \<Rightarrow> (Problem_of 404 ''RESOURCE_NOT_FOUND'', db)
      | Inl ErrBuiltInResource \<Rightarrow> (Problem_of 409 ''BUILT_IN_RESOURCE'', db)
      | Inl (ForeignKeyViolation _) \<Rightarrow> (Problem_of 409 ''ROLE_IN_USE'', db)
      | Inl _ \<Rightarrow> (Problem_of 500 ''INTERNAL_ERROR'', db)
      | Inr db1 \<Rightarrow> (Answered (), db1))"

section \<open>Teams\<close>

definition listTeams :: "session_env \<Rightarrow> Claims \<Rightarrow> string \<Rightarrow> int option \<Rightarrow> rbac_db \<Rightarrow> (team_record list \<times> string option) answer" where
  "listTeams env claims cursor n db =
     (let pageSize = nat (limit n) in
      case ListTeamsPage env (tc_DeploymentID claims) cursor (pageSize + 1) db of
        Inl _ \<Rightarrow> Problem_of 500 ''INTERNAL_ERROR''
      | Inr teams \<Rightarrow> Answered (page teams pageSize (\<lambda>t. team_ID (fst t))))"

record team_input =
  ti_DefaultRoleIDs :: "string list option"
  ti_Name :: string
  ti_Description :: string
  ti_ParentID :: string

definition new_team_row :: "string \<Rightarrow> team_input \<Rightarrow> team_row option \<Rightarrow> team_row" where
  "new_team_row identifier input parent =
     (let base = \<lparr> team_DeploymentID = [], team_ID = identifier, team_ParentTeamID = None, team_Enabled = False, team_Name = trim_space (ti_Name input),
                   team_Description = ti_Description input, team_BuiltIn = False, team_Path = [], team_Depth = 0 \<rparr> in
      case parent of
        None \<Rightarrow> base \<lparr> team_Path := ''/'' @ identifier \<rparr>
      | Some p \<Rightarrow>
         (let parentPath = (if team_Path p = [] \<or> team_Path p = ''/'' then ''/'' @ team_ID p else team_Path p) in
          base \<lparr> team_ParentTeamID := Some (ti_ParentID input), team_Path := parentPath @ ''/'' @ identifier, team_Depth := team_Depth p + 1 \<rparr>))"

definition createTeam :: "session_env \<Rightarrow> Claims \<Rightarrow> team_input option \<Rightarrow> rbac_db \<Rightarrow> team_row answer \<times> rbac_db" where
  "createTeam env claims body db =
     (case body of
        None \<Rightarrow> (Problem_of 400 ''INVALID_REQUEST'', db)
      | Some input \<Rightarrow>
          if trim_space (ti_Name input) = [] then (Problem_of 400 ''INVALID_TEAM'', db)
          else case authorizeTeamDefaults env claims (ti_DefaultRoleIDs input) db of
            Some p \<Rightarrow> (refuse p, db)
          | None \<Rightarrow>
             (case new_identifier env (tc_DeploymentID claims) ''team'' (ti_Name input) db of
                Inl _ \<Rightarrow> (Problem_of 500 ''INTERNAL_ERROR'', db)
              | Inr identifier \<Rightarrow>
                 (case (if ti_ParentID input \<noteq> [] then (case GetTeamRecord env (tc_DeploymentID claims) (ti_ParentID input) db of
                             Inl e \<Rightarrow> Inl e | Inr (p, _) \<Rightarrow> Inr (Some p)) else Inr None) of
                    Inl ErrNotFound \<Rightarrow> (Problem_of 400 ''INVALID_TEAM'', db)
                  | Inl _ \<Rightarrow> (Problem_of 500 ''INTERNAL_ERROR'', db)
                  | Inr parent \<Rightarrow>
                     (let team = new_team_row identifier input parent in
                      case transaction env (CreateTeam env (tc_DeploymentID claims) team (ti_DefaultRoleIDs input) db) of
                        Inl ErrUnknownRole \<Rightarrow> (Problem_of 400 ''INVALID_ROLE'', db)
                      | Inl UniqueViolation \<Rightarrow> (Problem_of 409 ''TEAM_EXISTS'', db)
                      | Inl _ \<Rightarrow> (Problem_of 500 ''INTERNAL_ERROR'', db)
                      | Inr db1 \<Rightarrow> (Answered team, db1)))))"

definition getTeam :: "session_env \<Rightarrow> Claims \<Rightarrow> string \<Rightarrow> rbac_db \<Rightarrow> team_record answer" where
  "getTeam env claims i db =
     (case GetTeamRecord env (tc_DeploymentID claims) i db of
        Inl ErrNotFound \<Rightarrow> Problem_of 404 ''RESOURCE_NOT_FOUND''
      | Inl _ \<Rightarrow> Problem_of 500 ''INTERNAL_ERROR''
      | Inr t \<Rightarrow> Answered t)"

record team_update =
  tu_DefaultRoleIDs :: "string list option"
  tu_Name :: "string option"
  tu_Description :: "string option"
  tu_Enabled :: "bool option"

text \<open>Enabling a team hands its default roles to its members, so they are authorized like a grant.\<close>

definition authorize_enable :: "session_env \<Rightarrow> Claims \<Rightarrow> string \<Rightarrow> team_update \<Rightarrow> rbac_db \<Rightarrow> problem option" where
  "authorize_enable env claims i input db =
     (if \<not> tc_Admin claims \<and> tu_Enabled input = Some True \<and> tu_DefaultRoleIDs input = None
      then (case GetTeamRecord env (tc_DeploymentID claims) i db of
              Inl ErrNotFound \<Rightarrow> Some (404, ''RESOURCE_NOT_FOUND'')
            | Inl _ \<Rightarrow> Some (500, ''INTERNAL_ERROR'')
            | Inr (t, n, defaults) \<Rightarrow> if defaults \<noteq> [] then authorizeRoleGrant env claims defaults db else None)
      else None)"

definition updateTeam :: "session_env \<Rightarrow> Claims \<Rightarrow> string \<Rightarrow> team_update option \<Rightarrow> rbac_db \<Rightarrow> team_record answer \<times> rbac_db" where
  "updateTeam env claims i body db =
     (case body of
        None \<Rightarrow> (Problem_of 400 ''INVALID_REQUEST'', db)
      | Some input \<Rightarrow>
          if tu_Name input = None \<and> tu_Description input = None \<and> tu_Enabled input = None \<and> tu_DefaultRoleIDs input = None
          then (Problem_of 400 ''INVALID_TEAM'', db)
          else if (case tu_Name input of None \<Rightarrow> False | Some n \<Rightarrow> trim_space n = []) then (Problem_of 400 ''INVALID_TEAM'', db)
          else case authorizeTeamDefaults env claims (tu_DefaultRoleIDs input) db of
            Some p \<Rightarrow> (refuse p, db)
          | None \<Rightarrow>
             (case authorize_enable env claims i input db of
                Some p \<Rightarrow> (refuse p, db)
              | None \<Rightarrow>
                 (case transaction env
                         (bindS (GetTeamRecord env (tc_DeploymentID claims) i db) (\<lambda>before.
                          bindS (UpdateTeam env (tc_DeploymentID claims) i (tu_Name input) (tu_Description input) (tu_Enabled input) (tu_DefaultRoleIDs input) db) (\<lambda>(updated, db1).
                          bindS (RecordAdminAudit env (tc_DeploymentID claims) (tc_Subject claims) ''update'' ''team'' i db1) (\<lambda>db2. Inr (updated, db2))))) of
                    Inl ErrUnknownRole \<Rightarrow> (Problem_of 400 ''INVALID_ROLE'', db)
                  | Inl ErrNotFound \<Rightarrow> (Problem_of 404 ''RESOURCE_NOT_FOUND'', db)
                  | Inl _ \<Rightarrow> (Problem_of 500 ''INTERNAL_ERROR'', db)
                  | Inr (team, db1) \<Rightarrow> (Answered team, db1))))"

definition deleteTeam :: "session_env \<Rightarrow> Claims \<Rightarrow> string \<Rightarrow> rbac_db \<Rightarrow> unit answer \<times> rbac_db" where
  "deleteTeam env claims i db =
     (case transaction env
             (bindS (GetTeamRecord env (tc_DeploymentID claims) i db) (\<lambda>existing.
              bindS (DeleteTeam env (tc_DeploymentID claims) i db) (\<lambda>db1.
              RecordAdminAudit env (tc_DeploymentID claims) (tc_Subject claims) ''delete'' ''team'' i db1))) of
        Inl ErrNotFound \<Rightarrow> (Problem_of 404 ''RESOURCE_NOT_FOUND'', db)
      | Inl ErrBuiltInResource \<Rightarrow> (Problem_of 409 ''BUILT_IN_RESOURCE'', db)
      | Inl (ForeignKeyViolation c) \<Rightarrow>
          (Problem_of 409 (if c = ''teams_parent_fk'' then ''TEAM_HAS_CHILDREN''
                           else if c = ''agent_profiles_home_team_fk'' then ''TEAM_HAS_AGENTS'' else ''TEAM_IN_USE''), db)
      | Inl _ \<Rightarrow> (Problem_of 500 ''INTERNAL_ERROR'', db)
      | Inr db1 \<Rightarrow> (Answered (), db1))"

section \<open>Users\<close>

definition replaceUserRBAC :: "session_env \<Rightarrow> Claims \<Rightarrow> string \<Rightarrow> (string list \<times> string list) option \<Rightarrow> rbac_db \<Rightarrow> (string list \<times> string list) answer \<times> rbac_db" where
  "replaceUserRBAC env claims user body db =
     (case body of
        None \<Rightarrow> (Problem_of 400 ''INVALID_REQUEST'', db)
      | Some (roleIDs, teamIDs) \<Rightarrow>
          if length roleIDs = 0 \<or> length teamIDs = 0 \<or> length roleIDs > 64 \<or> length teamIDs > 64 then (Problem_of 400 ''USER_RBAC_REQUIRED'', db)
          else if \<not> list_all validRBACID roleIDs then (Problem_of 400 ''INVALID_ROLE'', db)
          else if \<not> list_all validRBACID teamIDs then (Problem_of 400 ''INVALID_TEAM'', db)
          else case authorizeRoleGrant env claims roleIDs db of
            Some p \<Rightarrow> (refuse p, db)
          | None \<Rightarrow>
             (case authorizeTeamGrant env claims teamIDs db of
                Some p \<Rightarrow> (refuse p, db)
              | None \<Rightarrow>
                 (case transaction env
                         (bindS (GetUserRecord env (tc_DeploymentID claims) user db) (\<lambda>before.
                          bindS (ReplaceUserRBAC env (tc_DeploymentID claims) user roleIDs teamIDs db) (\<lambda>db1.
                          RecordAdminAudit env (tc_DeploymentID claims) (tc_Subject claims) ''update'' ''user_rbac'' user db1))) of
                    Inl ErrNotFound \<Rightarrow> (Problem_of 404 ''RESOURCE_NOT_FOUND'', db)
                  | Inl ErrUnknownRole \<Rightarrow> (Problem_of 400 ''INVALID_ROLE'', db)
                  | Inl ErrUnknownTeam \<Rightarrow> (Problem_of 400 ''INVALID_TEAM'', db)
                  | Inl _ \<Rightarrow> (Problem_of 500 ''INTERNAL_ERROR'', db)
                  | Inr db1 \<Rightarrow> (Answered (roleIDs, teamIDs), db1))))"

definition userMembershipProblem :: "string list \<Rightarrow> string list \<Rightarrow> string" where
  "userMembershipProblem roleIDs teamIDs =
     (if length roleIDs = 0 \<or> length teamIDs = 0 then ''USER_RBAC_REQUIRED''
      else if length roleIDs > 64 then ''INVALID_ROLE''
      else if length teamIDs > 64 then ''INVALID_TEAM''
      else if \<not> list_all validRBACID roleIDs then ''INVALID_ROLE''
      else if \<not> list_all validRBACID teamIDs then ''INVALID_TEAM''
      else [])"

record createUserRequest =
  cr_DeploymentID :: string
  cr_Username :: string
  cr_DisplayName :: string
  cr_Email :: "string option"
  cr_TemporaryPassword :: string
  cr_TeamIDs :: "string list"
  cr_RoleIDs :: "string list"
  cr_RequirePasswordChange :: "bool option"

datatype create_error = EdgeWhitespaceError | PasswordError password_error | StoreError store_error

definition DefaultTemporaryPassword :: string where
  "DefaultTemporaryPassword = ''123456''"

definition buildCreateUserParams :: "idkey \<Rightarrow> string option \<Rightarrow> string \<Rightarrow> createUserRequest \<Rightarrow> create_error + CreateUserParams" where
  "buildCreateUserParams idkey salt uuid input =
     (let password = (if cr_TemporaryPassword input = [] then DefaultTemporaryPassword else cr_TemporaryPassword input) in
      if EdgeWhitespace password then Inl EdgeWhitespaceError
      else case HashPassword idkey salt password of
        Inl e \<Rightarrow> Inl (PasswordError e)
      | Inr hash \<Rightarrow>
          Inr \<lparr> cu_ID = uuid, cu_Username = cr_Username input, cu_DisplayName = cr_DisplayName input, cu_Email = cr_Email input, cu_PasswordHash = hash,
                cu_RequirePasswordChange = (case cr_RequirePasswordChange input of None \<Rightarrow> True | Some b \<Rightarrow> b), cu_IsAdmin = False, cu_Kind = [],
                cu_RoleIDs = cr_RoleIDs input, cu_TeamIDs = cr_TeamIDs input \<rparr>)"

definition createUserWithAudit :: "session_env \<Rightarrow> Claims \<Rightarrow> string \<Rightarrow> CreateUserParams \<Rightarrow> rbac_db \<Rightarrow> store_error + (user_record \<times> rbac_db)" where
  "createUserWithAudit env claims dep params db =
     transaction env
       (bindS (CreateUser env dep params db) (\<lambda>(created, db1).
        bindS (RecordAdminAudit env dep (tc_Subject claims) ''create'' ''user'' (u_ID (fst created)) db1) (\<lambda>db2. Inr (created, db2))))"

definition writeCreateUserFailure :: "create_error \<Rightarrow> problem" where
  "writeCreateUserFailure e =
     (case e of
        EdgeWhitespaceError \<Rightarrow> (400, ''PASSWORD_POLICY_VIOLATION'')
      | PasswordError ErrPasswordPolicy \<Rightarrow> (400, ''PASSWORD_POLICY_VIOLATION'')
      | StoreError UniqueViolation \<Rightarrow> (409, ''USER_ALREADY_EXISTS'')
      | _ \<Rightarrow> (500, ''INTERNAL_ERROR''))"

definition createUser :: "session_env \<Rightarrow> idkey \<Rightarrow> string option \<Rightarrow> Claims \<Rightarrow> createUserRequest option \<Rightarrow> rbac_db \<Rightarrow> user_record answer \<times> rbac_db" where
  "createUser env idkey salt claims body db =
     (case body of
        None \<Rightarrow> (Problem_of 400 ''INVALID_REQUEST'', db)
      | Some input \<Rightarrow>
          if cr_DeploymentID input \<noteq> tc_DeploymentID claims then (Problem_of 403 ''ACCESS_DENIED'', db)
          else if userMembershipProblem (cr_RoleIDs input) (cr_TeamIDs input) \<noteq> []
          then (Problem_of 400 (userMembershipProblem (cr_RoleIDs input) (cr_TeamIDs input)), db)
          else case authorizeRoleGrant env claims (cr_RoleIDs input) db of
            Some p \<Rightarrow> (refuse p, db)
          | None \<Rightarrow>
             (case authorizeTeamGrant env claims (cr_TeamIDs input) db of
                Some p \<Rightarrow> (refuse p, db)
              | None \<Rightarrow>
                 (case buildCreateUserParams idkey salt (se_uuid env ''user'') input of
                    Inl e \<Rightarrow> (refuse (writeCreateUserFailure e), db)
                  | Inr params \<Rightarrow>
                     (case createUserWithAudit env claims (tc_DeploymentID claims) params db of
                        Inl e \<Rightarrow> (refuse (writeCreateUserFailure (StoreError e)), db)
                      | Inr (user, db1) \<Rightarrow> (Answered user, db1)))))"

text \<open>An import row runs in an environment of its own; the result counts the created rows and lists the
  codes of the rejected ones.\<close>

definition import_code :: "create_error \<Rightarrow> string" where
  "import_code e =
     (case e of
        EdgeWhitespaceError \<Rightarrow> ''PASSWORD_POLICY_VIOLATION''
      | PasswordError ErrPasswordPolicy \<Rightarrow> ''PASSWORD_POLICY_VIOLATION''
      | _ \<Rightarrow> ''USER_IMPORT_FAILED'')"

definition import_row :: "session_env \<Rightarrow> idkey \<Rightarrow> string option \<Rightarrow> Claims \<Rightarrow> string \<Rightarrow> createUserRequest \<Rightarrow> rbac_db \<Rightarrow> string option \<times> rbac_db" where
  "import_row env idkey salt claims dep item0 db =
     (if userMembershipProblem (cr_RoleIDs item0) (cr_TeamIDs item0) \<noteq> [] then (Some (userMembershipProblem (cr_RoleIDs item0) (cr_TeamIDs item0)), db)
      else
       (let item = item0 \<lparr> cr_TemporaryPassword := TrimPassword (cr_TemporaryPassword item0) \<rparr> in
        case buildCreateUserParams idkey salt (se_uuid env ''user'') item of
          Inl e \<Rightarrow> (Some (import_code e), db)
        | Inr params \<Rightarrow>
           (case createUserWithAudit env claims dep params db of
              Inl e \<Rightarrow> (Some (import_code (StoreError e)), db)
            | Inr (_, db1) \<Rightarrow> (None, db1))))"

fun import_loop :: "(nat \<Rightarrow> session_env) \<Rightarrow> idkey \<Rightarrow> (nat \<Rightarrow> string option) \<Rightarrow> Claims \<Rightarrow> string \<Rightarrow> nat \<Rightarrow> createUserRequest list \<Rightarrow> rbac_db
    \<Rightarrow> nat \<times> string list \<times> rbac_db" where
  "import_loop envs idkey salts claims dep k [] db = (0, [], db)"
| "import_loop envs idkey salts claims dep k (item # items) db =
     (case import_row (envs k) idkey (salts k) claims dep item db of (failure, db1) \<Rightarrow>
      (case import_loop envs idkey salts claims dep (Suc k) items db1 of (created, errors, db2) \<Rightarrow>
       (case failure of None \<Rightarrow> (created + 1, errors, db2) | Some code \<Rightarrow> (created, code # errors, db2))))"

definition importUsers ::
  "session_env \<Rightarrow> (nat \<Rightarrow> session_env) \<Rightarrow> idkey \<Rightarrow> (nat \<Rightarrow> string option) \<Rightarrow> Claims \<Rightarrow> (string \<times> createUserRequest list) option \<Rightarrow> rbac_db
     \<Rightarrow> (nat \<times> string list) answer \<times> rbac_db" where
  "importUsers env envs idkey salts claims body db =
     (case body of
        None \<Rightarrow> (Problem_of 400 ''INVALID_REQUEST'', db)
      | Some (dep, users) \<Rightarrow>
          if dep \<noteq> tc_DeploymentID claims \<or> length users = 0 \<or> length users > 1000 then (Problem_of 400 ''INVALID_REQUEST'', db)
          else
           (let good = filter (\<lambda>u. userMembershipProblem (cr_RoleIDs u) (cr_TeamIDs u) = []) users in
            case authorizeRoleGrant env claims (concat (map cr_RoleIDs good)) db of
              Some p \<Rightarrow> (refuse p, db)
            | None \<Rightarrow>
               (case authorizeTeamGrant env claims (concat (map cr_TeamIDs good)) db of
                  Some p \<Rightarrow> (refuse p, db)
                | None \<Rightarrow>
                   (case import_loop envs idkey salts claims dep 0 users db of (created, errors, db1) \<Rightarrow>
                      if created = 0 then (Problem_of 422 ''USER_IMPORT_REJECTED'', db1) else (Answered (created, errors), db1)))))"

definition listUsers :: "session_env \<Rightarrow> Claims \<Rightarrow> string \<Rightarrow> int option \<Rightarrow> rbac_db \<Rightarrow> (user_record list \<times> string option) answer" where
  "listUsers env claims cursor n db =
     (case ListUsers env (tc_DeploymentID claims) cursor (nat (limit n)) db of
        Inl _ \<Rightarrow> Problem_of 500 ''INTERNAL_ERROR''
      | Inr items \<Rightarrow> Answered (items, if int (length items) = limit n then Some (u_ID (fst (last items))) else None))"

definition getUser :: "session_env \<Rightarrow> Claims \<Rightarrow> string \<Rightarrow> rbac_db \<Rightarrow> user_record answer" where
  "getUser env claims i db =
     (case GetUserRecord env (tc_DeploymentID claims) i db of
        Inl ErrNotFound \<Rightarrow> Problem_of 404 ''RESOURCE_NOT_FOUND''
      | Inl _ \<Rightarrow> Problem_of 500 ''INTERNAL_ERROR''
      | Inr u \<Rightarrow> Answered u)"

record user_update =
  uu_DisplayName :: "string option"
  uu_Email :: "string option"
  uu_Status :: "string option"
  uu_TeamIDs :: "string list option"
  uu_RoleIDs :: "string list option"

text \<open>Disabling a user revokes the sessions after the transaction has committed.\<close>

definition updateUser :: "session_env \<Rightarrow> Claims \<Rightarrow> string \<Rightarrow> user_update option \<Rightarrow> rbac_db \<times> session_db \<Rightarrow> user_record answer \<times> rbac_db \<times> session_db" where
  "updateUser env claims i body s =
     (case s of (db, sdb) \<Rightarrow>
      (case body of
         None \<Rightarrow> (Problem_of 400 ''INVALID_REQUEST'', s)
       | Some input \<Rightarrow>
           if uu_TeamIDs input \<noteq> None \<or> uu_RoleIDs input \<noteq> None then (Problem_of 400 ''MEMBERSHIP_UPDATE_UNSUPPORTED'', s)
           else case transaction env
                  (bindS (GetUserRecord env (tc_DeploymentID claims) i db) (\<lambda>before.
                   bindS (UpdateUser env (tc_DeploymentID claims) i (uu_DisplayName input) (uu_Email input) (uu_Status input) db) (\<lambda>(updated, db1).
                   bindS (RecordAdminAudit env (tc_DeploymentID claims) (tc_Subject claims) ''update'' ''user'' i db1) (\<lambda>db2. Inr (updated, db2))))) of
             Inl ErrNotFound \<Rightarrow> (Problem_of 404 ''RESOURCE_NOT_FOUND'', s)
           | Inl _ \<Rightarrow> (Problem_of 500 ''INTERNAL_ERROR'', s)
           | Inr (user, db1) \<Rightarrow>
               if u_Status (fst user) = ''disabled''
               then (case RevokeUserSessionSet env (u_ID (fst user)) sdb of
                       (Inl _, sdb1) \<Rightarrow> (Problem_of 500 ''INTERNAL_ERROR'', db1, sdb1)
                     | (Inr _, sdb1) \<Rightarrow> (Answered user, db1, sdb1))
               else (Answered user, db1, sdb)))"

definition resetUserPassword ::
  "session_env \<Rightarrow> idkey \<Rightarrow> string option \<Rightarrow> Claims \<Rightarrow> string \<Rightarrow> (string \<times> bool option) option \<Rightarrow> rbac_db \<times> session_db \<Rightarrow> unit answer \<times> rbac_db \<times> session_db" where
  "resetUserPassword env idkey salt claims i body s =
     (case s of (db, sdb) \<Rightarrow>
      (case body of
         None \<Rightarrow> (Problem_of 400 ''INVALID_REQUEST'', s)
       | Some (password, require) \<Rightarrow>
           if EdgeWhitespace password then (Problem_of 400 ''PASSWORD_POLICY_VIOLATION'', s)
           else if ValidatePassword password \<noteq> None then (Problem_of 400 ''PASSWORD_POLICY_VIOLATION'', s)
           else case HashPassword idkey salt password of
             Inl _ \<Rightarrow> (Problem_of 500 ''INTERNAL_ERROR'', s)
           | Inr hash \<Rightarrow>
              (let requireChange = (case require of None \<Rightarrow> True | Some b \<Rightarrow> b) in
               if requireChange \<and> i = tc_Subject claims then (Problem_of 409 ''SELF_PASSWORD_RESET_RESTRICTED'', s)
               else case transaction env
                      (bindS (UpdatePasswordDB env (tc_DeploymentID claims) i hash requireChange db) (\<lambda>db1.
                       RecordAdminAudit env (tc_DeploymentID claims) (tc_Subject claims) ''reset_password'' ''user'' i db1)) of
                 Inl _ \<Rightarrow> (Problem_of 500 ''INTERNAL_ERROR'', s)
               | Inr db1 \<Rightarrow>
                  (case RevokeUserSessionSet env i sdb of
                     (Inl _, sdb1) \<Rightarrow> (Problem_of 500 ''INTERNAL_ERROR'', db1, sdb1)
                   | (Inr _, sdb1) \<Rightarrow> (Answered (), db1, sdb1)))))"

definition deleteUser :: "session_env \<Rightarrow> Claims \<Rightarrow> string \<Rightarrow> rbac_db \<times> session_db \<Rightarrow> unit answer \<times> rbac_db \<times> session_db" where
  "deleteUser env claims i s =
     (case GetUser env (tc_DeploymentID claims) i (fst s) of
        Inl ErrNotFound \<Rightarrow> (Problem_of 404 ''RESOURCE_NOT_FOUND'', s)
      | Inl _ \<Rightarrow> (Problem_of 500 ''INTERNAL_ERROR'', s)
      | Inr user \<Rightarrow>
          if u_Username user = ''admin'' then (Problem_of 403 ''FORBIDDEN'', s)
          else case transaction env
                 (bindS (GetUserRecord env (tc_DeploymentID claims) i (fst s)) (\<lambda>removed.
                  bindS (DeleteUser env (tc_DeploymentID claims) i s) (\<lambda>(db1, sdb1).
                  bindS (RecordAdminAudit env (tc_DeploymentID claims) (tc_Subject claims) ''delete'' ''user'' i db1) (\<lambda>db2. Inr (db2, sdb1))))) of
            Inl _ \<Rightarrow> (Problem_of 500 ''INTERNAL_ERROR'', s)
          | Inr s1 \<Rightarrow> (Answered (), s1))"

end
