(* ===== verification/Delegation.thy ===== *)
theory Delegation
  imports Rbac
begin

text \<open>
  What the administration of roles, teams and users can hand out. Each operation of the store and then each
  handler is shown to give no user a permission that neither the user nor the caller held.
\<close>

section \<open>Constraints of the tables\<close>

definition team_key :: "team_row \<Rightarrow> string \<times> string" where
  "team_key t = (team_DeploymentID t, team_ID t)"

text \<open>The part of the schema the arguments below need: permissions belong to roles, memberships to
  teams, and team keys are unique.\<close>

definition rbac_ok :: "directory \<Rightarrow> bool" where
  "rbac_ok d \<longleftrightarrow>
     (\<forall>(dep, role, p) \<in> set (d_role_permissions d). role_exists d dep role)
   \<and> (\<forall>(dep, user, team) \<in> set (d_user_team_bindings d). team_exists d dep team)
   \<and> distinct (map team_key (d_teams d))"

lemma rbac_okI:
  assumes "\<And>dep r p. (dep, r, p) \<in> set (d_role_permissions d) \<Longrightarrow> role_exists d dep r"
    "\<And>dep u t. (dep, u, t) \<in> set (d_user_team_bindings d) \<Longrightarrow> team_exists d dep t" "distinct (map team_key (d_teams d))"
  shows "rbac_ok d"
  using assms by (auto simp: rbac_ok_def)

lemma rbac_okD:
  assumes "rbac_ok d"
  shows "(dep, r, p) \<in> set (d_role_permissions d) \<Longrightarrow> role_exists d dep r"
    "(dep, u, t) \<in> set (d_user_team_bindings d) \<Longrightarrow> team_exists d dep t" "distinct (map team_key (d_teams d))"
  using assms by (auto simp: rbac_ok_def)

lemma team_exists_iff: "team_exists d dep i \<longleftrightarrow> (dep, i) \<in> team_key ` set (d_teams d)"
  by (force simp: team_exists_def list_ex_iff team_key_def)

definition role_key :: "role_row \<Rightarrow> string \<times> string" where
  "role_key r = (role_DeploymentID r, role_ID r)"

lemma role_exists_key: "role_exists d dep i \<longleftrightarrow> (dep, i) \<in> set (map role_key (d_roles d))"
  by (force simp: role_exists_def list_ex_iff role_key_def)

lemma team_exists_key: "team_exists d dep i \<longleftrightarrow> (dep, i) \<in> set (map team_key (d_teams d))"
  by (simp add: team_exists_iff)

lemma role_exists_iff: "role_exists d dep i \<longleftrightarrow> (\<exists>r \<in> set (d_roles d). role_DeploymentID r = dep \<and> role_ID r = i)"
  by (simp add: role_exists_def list_ex_iff)

lemma enabled_exists: "enabled_role d dep i \<Longrightarrow> role_exists d dep i" "enabled_team d dep i \<Longrightarrow> team_exists d dep i"
  by (auto simp: enabled_role_def enabled_team_def role_exists_def team_exists_def list_ex_iff)

lemma set_unique_from: "set (unique_from seen xs) = set xs - set seen"
  by (induction seen xs rule: unique_from.induct) auto

lemma distinct_unique_from: "distinct (unique_from seen xs)"
  by (induction seen xs rule: unique_from.induct) (auto simp: set_unique_from)

lemma uniqueStrings_set [simp]: "set (uniqueStrings xs) = set xs"
  by (simp add: uniqueStrings_def set_unique_from)

text \<open>A count that equals the number of distinct names says that each of them exists.\<close>

lemma counted_teams_exist:
  assumes dist: "distinct (map team_key (d_teams d))" and n: "length (filter (\<lambda>t. team_DeploymentID t = dep \<and> team_ID t \<in> set ids) (d_teams d)) = length ids"
    and ids: "distinct ids" and i: "i \<in> set ids"
  shows "team_exists d dep i"
proof -
  let ?ts = "filter (\<lambda>t. team_DeploymentID t = dep \<and> team_ID t \<in> set ids) (d_teams d)"
  have "distinct (map team_key ?ts)" using dist by (rule distinct_map_filter)
  then have inj: "inj_on team_ID (set ?ts)" and "distinct ?ts" by (auto simp: distinct_map inj_on_def team_key_def)
  from card_image [OF inj] distinct_card [OF \<open>distinct ?ts\<close>] have "card (team_ID ` set ?ts) = length ?ts" by simp
  then have "card (team_ID ` set ?ts) = card (set ids)" using n ids by (simp add: distinct_card)
  moreover have "team_ID ` set ?ts \<subseteq> set ids" by auto
  ultimately have "team_ID ` set ?ts = set ids" by (simp add: card_subset_eq)
  with i have "i \<in> team_ID ` set ?ts" by simp
  then show ?thesis by (auto simp: team_exists_def list_ex_iff)
qed

section \<open>What the authorizations guarantee\<close>

lemma UserPermissionIDs_iff: "p \<in> set (UserPermissionIDs d dep u) \<longleftrightarrow> user_has_permission d dep u p"
proof -
  have "p \<in> set (UserPermissionIDs d dep u) \<longleftrightarrow> (\<exists>role. (dep, role, p) \<in> set (d_role_permissions d) \<and> (dep, u, role) \<in> set (user_effective_roles d) \<and> enabled_role d dep role)"
    by (auto simp: UserPermissionIDs_def)
  then show ?thesis by (auto simp: has_permission_iff effective_roles_iff holds_role_def)
qed

lemma GetRoleRecord_perms:
  assumes rec: "GetRoleRecord env dep i db = Inr (r, ps)" and ex: "role_exists (rb_dir db) dep i"
    and p: "(dep, i, p) \<in> set (d_role_permissions (rb_dir db))"
  shows "p \<in> set ps"
proof -
  let ?items = "map (\<lambda>r. (r, role_permission_ids (rb_dir db) dep (role_ID r))) (sort_key role_ID (filter (\<lambda>r. role_DeploymentID r = dep) (d_roles (rb_dir db))))"
  have "find (\<lambda>(r, _). role_ID r = i) ?items \<noteq> None"
    using ex by (auto simp: find_None_iff role_exists_iff)
  with rec have "find (\<lambda>(r, _). role_ID r = i) ?items = Some (r, ps)"
    by (auto simp: GetRoleRecord_def ListRolesPage_def bindS_Inr_iff Let_def split: option.splits)
  from find_SomeD [OF this] have "ps = role_permission_ids (rb_dir db) dep i" by auto
  with p show ?thesis by (force simp: role_permission_ids_def)
qed

lemma GetRoleRecord_NotFound: "GetRoleRecord env dep i db = Inl ErrNotFound \<Longrightarrow> \<not> role_exists (rb_dir db) dep i"
  by (auto simp: GetRoleRecord_def ListRolesPage_def take_role_def find_role_def ensure_def bindS_def Let_def find_None_iff role_exists_iff
      split: if_splits option.splits)

lemma granted_roles_perms:
  assumes "granted_roles env dep ids db = Inr rs" "i \<in> set ids" "role_exists (rb_dir db) dep i" "(dep, i, p) \<in> set (d_role_permissions (rb_dir db))"
  shows "p \<in> set (concat (map snd rs))"
  using assms
proof (induction env dep ids db arbitrary: rs rule: granted_roles.induct)
  case (2 env dep j js db)
  show ?case
  proof (cases "GetRoleRecord env dep j db")
    case (Inl e)
    with 2 GetRoleRecord_NotFound [of env dep j db] show ?thesis by (cases e) auto
  next
    case (Inr r)
    with 2 obtain rs' where rs: "granted_roles env dep js db = Inr rs'" "rs = r # rs'" by (auto simp: bindS_Inr_iff)
    show ?thesis
    proof (cases "i = j")
      case True
      with Inr 2 rs GetRoleRecord_perms [of env dep j db "fst r" "snd r" p] show ?thesis by auto
    next
      case False
      with Inr 2 rs show ?thesis by auto
    qed
  qed
qed simp

lemma authorizeRoleGrant_sound:
  assumes "authorizeRoleGrant env claims ids db = None" "\<not> tc_Admin claims" "i \<in> set ids"
    "role_exists (rb_dir db) (tc_DeploymentID claims) i" "(tc_DeploymentID claims, i, p) \<in> set (d_role_permissions (rb_dir db))"
  shows "user_has_permission (rb_dir db) (tc_DeploymentID claims) (tc_Subject claims) p"
proof -
  obtain rs where rs: "granted_roles env (tc_DeploymentID claims) ids db = Inr rs"
    "permissionSubset (UserPermissionIDs (rb_dir db) (tc_DeploymentID claims) (tc_Subject claims)) (concat (map snd rs))"
    using assms(1,2) by (auto simp: authorizeRoleGrant_def roleGrantAllowed_def split: sum.splits if_splits)
  from granted_roles_perms [OF rs(1) assms(3-5)] rs(2) have "p \<in> set (UserPermissionIDs (rb_dir db) (tc_DeploymentID claims) (tc_Subject claims))"
    by (auto simp: permissionSubset_def list_all_iff)
  then show ?thesis by (simp add: UserPermissionIDs_iff)
qed

lemma GetTeamRecord_defaults:
  assumes "GetTeamRecord env dep i db = Inr (t, n, defaults)"
  shows "r \<in> set defaults \<longleftrightarrow> (dep, i, r) \<in> set (d_team_default_roles (rb_dir db))"
proof -
  have "find (\<lambda>(t, _). team_ID t = i) (map (team_record_of (rb_dir db) dep) (sort_key team_ID (filter (\<lambda>t. team_DeploymentID t = dep) (d_teams (rb_dir db)))))
      = Some (t, n, defaults)"
    using assms by (auto simp: GetTeamRecord_def ListTeamsPage_def bindS_Inr_iff Let_def split: option.splits)
  from find_SomeD [OF this] show ?thesis by (force simp: team_record_of_def)
qed

lemma authorizeTeamGrant_sound:
  assumes "authorizeTeamGrant env claims ids db = None" "\<not> tc_Admin claims" "t \<in> set ids"
    "(tc_DeploymentID claims, t, r) \<in> set (d_team_default_roles (rb_dir db))"
    "role_exists (rb_dir db) (tc_DeploymentID claims) r" "(tc_DeploymentID claims, r, p) \<in> set (d_role_permissions (rb_dir db))"
  shows "user_has_permission (rb_dir db) (tc_DeploymentID claims) (tc_Subject claims) p"
proof -
  have "team_defaults_loop env claims ids db = None"
    using assms(1,2) by (auto simp: authorizeTeamGrant_def split: if_splits)
  with assms(3) obtain x n defaults where g: "GetTeamRecord env (tc_DeploymentID claims) t db = Inr (x, n, defaults)"
    "defaults \<noteq> [] \<longrightarrow> authorizeRoleGrant env claims defaults db = None"
    by (induction env claims ids db rule: team_defaults_loop.induct) (auto split: sum.splits option.splits prod.splits if_splits)
  have "r \<in> set defaults" using GetTeamRecord_defaults [OF g(1)] assms(4) by blast
  with g(2) authorizeRoleGrant_sound [OF _ assms(2) _ assms(5,6)] show ?thesis by fastforce
qed

lemma authorizeDelegated_sound:
  assumes "authorizeDelegatedPermissions env claims ps db = None" "\<not> tc_Admin claims" "p \<in> set ps"
  shows "user_has_permission (rb_dir db) (tc_DeploymentID claims) (tc_Subject claims) p"
  using assms by (auto simp: authorizeDelegatedPermissions_def permissionSubset_def list_all_iff UserPermissionIDs_iff split: if_splits)

section \<open>No operation hands out more than its caller holds\<close>

text \<open>The permissions \<open>d'\<close> gives beyond \<open>d\<close> are in the deployment \<open>dep\<close> and held by \<open>caller\<close> before.\<close>

definition delegates :: "string \<Rightarrow> string \<Rightarrow> directory \<Rightarrow> directory \<Rightarrow> bool" where
  "delegates dep caller d d' \<longleftrightarrow>
     (\<forall>dep' u p. user_has_permission d' dep' u p \<longrightarrow> user_has_permission d dep' u p \<or> dep' = dep \<and> user_has_permission d dep caller p)"

lemma delegatesI:
  assumes "\<And>dep' u role p. holds_role d' dep' u role \<Longrightarrow> (dep', role, p) \<in> set (d_role_permissions d') \<Longrightarrow>
      holds_role d dep' u role \<and> (dep', role, p) \<in> set (d_role_permissions d) \<or> dep' = dep \<and> user_has_permission d dep caller p"
  shows "delegates dep caller d d'"
  unfolding delegates_def
proof (intro allI impI)
  fix dep' u p
  assume "user_has_permission d' dep' u p"
  then obtain role where "holds_role d' dep' u role" "(dep', role, p) \<in> set (d_role_permissions d')"
    unfolding has_permission_iff [of d'] by blast
  from assms [OF this] show "user_has_permission d dep' u p \<or> dep' = dep \<and> user_has_permission d dep caller p"
    unfolding has_permission_iff [of d dep' u p] by blast
qed

text \<open>Tables that only shrink give nothing.\<close>

lemma delegates_shrink:
  assumes "\<And>dep' i. enabled_role d' dep' i \<Longrightarrow> enabled_role d dep' i" "\<And>dep' i. enabled_team d' dep' i \<Longrightarrow> enabled_team d dep' i"
    "set (d_user_role_bindings d') \<subseteq> set (d_user_role_bindings d)" "set (d_user_team_bindings d') \<subseteq> set (d_user_team_bindings d)"
    "set (d_team_default_roles d') \<subseteq> set (d_team_default_roles d)" "set (d_role_permissions d') \<subseteq> set (d_role_permissions d)"
  shows "delegates dep caller d d'"
  by (rule delegatesI) (use assms in \<open>unfold holds_role_def, blast\<close>)

lemma delegates_same: "delegates dep caller d d"
  by (rule delegates_shrink) auto

text \<open>The columns that decide about permissions.\<close>

lemma enabled_role_cong: "d_roles d = d_roles d' \<Longrightarrow> enabled_role d = enabled_role d'"
  by (simp add: enabled_role_def fun_eq_iff)

lemma enabled_team_cong: "d_teams d = d_teams d' \<Longrightarrow> enabled_team d = enabled_team d'"
  by (simp add: enabled_team_def fun_eq_iff)

lemma RecordAdminAudit_dir: "RecordAdminAudit env dep actor act kind i db = Inr db1 \<Longrightarrow> rb_dir db1 = rb_dir db"
  by (auto simp: RecordAdminAudit_def bindS_Inr_iff)

subsection \<open>Roles\<close>

lemma CreateRole_delegates:
  assumes ok: "rbac_ok (rb_dir db)" and run: "CreateRole env dep role ps db = Inr db1"
    and auth: "\<And>p. p \<in> set ps \<Longrightarrow> user_has_permission (rb_dir db) dep caller p"
  shows "delegates dep caller (rb_dir db) (rb_dir db1) \<and> rbac_ok (rb_dir db1)"
proof -
  let ?d = "rb_dir db" and ?i = "role_ID role"
  let ?row = "role \<lparr> role_DeploymentID := dep, role_Enabled := True \<rparr>"
  have fresh: "\<not> role_exists ?d dep ?i"
    and db1: "rb_dir db1 = ?d \<lparr> d_roles := d_roles ?d @ [?row], d_role_permissions := d_role_permissions ?d @ map (\<lambda>p. (dep, ?i, p)) (uniqueStrings ps) \<rparr>"
    using run by (auto simp: CreateRole_def Let_def bindS_Inr_iff role_exists_def list_ex_iff)
  have "delegates dep caller ?d (rb_dir db1)"
  proof (rule delegatesI)
    fix dep' u r p
    assume h: "holds_role (rb_dir db1) dep' u r" and p: "(dep', r, p) \<in> set (d_role_permissions (rb_dir db1))"
    show "holds_role ?d dep' u r \<and> (dep', r, p) \<in> set (d_role_permissions ?d) \<or> dep' = dep \<and> user_has_permission ?d dep caller p"
    proof (cases "dep' = dep \<and> r = ?i")
      case True
      with p ok fresh auth show ?thesis by (auto simp: db1 rbac_ok_def)
    next
      case False
      then have "enabled_role (rb_dir db1) dep' r = enabled_role ?d dep' r" by (auto simp: db1 enabled_role_def)
      with h p False show ?thesis by (auto simp: db1 holds_role_def enabled_team_def)
    qed
  qed
  moreover have "rbac_ok (rb_dir db1)"
    using ok by (auto simp: db1 rbac_ok_def role_exists_def team_exists_def)
  ultimately show ?thesis by blast
qed

lemma update_role_row_key [simp]: "role_DeploymentID (update_role_row n ds e r) = role_DeploymentID r" "role_ID (update_role_row n ds e r) = role_ID r"
  by (simp_all add: update_role_row_def set_if_def split: option.split)

lemma update_role_row_disabled: "e \<noteq> Some True \<Longrightarrow> role_Enabled (update_role_row n ds e r) \<Longrightarrow> role_Enabled r"
  by (auto simp: update_role_row_def set_if_def split: option.splits)

lemma UpdateRole_dir:
  assumes "UpdateRole env dep i n ds e permissions db = Inr (r, db1)"
  obtains d1 where "d1 = (rb_dir db) \<lparr> d_roles := map (\<lambda>r. if role_DeploymentID r = dep \<and> role_ID r = i then update_role_row n ds e r else r) (d_roles (rb_dir db)) \<rparr>"
    "rb_dir db1 = (case permissions of None \<Rightarrow> d1 | Some ps \<Rightarrow> d1 \<lparr> d_role_permissions :=
       filter (\<lambda>(dep', role', _). \<not> (dep' = dep \<and> role' = i)) (d_role_permissions d1) @ map (\<lambda>p. (dep, i, p)) (uniqueStrings ps) \<rparr>)"
    "role_exists (rb_dir db) dep i"
proof -
  have "role_exists (rb_dir db) dep i"
    using assms by (auto simp: UpdateRole_def bindS_Inr_iff take_role_def find_role_def role_exists_iff split: option.splits dest!: find_SomeD)
  with assms show thesis
    by (intro that [OF refl]) (auto simp: UpdateRole_def bindS_Inr_iff Let_def split: option.splits)
qed

lemma UpdateRole_delegates:
  assumes ok: "rbac_ok (rb_dir db)" and run: "UpdateRole env dep i n ds e permissions db = Inr (rr, db1)"
    and auth: "\<And>ps p. permissions = Some ps \<Longrightarrow> p \<in> set ps \<Longrightarrow> user_has_permission (rb_dir db) dep caller p"
    and enable: "permissions \<noteq> None \<or> e \<noteq> Some True"
  shows "delegates dep caller (rb_dir db) (rb_dir db1) \<and> rbac_ok (rb_dir db1)"
proof -
  let ?d = "rb_dir db"
  from run obtain d1 where d1: "d1 = ?d \<lparr> d_roles := map (\<lambda>r. if role_DeploymentID r = dep \<and> role_ID r = i then update_role_row n ds e r else r) (d_roles ?d) \<rparr>"
    and db1: "rb_dir db1 = (case permissions of None \<Rightarrow> d1 | Some ps \<Rightarrow> d1 \<lparr> d_role_permissions :=
       filter (\<lambda>(dep', role', _). \<not> (dep' = dep \<and> role' = i)) (d_role_permissions d1) @ map (\<lambda>p. (dep, i, p)) (uniqueStrings ps) \<rparr>)"
    and ex: "role_exists ?d dep i" by (rule UpdateRole_dir)
  have roles: "d_roles (rb_dir db1) = map (\<lambda>r. if role_DeploymentID r = dep \<and> role_ID r = i then update_role_row n ds e r else r) (d_roles ?d)"
    and rest: "d_teams (rb_dir db1) = d_teams ?d" "d_user_role_bindings (rb_dir db1) = d_user_role_bindings ?d"
      "d_user_team_bindings (rb_dir db1) = d_user_team_bindings ?d" "d_team_default_roles (rb_dir db1) = d_team_default_roles ?d"
    by (simp_all add: db1 d1 split: option.split)
  have en: "enabled_role (rb_dir db1) dep' r \<Longrightarrow> \<not> (dep' = dep \<and> r = i \<and> e = Some True) \<Longrightarrow> enabled_role ?d dep' r" for dep' r
    by (auto simp: enabled_role_def roles list_ex_iff split: if_splits dest: update_role_row_disabled)
  have ps: "(dep', r, p) \<in> set (d_role_permissions (rb_dir db1)) \<Longrightarrow>
      (dep', r, p) \<in> set (d_role_permissions ?d) \<and> \<not> (permissions \<noteq> None \<and> dep' = dep \<and> r = i) \<or> dep' = dep \<and> r = i \<and> (\<exists>ps. permissions = Some ps \<and> p \<in> set ps)" for dep' r p
    by (auto simp: db1 d1 split: option.splits)
  have "delegates dep caller ?d (rb_dir db1)"
  proof (rule delegatesI)
    fix dep' u r p
    assume h: "holds_role (rb_dir db1) dep' u r" and p: "(dep', r, p) \<in> set (d_role_permissions (rb_dir db1))"
    from ps [OF p] show "holds_role ?d dep' u r \<and> (dep', r, p) \<in> set (d_role_permissions ?d) \<or> dep' = dep \<and> user_has_permission ?d dep caller p"
    proof
      assume q: "(dep', r, p) \<in> set (d_role_permissions ?d) \<and> \<not> (permissions \<noteq> None \<and> dep' = dep \<and> r = i)"
      with enable en [of dep' r] h have "enabled_role ?d dep' r" by (auto simp: holds_role_def)
      with h q show ?thesis by (auto simp: holds_role_def rest enabled_team_def)
    qed (use auth in blast)
  qed
  moreover have "map role_key (d_roles (rb_dir db1)) = map role_key (d_roles ?d)" by (simp add: roles role_key_def)
  then have "role_exists (rb_dir db1) dep' r = role_exists ?d dep' r" for dep' r
    by (simp only: role_exists_key)
  then have "rbac_ok (rb_dir db1)"
    by (intro rbac_okI) (use rbac_okD [OF ok] ex in \<open>auto simp: rest team_exists_def dest!: ps\<close>)
  ultimately show ?thesis by blast
qed

lemma DeleteRole_delegates:
  assumes ok: "rbac_ok (rb_dir db)" and run: "DeleteRole env dep i db = Inr db1"
  shows "delegates dep0 caller (rb_dir db) (rb_dir db1) \<and> rbac_ok (rb_dir db1)"
proof -
  have db1: "rb_dir db1 = (rb_dir (drop_grants dep ''role'' i db)) \<lparr>
        d_roles := filter (\<lambda>r. \<not> (role_DeploymentID r = dep \<and> role_ID r = i)) (d_roles (rb_dir db)),
        d_role_permissions := filter (\<lambda>(dep', role, _). \<not> (dep' = dep \<and> role = i)) (d_role_permissions (rb_dir db)),
        d_user_role_bindings := filter (\<lambda>(dep', _, role). \<not> (dep' = dep \<and> role = i)) (d_user_role_bindings (rb_dir db)) \<rparr>"
    using run by (auto simp: DeleteRole_def deleteSubject_def delete_role_row_def drop_grants_def bindS_Inr_iff Let_def split: if_splits)
  have "delegates dep0 caller (rb_dir db) (rb_dir db1)"
    by (rule delegates_shrink) (auto simp: db1 drop_grants_def enabled_role_def enabled_team_def list_ex_iff)
  moreover have "rbac_ok (rb_dir db1)" using ok
    unfolding rbac_ok_def role_exists_iff team_exists_def by (fastforce simp: db1 drop_grants_def)
  ultimately show ?thesis by blast
qed

subsection \<open>Teams\<close>

lemma replaceTeamDefaultRoles_dir:
  assumes "replaceTeamDefaultRoles env dep team ids db = Inr db1"
  shows "rb_dir db1 = (rb_dir db) \<lparr> d_team_default_roles :=
    filter (\<lambda>(dep', team', _). \<not> (dep' = dep \<and> team' = team)) (d_team_default_roles (rb_dir db)) @ map (\<lambda>r. (dep, team, r)) (uniqueStrings ids) \<rparr>"
  using assms by (auto simp: replaceTeamDefaultRoles_def Let_def bindS_Inr_iff)

lemma CreateTeam_delegates:
  assumes ok: "rbac_ok (rb_dir db)" and run: "CreateTeam env dep team defaults db = Inr db1"
  shows "delegates dep0 caller (rb_dir db) (rb_dir db1) \<and> rbac_ok (rb_dir db1)"
proof -
  let ?d = "rb_dir db" and ?i = "team_ID team"
  let ?row = "team \<lparr> team_DeploymentID := dep, team_Enabled := True \<rparr>"
  have fresh: "\<not> team_exists ?d dep ?i"
    using run by (auto simp: CreateTeam_def Let_def bindS_Inr_iff team_exists_def list_ex_iff)
  define db0 where "db0 = db \<lparr> rb_dir := ?d \<lparr> d_teams := d_teams ?d @ [?row] \<rparr> \<rparr>"
  have "(case defaults of None \<Rightarrow> Inr db0 | Some ids \<Rightarrow> replaceTeamDefaultRoles env dep ?i ids db0) = Inr db1"
    using run by (cases defaults) (auto simp: CreateTeam_def Let_def bindS_Inr_iff db0_def)
  then have db1: "d_teams (rb_dir db1) = d_teams ?d @ [?row]" "d_roles (rb_dir db1) = d_roles ?d" "d_user_role_bindings (rb_dir db1) = d_user_role_bindings ?d"
      "d_user_team_bindings (rb_dir db1) = d_user_team_bindings ?d" "d_role_permissions (rb_dir db1) = d_role_permissions ?d"
    and def: "\<And>dep' t r. (dep', t, r) \<in> set (d_team_default_roles (rb_dir db1)) \<Longrightarrow> (dep', t) \<noteq> (dep, ?i) \<Longrightarrow> (dep', t, r) \<in> set (d_team_default_roles ?d)"
    by (auto simp: db0_def split: option.splits dest!: replaceTeamDefaultRoles_dir)
  have none: "(dep, u, ?i) \<notin> set (d_user_team_bindings ?d)" for u using ok fresh by (auto simp: rbac_ok_def)
  have "delegates dep0 caller ?d (rb_dir db1)"
  proof (rule delegatesI)
    fix dep' u r p
    assume h: "holds_role (rb_dir db1) dep' u r" and p: "(dep', r, p) \<in> set (d_role_permissions (rb_dir db1))"
    have "enabled_team (rb_dir db1) dep' t = enabled_team ?d dep' t" if "(dep', t) \<noteq> (dep, ?i)" for t
      using that by (auto simp: enabled_team_def db1)
    then have "(dep', u, t) \<in> set (d_user_team_bindings ?d) \<Longrightarrow> enabled_team (rb_dir db1) dep' t \<Longrightarrow> (dep', t, r) \<in> set (d_team_default_roles (rb_dir db1))
        \<Longrightarrow> enabled_team ?d dep' t \<and> (dep', t, r) \<in> set (d_team_default_roles ?d)" for t
      using def none by (cases "(dep', t) = (dep, ?i)") auto
    with h have "holds_role ?d dep' u r"
      unfolding holds_role_def enabled_role_cong [OF db1(2)] db1 by metis
    with p show "holds_role ?d dep' u r \<and> (dep', r, p) \<in> set (d_role_permissions ?d) \<or> dep' = dep0 \<and> user_has_permission ?d dep0 caller p"
      by (simp add: db1)
  qed
  moreover have "rbac_ok (rb_dir db1)"
    by (intro rbac_okI) (use rbac_okD [OF ok] fresh in \<open>auto simp: role_exists_def db1 team_exists_iff team_key_def\<close>)
  ultimately show ?thesis by blast
qed

lemma update_team_row_key [simp]: "team_DeploymentID (update_team_row n ds e t) = team_DeploymentID t" "team_ID (update_team_row n ds e t) = team_ID t"
  by (simp_all add: update_team_row_def set_if_def split: option.split)

lemma update_team_row_disabled: "e \<noteq> Some True \<Longrightarrow> team_Enabled (update_team_row n ds e t) \<Longrightarrow> team_Enabled t"
  by (auto simp: update_team_row_def set_if_def split: option.splits)

lemma UpdateTeam_delegates:
  assumes ok: "rbac_ok (rb_dir db)" and run: "UpdateTeam env dep i n ds e defaults db = Inr (rr, db1)"
    and auth: "\<And>ids r p. defaults = Some ids \<Longrightarrow> r \<in> set ids \<Longrightarrow> role_exists (rb_dir db) dep r \<Longrightarrow> (dep, r, p) \<in> set (d_role_permissions (rb_dir db))
        \<Longrightarrow> user_has_permission (rb_dir db) dep caller p"
    and enable: "\<And>r p. defaults = None \<Longrightarrow> e = Some True \<Longrightarrow> (dep, i, r) \<in> set (d_team_default_roles (rb_dir db)) \<Longrightarrow> role_exists (rb_dir db) dep r
        \<Longrightarrow> (dep, r, p) \<in> set (d_role_permissions (rb_dir db)) \<Longrightarrow> user_has_permission (rb_dir db) dep caller p"
  shows "delegates dep caller (rb_dir db) (rb_dir db1) \<and> rbac_ok (rb_dir db1)"
proof -
  let ?d = "rb_dir db"
  define db0 where "db0 = db \<lparr> rb_dir := ?d \<lparr> d_teams := map (\<lambda>t. if team_DeploymentID t = dep \<and> team_ID t = i then update_team_row n ds e t else t) (d_teams ?d) \<rparr> \<rparr>"
  have "(case defaults of None \<Rightarrow> Inr db0 | Some ids \<Rightarrow> replaceTeamDefaultRoles env dep i ids db0) = Inr db1"
    using run by (cases defaults) (auto simp: UpdateTeam_def Let_def bindS_Inr_iff db0_def)
  then have db1: "d_teams (rb_dir db1) = map (\<lambda>t. if team_DeploymentID t = dep \<and> team_ID t = i then update_team_row n ds e t else t) (d_teams ?d)"
      "d_roles (rb_dir db1) = d_roles ?d" "d_user_role_bindings (rb_dir db1) = d_user_role_bindings ?d"
      "d_user_team_bindings (rb_dir db1) = d_user_team_bindings ?d" "d_role_permissions (rb_dir db1) = d_role_permissions ?d"
    and def: "\<And>dep' t r. (dep', t, r) \<in> set (d_team_default_roles (rb_dir db1)) \<Longrightarrow>
        (dep', t, r) \<in> set (d_team_default_roles ?d) \<and> \<not> (defaults \<noteq> None \<and> dep' = dep \<and> t = i) \<or> dep' = dep \<and> t = i \<and> (\<exists>ids. defaults = Some ids \<and> r \<in> set ids)"
    by (auto simp: db0_def split: option.splits dest!: replaceTeamDefaultRoles_dir)
  have en: "enabled_team (rb_dir db1) dep' t \<Longrightarrow> \<not> (dep' = dep \<and> t = i \<and> e = Some True) \<Longrightarrow> enabled_team ?d dep' t" for dep' t
    by (auto simp: enabled_team_def db1 list_ex_iff split: if_splits dest: update_team_row_disabled)
  have "delegates dep caller ?d (rb_dir db1)"
  proof (rule delegatesI)
    fix dep' u r p
    assume h: "holds_role (rb_dir db1) dep' u r" and p0: "(dep', r, p) \<in> set (d_role_permissions (rb_dir db1))"
    note p = p0 [unfolded db1(5)]
    have er: "enabled_role ?d dep' r" using h by (simp add: holds_role_def enabled_role_cong [OF db1(2)])
    note re = enabled_exists(1) [OF er]
    from h consider "(dep', u, r) \<in> set (d_user_role_bindings ?d)"
      | t where "(dep', u, t) \<in> set (d_user_team_bindings ?d)" "enabled_team (rb_dir db1) dep' t" "(dep', t, r) \<in> set (d_team_default_roles (rb_dir db1))"
      unfolding holds_role_def db1 by blast
    then show "holds_role ?d dep' u r \<and> (dep', r, p) \<in> set (d_role_permissions ?d) \<or> dep' = dep \<and> user_has_permission ?d dep caller p"
    proof cases
      case 1
      with er p show ?thesis by (simp add: holds_role_def)
    next
      case (2 t)
      show ?thesis
      proof (cases "dep' = dep \<and> t = i \<and> (defaults \<noteq> None \<or> e = Some True)")
        case True
        with def [OF 2(3)] auth enable re p show ?thesis by (cases defaults) auto
      next
        case False
        with def [OF 2(3)] en [OF 2(2)] 2 er p show ?thesis by (auto simp: holds_role_def)
      qed
    qed
  qed
  moreover have "map team_key (d_teams (rb_dir db1)) = map team_key (d_teams ?d)" by (simp add: db1 team_key_def)
  then have "rbac_ok (rb_dir db1)"
    using ok unfolding rbac_ok_def role_exists_key team_exists_key db1(2,4,5) by simp
  ultimately show ?thesis by blast
qed

lemma DeleteTeam_delegates:
  assumes ok: "rbac_ok (rb_dir db)" and run: "DeleteTeam env dep i db = Inr db1"
  shows "delegates dep0 caller (rb_dir db) (rb_dir db1) \<and> rbac_ok (rb_dir db1)"
proof -
  have db1: "rb_dir db1 = (rb_dir (drop_grants dep ''team'' i db)) \<lparr>
        d_teams := filter (\<lambda>t. \<not> (team_DeploymentID t = dep \<and> team_ID t = i)) (d_teams (rb_dir db)),
        d_user_team_bindings := filter (\<lambda>(dep', _, team). \<not> (dep' = dep \<and> team = i)) (d_user_team_bindings (rb_dir db)),
        d_team_default_roles := filter (\<lambda>(dep', team, _). \<not> (dep' = dep \<and> team = i)) (d_team_default_roles (rb_dir db)) \<rparr>"
    using run by (auto simp: DeleteTeam_def deleteSubject_def delete_team_row_def drop_grants_def bindS_Inr_iff Let_def split: if_splits option.splits)
  have "delegates dep0 caller (rb_dir db) (rb_dir db1)"
    by (rule delegates_shrink) (auto simp: db1 drop_grants_def enabled_role_def enabled_team_def list_ex_iff)
  moreover have "rbac_ok (rb_dir db1)" using ok
    unfolding rbac_ok_def role_exists_iff team_exists_def list_ex_iff by (fastforce simp: db1 drop_grants_def intro: distinct_map_filter)
  ultimately show ?thesis by blast
qed

subsection \<open>Users\<close>

text \<open>Bindings of one user are replaced or added; the caller holds every permission of the roles and of
  the default roles of the teams.\<close>

lemma bindings_delegate:
  assumes same: "d_roles d' = d_roles d" "d_teams d' = d_teams d" "d_role_permissions d' = d_role_permissions d" "d_team_default_roles d' = d_team_default_roles d"
    and roles: "set (d_user_role_bindings d') \<subseteq> set (d_user_role_bindings d) \<union> {(dep, user, r) | r. r \<in> set rs}"
    and teams: "set (d_user_team_bindings d') \<subseteq> set (d_user_team_bindings d) \<union> {(dep, user, t) | t. t \<in> set ts}"
    and role_auth: "\<And>r p. r \<in> set rs \<Longrightarrow> role_exists d dep r \<Longrightarrow> (dep, r, p) \<in> set (d_role_permissions d) \<Longrightarrow> user_has_permission d dep caller p"
    and team_auth: "\<And>t r p. t \<in> set ts \<Longrightarrow> (dep, t, r) \<in> set (d_team_default_roles d) \<Longrightarrow> role_exists d dep r
        \<Longrightarrow> (dep, r, p) \<in> set (d_role_permissions d) \<Longrightarrow> user_has_permission d dep caller p"
  shows "delegates dep caller d d'"
proof (rule delegatesI)
  fix dep' u r p
  assume h: "holds_role d' dep' u r" and p: "(dep', r, p) \<in> set (d_role_permissions d')"
  have er: "enabled_role d dep' r" using h by (simp add: holds_role_def enabled_role_cong [OF same(1)])
  note re = enabled_exists(1) [OF er] and p = p [unfolded same(3)]
  from h consider "(dep', u, r) \<in> set (d_user_role_bindings d')"
    | t where "(dep', u, t) \<in> set (d_user_team_bindings d')" "enabled_team d dep' t" "(dep', t, r) \<in> set (d_team_default_roles d)"
    unfolding holds_role_def same enabled_team_cong [OF same(2)] by blast
  then show "holds_role d dep' u r \<and> (dep', r, p) \<in> set (d_role_permissions d) \<or> dep' = dep \<and> user_has_permission d dep caller p"
  proof cases
    case 1
    with roles consider "(dep', u, r) \<in> set (d_user_role_bindings d)" | "dep' = dep" "r \<in> set rs" by blast
    then show ?thesis by cases (use er p role_auth re in \<open>auto simp: holds_role_def\<close>)
  next
    case (2 t)
    with teams consider "(dep', u, t) \<in> set (d_user_team_bindings d)" | "dep' = dep" "t \<in> set ts" by blast
    then show ?thesis by cases (use 2 er p team_auth re in \<open>auto simp: holds_role_def\<close>)
  qed
qed

lemma ReplaceUserRBAC_delegates:
  assumes ok: "rbac_ok (rb_dir db)" and run: "ReplaceUserRBAC env dep user rs ts db = Inr db1"
    and role_auth: "\<And>r p. r \<in> set rs \<Longrightarrow> role_exists (rb_dir db) dep r \<Longrightarrow> (dep, r, p) \<in> set (d_role_permissions (rb_dir db)) \<Longrightarrow> user_has_permission (rb_dir db) dep caller p"
    and team_auth: "\<And>t r p. t \<in> set ts \<Longrightarrow> (dep, t, r) \<in> set (d_team_default_roles (rb_dir db)) \<Longrightarrow> role_exists (rb_dir db) dep r
        \<Longrightarrow> (dep, r, p) \<in> set (d_role_permissions (rb_dir db)) \<Longrightarrow> user_has_permission (rb_dir db) dep caller p"
  shows "delegates dep caller (rb_dir db) (rb_dir db1) \<and> rbac_ok (rb_dir db1)"
proof -
  let ?d = "rb_dir db"
  have n: "length (filter (\<lambda>t. team_DeploymentID t = dep \<and> team_ID t \<in> set (uniqueStrings ts)) (d_teams ?d)) = length (uniqueStrings ts)"
    and db1: "rb_dir db1 = ?d \<lparr>
        d_user_role_bindings := filter (\<lambda>(dep', user', _). \<not> (dep' = dep \<and> user' = user)) (d_user_role_bindings ?d) @ map (\<lambda>r. (dep, user, r)) (uniqueStrings rs),
        d_user_team_bindings := filter (\<lambda>(dep', user', _). \<not> (dep' = dep \<and> user' = user)) (d_user_team_bindings ?d) @ map (\<lambda>t. (dep, user, t)) (uniqueStrings ts) \<rparr>"
    using run by (auto simp: ReplaceUserRBAC_def Let_def bindS_Inr_iff)
  have "delegates dep caller ?d (rb_dir db1)"
    by (rule bindings_delegate [where rs = rs and ts = ts and user = user]) (use role_auth team_auth in \<open>auto simp: db1\<close>)
  moreover have "team_exists ?d dep t" if "t \<in> set ts" for t
    using counted_teams_exist [OF rbac_okD(3) [OF ok] n] that by (simp add: uniqueStrings_def distinct_unique_from) (simp add: set_unique_from)
  then have "rbac_ok (rb_dir db1)"
    by (intro rbac_okI) (use rbac_okD [OF ok] in \<open>auto simp: db1 role_exists_def team_exists_def\<close>)
  ultimately show ?thesis by blast
qed

lemma CreateUser_dir:
  assumes "CreateUser env dep params db = Inr (r, db1)"
  obtains user where "rb_dir db1 = (rb_dir db) \<lparr> d_users := d_users (rb_dir db) @ [user],
       d_user_role_bindings := d_user_role_bindings (rb_dir db) @ map (\<lambda>r. (dep, cu_ID params, r)) (uniqueStrings (cu_RoleIDs params)),
       d_user_team_bindings := d_user_team_bindings (rb_dir db) @ map (\<lambda>t. (dep, cu_ID params, t)) (uniqueStrings (cu_TeamIDs params)) \<rparr>"
    "\<forall>t \<in> set (cu_TeamIDs params). team_exists (rb_dir db) dep t"
  using assms by (auto simp: CreateUser_def Let_def bindS_Inr_iff list_all_iff)

text \<open>The tables that fix what a role or a team is worth.\<close>

definition same_roles :: "directory \<Rightarrow> directory \<Rightarrow> bool" where
  "same_roles d d' \<longleftrightarrow> d_roles d' = d_roles d \<and> d_teams d' = d_teams d \<and> d_role_permissions d' = d_role_permissions d
     \<and> d_team_default_roles d' = d_team_default_roles d"

lemma same_roles_trans: "same_roles d d' \<Longrightarrow> same_roles d' d'' \<Longrightarrow> same_roles d d''"
  by (simp add: same_roles_def)

text \<open>What is needed of a caller to bind roles \<open>rs\<close> and teams \<open>ts\<close>.\<close>

definition may_bind :: "directory \<Rightarrow> string \<Rightarrow> string \<Rightarrow> string list \<Rightarrow> string list \<Rightarrow> bool" where
  "may_bind d dep caller rs ts \<longleftrightarrow>
     (\<forall>r p. r \<in> set rs \<longrightarrow> role_exists d dep r \<longrightarrow> (dep, r, p) \<in> set (d_role_permissions d) \<longrightarrow> user_has_permission d dep caller p)
   \<and> (\<forall>t r p. t \<in> set ts \<longrightarrow> (dep, t, r) \<in> set (d_team_default_roles d) \<longrightarrow> role_exists d dep r \<longrightarrow> (dep, r, p) \<in> set (d_role_permissions d)
        \<longrightarrow> user_has_permission d dep caller p)"

lemma may_bind_authorized:
  assumes "authorizeRoleGrant env claims rs db = None" "authorizeTeamGrant env claims ts db = None" "\<not> tc_Admin claims"
  shows "may_bind (rb_dir db) (tc_DeploymentID claims) (tc_Subject claims) rs ts"
  unfolding may_bind_def using authorizeRoleGrant_sound [OF assms(1,3)] authorizeTeamGrant_sound [OF assms(2,3)] by blast

lemma createUserWithAudit_delegates:
  assumes ok: "rbac_ok (rb_dir db)" and run: "createUserWithAudit env claims dep params db = Inr (r, db1)"
    and auth: "may_bind d0 dep caller (cu_RoleIDs params) (cu_TeamIDs params)" and d0: "same_roles d0 (rb_dir db)"
    and sub: "delegates dep caller d0 (rb_dir db)"
  shows "delegates dep caller d0 (rb_dir db1) \<and> rbac_ok (rb_dir db1) \<and> same_roles d0 (rb_dir db1)"
proof -
  obtain db2 where c: "CreateUser env dep params db = Inr (r, db2)" and a: "rb_dir db1 = rb_dir db2"
    using run by (auto simp: createUserWithAudit_def bindS_Inr_iff dest!: transaction_Inr RecordAdminAudit_dir)
  from c obtain user where d2: "rb_dir db2 = (rb_dir db) \<lparr> d_users := d_users (rb_dir db) @ [user],
       d_user_role_bindings := d_user_role_bindings (rb_dir db) @ map (\<lambda>r. (dep, cu_ID params, r)) (uniqueStrings (cu_RoleIDs params)),
       d_user_team_bindings := d_user_team_bindings (rb_dir db) @ map (\<lambda>t. (dep, cu_ID params, t)) (uniqueStrings (cu_TeamIDs params)) \<rparr>"
    and ex: "\<forall>t \<in> set (cu_TeamIDs params). team_exists (rb_dir db) dep t" by (rule CreateUser_dir)
  have same: "same_roles d0 (rb_dir db2)" using d0 by (simp add: same_roles_def d2)
  define d1 where "d1 = (rb_dir db2) \<lparr> d_user_role_bindings := d_user_role_bindings d0 @ map (\<lambda>r. (dep, cu_ID params, r)) (cu_RoleIDs params),
       d_user_team_bindings := d_user_team_bindings d0 @ map (\<lambda>t. (dep, cu_ID params, t)) (cu_TeamIDs params) \<rparr>"
  have "delegates dep caller d0 d1"
    by (rule bindings_delegate [where rs = "cu_RoleIDs params" and ts = "cu_TeamIDs params" and user = "cu_ID params"])
      (use auth same in \<open>auto simp: d1_def same_roles_def may_bind_def\<close>)
  moreover have "user_has_permission (rb_dir db) dep' u p \<or> user_has_permission d1 dep' u p" if "user_has_permission (rb_dir db2) dep' u p" for dep' u p
    using that d0 unfolding has_permission_iff holds_role_def enabled_role_def enabled_team_def by (auto simp: d1_def d2 same_roles_def) blast+
  ultimately have "delegates dep caller d0 (rb_dir db2)" using sub unfolding delegates_def by blast
  moreover have "rbac_ok (rb_dir db2)"
    by (intro rbac_okI) (use rbac_okD [OF ok] ex in \<open>auto simp: d2 role_exists_def team_exists_def\<close>)
  ultimately show ?thesis using same a by simp
qed

lemma build_params_lists: "buildCreateUserParams idkey salt uuid input = Inr params \<Longrightarrow> cu_RoleIDs params = cr_RoleIDs input \<and> cu_TeamIDs params = cr_TeamIDs input"
  by (auto simp: buildCreateUserParams_def Let_def split: if_splits sum.splits)

lemma import_row_delegates:
  assumes "rbac_ok (rb_dir db)" "same_roles d0 (rb_dir db)" "delegates dep caller d0 (rb_dir db)"
    and auth: "userMembershipProblem (cr_RoleIDs item) (cr_TeamIDs item) = [] \<Longrightarrow> may_bind d0 dep caller (cr_RoleIDs item) (cr_TeamIDs item)"
    and run: "import_row env idkey salt claims dep item db = (failure, db1)"
  shows "delegates dep caller d0 (rb_dir db1) \<and> rbac_ok (rb_dir db1) \<and> same_roles d0 (rb_dir db1)"
proof (cases "db1 = db")
  case False
  then obtain params r where m: "userMembershipProblem (cr_RoleIDs item) (cr_TeamIDs item) = []" and b: "cu_RoleIDs params = cr_RoleIDs item" "cu_TeamIDs params = cr_TeamIDs item"
    and c: "createUserWithAudit env claims dep params db = Inr (r, db1)"
    using run by (auto simp: import_row_def Let_def split: if_splits sum.splits prod.splits dest!: build_params_lists)
  show ?thesis by (rule createUserWithAudit_delegates [OF assms(1) c _ assms(2,3)]) (use auth [OF m] b in simp)
qed (use assms in simp)

lemma import_loop_delegates:
  assumes "rbac_ok (rb_dir db)" "same_roles d0 (rb_dir db)" "delegates dep caller d0 (rb_dir db)"
    and "\<And>item. item \<in> set items \<Longrightarrow> userMembershipProblem (cr_RoleIDs item) (cr_TeamIDs item) = [] \<Longrightarrow> may_bind d0 dep caller (cr_RoleIDs item) (cr_TeamIDs item)"
    and "import_loop envs idkey salts claims dep k items db = (n, errs, db1)"
  shows "delegates dep caller d0 (rb_dir db1) \<and> rbac_ok (rb_dir db1)"
  using assms
proof (induction items arbitrary: k db n errs)
  case (Cons item items)
  obtain failure db2 where r: "import_row (envs k) idkey (salts k) claims dep item db = (failure, db2)" by force
  from import_row_delegates [OF Cons.prems(1-3) _ r] Cons.prems(4) have d2: "delegates dep caller d0 (rb_dir db2)" "rbac_ok (rb_dir db2)" "same_roles d0 (rb_dir db2)" by auto
  obtain n' errs' db3 where l: "import_loop envs idkey salts claims dep (Suc k) items db2 = (n', errs', db3)" by (metis prod_cases3)
  have "db3 = db1" using Cons.prems(5) r l by (auto split: option.splits)
  note l' = l [unfolded this]
  from Cons.IH [OF d2(2,3,1) _ l'] Cons.prems(4) show ?case by auto
qed simp

subsection \<open>Handlers\<close>

text \<open>One call of a management handler by a caller who is no administrator. \<open>C\<close> holds the callers by
  deployment and user.\<close>

inductive delegated_step :: "(string \<times> string) set \<Rightarrow> rbac_db \<Rightarrow> rbac_db \<Rightarrow> bool" for C where
  create_role: "\<not> tc_Admin claims \<Longrightarrow> (tc_DeploymentID claims, tc_Subject claims) \<in> C \<Longrightarrow> delegated_step C db (snd (createRole env claims body db))"
| update_role: "\<not> tc_Admin claims \<Longrightarrow> (tc_DeploymentID claims, tc_Subject claims) \<in> C \<Longrightarrow> ru_Permissions input \<noteq> None \<or> ru_Enabled input \<noteq> Some True
    \<Longrightarrow> delegated_step C db (snd (updateRole env claims i (Some input) db))"
| delete_role: "\<not> tc_Admin claims \<Longrightarrow> (tc_DeploymentID claims, tc_Subject claims) \<in> C \<Longrightarrow> delegated_step C db (snd (deleteRole env claims i db))"
| create_team: "\<not> tc_Admin claims \<Longrightarrow> (tc_DeploymentID claims, tc_Subject claims) \<in> C \<Longrightarrow> delegated_step C db (snd (Rbac.createTeam env claims team_body db))"
| update_team: "\<not> tc_Admin claims \<Longrightarrow> (tc_DeploymentID claims, tc_Subject claims) \<in> C \<Longrightarrow> delegated_step C db (snd (updateTeam env claims i team_change db))"
| delete_team: "\<not> tc_Admin claims \<Longrightarrow> (tc_DeploymentID claims, tc_Subject claims) \<in> C \<Longrightarrow> delegated_step C db (snd (Rbac.deleteTeam env claims i db))"
| replace_rbac: "\<not> tc_Admin claims \<Longrightarrow> (tc_DeploymentID claims, tc_Subject claims) \<in> C \<Longrightarrow> delegated_step C db (snd (replaceUserRBAC env claims user bindings db))"
| create_user: "\<not> tc_Admin claims \<Longrightarrow> (tc_DeploymentID claims, tc_Subject claims) \<in> C \<Longrightarrow> delegated_step C db (snd (createUser env idkey salt claims user_body db))"
| import_users: "\<not> tc_Admin claims \<Longrightarrow> (tc_DeploymentID claims, tc_Subject claims) \<in> C \<Longrightarrow> delegated_step C db (snd (importUsers env envs idkey salts claims rows db))"
| update_user: "\<not> tc_Admin claims \<Longrightarrow> (tc_DeploymentID claims, tc_Subject claims) \<in> C \<Longrightarrow> delegated_step C db (fst (snd (updateUser env claims i change (db, sdb))))"
| reset_password: "\<not> tc_Admin claims \<Longrightarrow> (tc_DeploymentID claims, tc_Subject claims) \<in> C \<Longrightarrow> delegated_step C db (fst (snd (resetUserPassword env idkey salt claims i reset (db, sdb))))"
| delete_user: "\<not> tc_Admin claims \<Longrightarrow> (tc_DeploymentID claims, tc_Subject claims) \<in> C \<Longrightarrow> delegated_step C db (fst (snd (deleteUser env claims i (db, sdb))))"

abbreviation safe_step :: "Claims \<Rightarrow> rbac_db \<Rightarrow> rbac_db \<Rightarrow> bool" where
  "safe_step claims db db1 \<equiv> delegates (tc_DeploymentID claims) (tc_Subject claims) (rb_dir db) (rb_dir db1) \<and> rbac_ok (rb_dir db1)"

lemma safe_same: "rbac_ok (rb_dir db) \<Longrightarrow> rb_dir db1 = rb_dir db \<Longrightarrow> safe_step claims db db1"
  by (simp add: delegates_same)

lemma createRole_safe:
  assumes "rbac_ok (rb_dir db)" "\<not> tc_Admin claims"
  shows "safe_step claims db (snd (createRole env claims body db))"
proof (cases "snd (createRole env claims body db) = db")
  case False
  then obtain name description ps i row where
    "authorizeDelegatedPermissions env claims ps db = None"
    "transaction env (CreateRole env (tc_DeploymentID claims) row ps db) = Inr (snd (createRole env claims body db))"
    by (auto simp: createRole_def split: option.splits if_splits sum.splits store_error.splits)
  from CreateRole_delegates [OF assms(1) transaction_Inr [OF this(2)]] authorizeDelegated_sound [OF this(1) assms(2)] show ?thesis by blast
qed (use assms safe_same in simp)

lemma updateRole_safe:
  assumes ok: "rbac_ok (rb_dir db)" and "\<not> tc_Admin claims" and en: "ru_Permissions input \<noteq> None \<or> ru_Enabled input \<noteq> Some True"
  shows "safe_step claims db (snd (updateRole env claims i (Some input) db))"
proof (cases "case ru_Permissions input of None \<Rightarrow> None | Some ps \<Rightarrow> authorizeDelegatedPermissions env claims ps db")
  case None
  let ?tx = "transaction env (bindS (GetRoleRecord env (tc_DeploymentID claims) i db) (\<lambda>before.
       bindS (UpdateRole env (tc_DeploymentID claims) i (ru_Name input) (ru_Description input) (ru_Enabled input) (ru_Permissions input) db) (\<lambda>(updated, db1).
       bindS (RecordAdminAudit env (tc_DeploymentID claims) (tc_Subject claims) ''update'' ''role'' i db1) (\<lambda>db2. Inr (updated, db2)))))"
  show ?thesis
  proof (cases ?tx)
    case (Inl e)
    then have "snd (updateRole env claims i (Some input) db) = db" by (cases e) (simp_all add: updateRole_def None)
    with ok safe_same show ?thesis by simp
  next
    case (Inr x)
    obtain rr db1 where x: "x = (rr, db1)" by (cases x)
    with transaction_Inr [OF Inr] obtain db2 where u: "UpdateRole env (tc_DeploymentID claims) i (ru_Name input) (ru_Description input) (ru_Enabled input) (ru_Permissions input) db = Inr (rr, db2)"
      and d: "rb_dir db1 = rb_dir db2" by (auto simp: bindS_Inr_iff dest!: RecordAdminAudit_dir)
    have "user_has_permission (rb_dir db) (tc_DeploymentID claims) (tc_Subject claims) p" if "ru_Permissions input = Some ps" "p \<in> set ps" for ps p
      using authorizeDelegated_sound [OF _ assms(2) that(2)] None that(1) by simp
    with UpdateRole_delegates [OF ok u _ en] d have "safe_step claims db db1" by auto
    moreover have "snd (updateRole env claims i (Some input) db) \<in> {db, db1}" by (simp add: updateRole_def None Inr x)
    ultimately show ?thesis using ok safe_same by auto
  qed
qed (use ok safe_same in \<open>simp add: updateRole_def\<close>)

lemma deleteRole_safe:
  assumes ok: "rbac_ok (rb_dir db)"
  shows "safe_step claims db (snd (deleteRole env claims i db))"
proof (cases "transaction env (bindS (GetRoleRecord env (tc_DeploymentID claims) i db) (\<lambda>existing.
       bindS (DeleteRole env (tc_DeploymentID claims) i db) (\<lambda>db1.
       RecordAdminAudit env (tc_DeploymentID claims) (tc_Subject claims) ''delete'' ''role'' i db1)))")
  case (Inl e)
  then have "snd (deleteRole env claims i db) = db" by (cases e) (simp_all add: deleteRole_def)
  with ok safe_same show ?thesis by simp
next
  case (Inr db1)
  from transaction_Inr [OF this] obtain db2 where "DeleteRole env (tc_DeploymentID claims) i db = Inr db2" "rb_dir db1 = rb_dir db2"
    by (auto simp: bindS_Inr_iff dest!: RecordAdminAudit_dir)
  with DeleteRole_delegates [OF ok this(1)] Inr show ?thesis by (simp add: deleteRole_def)
qed

lemma createTeam_safe:
  assumes ok: "rbac_ok (rb_dir db)"
  shows "safe_step claims db (snd (Rbac.createTeam env claims body db))"
proof -
  have tx: "safe_step claims db (snd (case transaction env (CreateTeam env (tc_DeploymentID claims) row defaults db) of
        Inl ErrUnknownRole \<Rightarrow> (Problem_of 400 ''INVALID_ROLE'', db) | Inl UniqueViolation \<Rightarrow> (Problem_of 409 ''TEAM_EXISTS'', db)
      | Inl _ \<Rightarrow> (Problem_of 500 ''INTERNAL_ERROR'', db) | Inr db1 \<Rightarrow> (Answered team, db1)))" for row defaults and team :: team_row
  proof (cases "transaction env (CreateTeam env (tc_DeploymentID claims) row defaults db)")
    case (Inl e)
    with safe_same [OF ok] show ?thesis by (cases e) simp_all
  next
    case (Inr db1)
    with CreateTeam_delegates [OF ok transaction_Inr [OF Inr]] show ?thesis by simp
  qed
  have parent: "safe_step claims db (snd (case x of Inl ErrNotFound \<Rightarrow> (a, db) | Inl _ \<Rightarrow> (b, db) | Inr y \<Rightarrow> f y))"
    if "\<And>y. safe_step claims db (snd (f y))" for x a b and f :: "team_row option \<Rightarrow> team_row answer \<times> rbac_db"
  proof (cases x)
    case (Inl e)
    with safe_same [OF ok] show ?thesis by (cases e) simp_all
  qed (use that in simp)
  show ?thesis
    unfolding Rbac.createTeam_def Let_def using safe_same [OF ok] parent tx
    by (simp split: option.split sum.split)
qed

lemma authorize_enable_sound:
  assumes "authorize_enable env claims i input db = None" "\<not> tc_Admin claims" "tu_Enabled input = Some True" "tu_DefaultRoleIDs input = None"
    "(tc_DeploymentID claims, i, r) \<in> set (d_team_default_roles (rb_dir db))" "role_exists (rb_dir db) (tc_DeploymentID claims) r"
    "(tc_DeploymentID claims, r, p) \<in> set (d_role_permissions (rb_dir db))"
  shows "user_has_permission (rb_dir db) (tc_DeploymentID claims) (tc_Subject claims) p"
proof -
  obtain t n defaults where g: "GetTeamRecord env (tc_DeploymentID claims) i db = Inr (t, n, defaults)"
    "defaults \<noteq> [] \<longrightarrow> authorizeRoleGrant env claims defaults db = None"
    using assms(1-4) by (auto simp: authorize_enable_def split: sum.splits store_error.splits if_splits)
  have "r \<in> set defaults" using GetTeamRecord_defaults [OF g(1)] assms(5) by blast
  with g(2) authorizeRoleGrant_sound [OF _ assms(2) _ assms(6,7)] show ?thesis by fastforce
qed

lemma authorizeTeamDefaults_sound:
  assumes "authorizeTeamDefaults env claims (Some ids) db = None" "\<not> tc_Admin claims" "r \<in> set ids"
    "role_exists (rb_dir db) (tc_DeploymentID claims) r" "(tc_DeploymentID claims, r, p) \<in> set (d_role_permissions (rb_dir db))"
  shows "user_has_permission (rb_dir db) (tc_DeploymentID claims) (tc_Subject claims) p"
  using assms(1,3) authorizeRoleGrant_sound [OF _ assms(2-5)] by (auto simp: authorizeTeamDefaults_def split: if_splits)

lemma updateTeam_auth:
  assumes auth: "authorizeTeamDefaults env claims (tu_DefaultRoleIDs input) db = None" "authorize_enable env claims i input db = None"
    and u: "UpdateTeam env (tc_DeploymentID claims) i (tu_Name input) (tu_Description input) (tu_Enabled input) (tu_DefaultRoleIDs input) db = Inr (rr, db2)"
    and "rbac_ok (rb_dir db)" "\<not> tc_Admin claims"
  shows "safe_step claims db db2"
proof (rule UpdateTeam_delegates [OF assms(4) u])
  fix ids r p
  assume "tu_DefaultRoleIDs input = Some ids" "r \<in> set ids" "role_exists (rb_dir db) (tc_DeploymentID claims) r"
    "(tc_DeploymentID claims, r, p) \<in> set (d_role_permissions (rb_dir db))"
  with authorizeTeamDefaults_sound [OF _ assms(5)] auth(1) show "user_has_permission (rb_dir db) (tc_DeploymentID claims) (tc_Subject claims) p" by metis
next
  fix r p
  assume "tu_DefaultRoleIDs input = None" "tu_Enabled input = Some True" "(tc_DeploymentID claims, i, r) \<in> set (d_team_default_roles (rb_dir db))"
    "role_exists (rb_dir db) (tc_DeploymentID claims) r" "(tc_DeploymentID claims, r, p) \<in> set (d_role_permissions (rb_dir db))"
  with authorize_enable_sound [OF auth(2) assms(5)] show "user_has_permission (rb_dir db) (tc_DeploymentID claims) (tc_Subject claims) p" by blast
qed

lemma updateTeam_safe:
  assumes ok: "rbac_ok (rb_dir db)" and "\<not> tc_Admin claims"
  shows "safe_step claims db (snd (updateTeam env claims i body db))"
proof (cases body)
  case (Some input)
  let ?tx = "transaction env (bindS (GetTeamRecord env (tc_DeploymentID claims) i db) (\<lambda>before.
       bindS (UpdateTeam env (tc_DeploymentID claims) i (tu_Name input) (tu_Description input) (tu_Enabled input) (tu_DefaultRoleIDs input) db) (\<lambda>(updated, db1).
       bindS (RecordAdminAudit env (tc_DeploymentID claims) (tc_Subject claims) ''update'' ''team'' i db1) (\<lambda>db2. Inr (updated, db2)))))"
  show ?thesis
  proof (cases "authorizeTeamDefaults env claims (tu_DefaultRoleIDs input) db = None \<and> authorize_enable env claims i input db = None")
    case True
    show ?thesis
    proof (cases ?tx)
      case (Inl e)
      then have "snd (updateTeam env claims i body db) = db" by (cases e) (simp_all add: updateTeam_def Some True)
      with ok safe_same show ?thesis by simp
    next
      case (Inr x)
      obtain rr db1 where x: "x = (rr, db1)" by (cases x)
      with transaction_Inr [OF Inr] obtain db2 where u: "UpdateTeam env (tc_DeploymentID claims) i (tu_Name input) (tu_Description input) (tu_Enabled input) (tu_DefaultRoleIDs input) db = Inr (rr, db2)"
        and d: "rb_dir db1 = rb_dir db2" by (auto simp: bindS_Inr_iff dest!: RecordAdminAudit_dir)
      from updateTeam_auth [OF conjunct1 [OF True] conjunct2 [OF True] u assms] d have "safe_step claims db db1" by simp
      moreover have "snd (updateTeam env claims i body db) \<in> {db, db1}" by (simp add: updateTeam_def Some True Inr x)
      ultimately show ?thesis using ok safe_same by auto
    qed
  next
    case False
    then have "snd (updateTeam env claims i body db) = db" by (auto simp: updateTeam_def Some split: option.split)
    with ok safe_same show ?thesis by simp
  qed
qed (use ok safe_same in \<open>simp add: updateTeam_def\<close>)

lemma deleteTeam_safe:
  assumes ok: "rbac_ok (rb_dir db)"
  shows "safe_step claims db (snd (Rbac.deleteTeam env claims i db))"
proof (cases "transaction env (bindS (GetTeamRecord env (tc_DeploymentID claims) i db) (\<lambda>existing.
       bindS (DeleteTeam env (tc_DeploymentID claims) i db) (\<lambda>db1.
       RecordAdminAudit env (tc_DeploymentID claims) (tc_Subject claims) ''delete'' ''team'' i db1)))")
  case (Inl e)
  then have "snd (Rbac.deleteTeam env claims i db) = db" by (cases e) (simp_all add: Rbac.deleteTeam_def)
  with ok safe_same show ?thesis by simp
next
  case (Inr db1)
  from transaction_Inr [OF this] obtain db2 where "DeleteTeam env (tc_DeploymentID claims) i db = Inr db2" "rb_dir db1 = rb_dir db2"
    by (auto simp: bindS_Inr_iff dest!: RecordAdminAudit_dir)
  with DeleteTeam_delegates [OF ok this(1)] Inr show ?thesis by (simp add: Rbac.deleteTeam_def)
qed

lemma replaceUserRBAC_safe:
  assumes "rbac_ok (rb_dir db)" "\<not> tc_Admin claims"
  shows "safe_step claims db (snd (replaceUserRBAC env claims user body db))"
proof (cases "snd (replaceUserRBAC env claims user body db) = db")
  case False
  then obtain rs ts db2 where auth: "authorizeRoleGrant env claims rs db = None" "authorizeTeamGrant env claims ts db = None"
    and u: "ReplaceUserRBAC env (tc_DeploymentID claims) user rs ts db = Inr db2" and d: "rb_dir (snd (replaceUserRBAC env claims user body db)) = rb_dir db2"
    by (auto simp: replaceUserRBAC_def bindS_Inr_iff split: option.splits if_splits sum.splits store_error.splits dest!: transaction_Inr RecordAdminAudit_dir)
  note may = may_bind_authorized [OF auth assms(2)]
  have "delegates (tc_DeploymentID claims) (tc_Subject claims) (rb_dir db) (rb_dir db2) \<and> rbac_ok (rb_dir db2)"
    by (rule ReplaceUserRBAC_delegates [OF assms(1) u]) (use may in \<open>unfold may_bind_def, blast\<close>)+
  with d show ?thesis by simp
qed (use assms safe_same in simp)

lemma same_roles_refl: "same_roles d d"
  by (simp add: same_roles_def)

lemma createUser_safe:
  assumes "rbac_ok (rb_dir db)" "\<not> tc_Admin claims"
  shows "safe_step claims db (snd (createUser env idkey salt claims body db))"
proof (cases "snd (createUser env idkey salt claims body db) = db")
  case False
  then obtain input params r where auth: "authorizeRoleGrant env claims (cr_RoleIDs input) db = None" "authorizeTeamGrant env claims (cr_TeamIDs input) db = None"
    and b: "buildCreateUserParams idkey salt (se_uuid env ''user'') input = Inr params"
    and c: "createUserWithAudit env claims (tc_DeploymentID claims) params db = Inr (r, snd (createUser env idkey salt claims body db))"
    by (auto simp: createUser_def split: option.splits if_splits sum.splits prod.splits)
  have "may_bind (rb_dir db) (tc_DeploymentID claims) (tc_Subject claims) (cu_RoleIDs params) (cu_TeamIDs params)"
    using may_bind_authorized [OF auth assms(2)] build_params_lists [OF b] by simp
  from createUserWithAudit_delegates [OF assms(1) c this same_roles_refl delegates_same] show ?thesis by simp
qed (use assms safe_same in simp)

lemma importUsers_safe:
  assumes "rbac_ok (rb_dir db)" "\<not> tc_Admin claims"
  shows "safe_step claims db (snd (importUsers env envs idkey salts claims body db))"
proof (cases "snd (importUsers env envs idkey salts claims body db) = db")
  case False
  let ?good = "\<lambda>users. filter (\<lambda>u. userMembershipProblem (cr_RoleIDs u) (cr_TeamIDs u) = []) users"
  from False obtain users n errs where auth: "authorizeRoleGrant env claims (concat (map cr_RoleIDs (?good users))) db = None"
      "authorizeTeamGrant env claims (concat (map cr_TeamIDs (?good users))) db = None"
    and l: "import_loop envs idkey salts claims (tc_DeploymentID claims) 0 users db = (n, errs, snd (importUsers env envs idkey salts claims body db))"
    by (auto simp: importUsers_def Let_def split: option.splits if_splits prod.splits)
  have "may_bind (rb_dir db) (tc_DeploymentID claims) (tc_Subject claims) (cr_RoleIDs item) (cr_TeamIDs item)"
    if "item \<in> set users" "userMembershipProblem (cr_RoleIDs item) (cr_TeamIDs item) = []" for item
    using may_bind_authorized [OF auth assms(2)] that unfolding may_bind_def by fastforce
  from import_loop_delegates [OF assms(1) same_roles_refl delegates_same this l] show ?thesis by simp
qed (use assms safe_same in simp)

lemma user_bindings_shrink_safe:
  assumes "rbac_ok (rb_dir db)" "d_roles (rb_dir db1) = d_roles (rb_dir db)" "d_teams (rb_dir db1) = d_teams (rb_dir db)"
    "d_role_permissions (rb_dir db1) = d_role_permissions (rb_dir db)" "d_team_default_roles (rb_dir db1) = d_team_default_roles (rb_dir db)"
    "set (d_user_role_bindings (rb_dir db1)) \<subseteq> set (d_user_role_bindings (rb_dir db))"
    "set (d_user_team_bindings (rb_dir db1)) \<subseteq> set (d_user_team_bindings (rb_dir db))"
  shows "safe_step claims db db1"
proof
  show "delegates (tc_DeploymentID claims) (tc_Subject claims) (rb_dir db) (rb_dir db1)"
    by (rule bindings_delegate [where rs = "[]" and ts = "[]"]) (use assms in auto)
  show "rbac_ok (rb_dir db1)"
    by (intro rbac_okI) (use rbac_okD [OF assms(1)] assms in \<open>auto simp: role_exists_def team_exists_def\<close>)
qed

lemma updateUser_safe:
  assumes ok: "rbac_ok (rb_dir db)"
  shows "safe_step claims db (fst (snd (updateUser env claims i body (db, sdb))))"
proof (cases body)
  case (Some input)
  let ?tx = "transaction env (bindS (GetUserRecord env (tc_DeploymentID claims) i db) (\<lambda>before.
       bindS (UpdateUser env (tc_DeploymentID claims) i (uu_DisplayName input) (uu_Email input) (uu_Status input) db) (\<lambda>(updated, db1).
       bindS (RecordAdminAudit env (tc_DeploymentID claims) (tc_Subject claims) ''update'' ''user'' i db1) (\<lambda>db2. Inr (updated, db2)))))"
  show ?thesis
  proof (cases ?tx)
    case (Inl e)
    then have "fst (snd (updateUser env claims i body (db, sdb))) = db" by (cases e) (simp_all add: updateUser_def Some)
    with ok safe_same show ?thesis by simp
  next
    case (Inr x)
    obtain rr db1 where x: "x = (rr, db1)" by (cases x)
    with transaction_Inr [OF Inr] obtain db2 where u: "UpdateUser env (tc_DeploymentID claims) i (uu_DisplayName input) (uu_Email input) (uu_Status input) db = Inr (rr, db2)"
      and d: "rb_dir db1 = rb_dir db2" by (auto simp: bindS_Inr_iff dest!: RecordAdminAudit_dir)
    have "safe_step claims db db2" by (rule user_bindings_shrink_safe [OF ok]) (use u in \<open>auto simp: UpdateUser_def Let_def bindS_Inr_iff\<close>)
    then have "safe_step claims db db1" using d by simp
    moreover have "fst (snd (updateUser env claims i body (db, sdb))) \<in> {db, db1}"
      by (auto simp: updateUser_def Some Inr x split: prod.split sum.split)
    ultimately show ?thesis using ok safe_same by auto
  qed
qed (use ok safe_same in \<open>simp add: updateUser_def\<close>)

lemma password_stored_safe:
  assumes ok: "rbac_ok (rb_dir db)"
  shows "safe_step claims db (fst (snd (case transaction env (bindS (UpdatePasswordDB env (tc_DeploymentID claims) i hash change db) (\<lambda>db1.
         RecordAdminAudit env (tc_DeploymentID claims) (tc_Subject claims) ''reset_password'' ''user'' i db1)) of
       Inl _ \<Rightarrow> (Problem_of 500 ''INTERNAL_ERROR'', db, sdb)
     | Inr db1 \<Rightarrow> (case RevokeUserSessionSet env i sdb of
           (Inl _, sdb1) \<Rightarrow> (Problem_of 500 ''INTERNAL_ERROR'', db1, sdb1) | (Inr _, sdb1) \<Rightarrow> (Answered (), db1, sdb1)))))"
proof (cases "transaction env (bindS (UpdatePasswordDB env (tc_DeploymentID claims) i hash change db) (\<lambda>db1.
         RecordAdminAudit env (tc_DeploymentID claims) (tc_Subject claims) ''reset_password'' ''user'' i db1))")
  case (Inr db1)
  from transaction_Inr [OF this] obtain db2 where u: "UpdatePasswordDB env (tc_DeploymentID claims) i hash change db = Inr db2"
    and d: "rb_dir db1 = rb_dir db2" by (auto simp: bindS_Inr_iff dest!: RecordAdminAudit_dir)
  have "safe_step claims db db2" by (rule user_bindings_shrink_safe [OF ok]) (use u in \<open>auto simp: UpdatePasswordDB_def bindS_Inr_iff split: option.splits\<close>)
  then show ?thesis using d Inr by (simp split: prod.split sum.split)
qed (use ok safe_same in simp)

lemma resetUserPassword_safe:
  assumes ok: "rbac_ok (rb_dir db)"
  shows "safe_step claims db (fst (snd (resetUserPassword env idkey salt claims i body (db, sdb))))"
proof (cases body)
  case (Some input)
  obtain password require where i: "input = (password, require)" by (cases input)
  show ?thesis
    by (cases "HashPassword idkey salt password") (simp_all add: resetUserPassword_def Some i Let_def safe_same [OF ok] password_stored_safe [OF ok])
qed (simp add: resetUserPassword_def safe_same [OF ok])

lemma deleteUser_safe:
  assumes ok: "rbac_ok (rb_dir db)"
  shows "safe_step claims db (fst (snd (deleteUser env claims i (db, sdb))))"
proof (cases "transaction env (bindS (GetUserRecord env (tc_DeploymentID claims) i db) (\<lambda>removed.
       bindS (DeleteUser env (tc_DeploymentID claims) i (db, sdb)) (\<lambda>(db1, sdb1).
       bindS (RecordAdminAudit env (tc_DeploymentID claims) (tc_Subject claims) ''delete'' ''user'' i db1) (\<lambda>db2. Inr (db2, sdb1)))))")
  case (Inl e)
  then have "fst (snd (deleteUser env claims i (db, sdb))) = db"
    by (cases "GetUser env (tc_DeploymentID claims) i db"; cases "projl (GetUser env (tc_DeploymentID claims) i db)") (simp_all add: deleteUser_def)
  with ok safe_same show ?thesis by simp
next
  case (Inr x)
  obtain db1 sdb1 where x: "x = (db1, sdb1)" by (cases x)
  with transaction_Inr [OF Inr] obtain db2 where u: "DeleteUser env (tc_DeploymentID claims) i (db, sdb) = Inr (db2, sdb1)"
    and d: "rb_dir db1 = rb_dir db2" by (auto simp: bindS_Inr_iff dest!: RecordAdminAudit_dir)
  have "safe_step claims db db2" by (rule user_bindings_shrink_safe [OF ok]) (use u in \<open>auto simp: DeleteUser_def Let_def bindS_Inr_iff\<close>)
  then have "safe_step claims db db1" using d by simp
  moreover have "fst (snd (deleteUser env claims i (db, sdb))) \<in> {db, db1}"
    using Inr x by (cases "GetUser env (tc_DeploymentID claims) i db"; cases "projl (GetUser env (tc_DeploymentID claims) i db)") (simp_all add: deleteUser_def)
  ultimately show ?thesis using ok safe_same by auto
qed

section \<open>No escalation\<close>

lemma delegated_step_safe:
  assumes step: "delegated_step C db db1" and ok: "rbac_ok (rb_dir db)"
  shows "rbac_ok (rb_dir db1) \<and> (\<exists>dep caller. (dep, caller) \<in> C \<and> delegates dep caller (rb_dir db) (rb_dir db1))"
proof -
  from step have "\<exists>claims. (tc_DeploymentID claims, tc_Subject claims) \<in> C \<and> safe_step claims db db1"
  proof cases
    case (create_role claims)
    with createRole_safe [OF ok] show ?thesis by metis
  next
    case (update_role claims)
    with updateRole_safe [OF ok] show ?thesis by metis
  next
    case (delete_role claims)
    with deleteRole_safe [OF ok] show ?thesis by metis
  next
    case (create_team claims)
    with createTeam_safe [OF ok] show ?thesis by metis
  next
    case (update_team claims)
    with updateTeam_safe [OF ok] show ?thesis by metis
  next
    case (delete_team claims)
    with deleteTeam_safe [OF ok] show ?thesis by metis
  next
    case (replace_rbac claims)
    with replaceUserRBAC_safe [OF ok] show ?thesis by metis
  next
    case (create_user claims)
    with createUser_safe [OF ok] show ?thesis by metis
  next
    case (import_users claims)
    with importUsers_safe [OF ok] show ?thesis by metis
  next
    case (update_user claims)
    with updateUser_safe [OF ok] show ?thesis by metis
  next
    case (reset_password claims)
    with resetUserPassword_safe [OF ok] show ?thesis by metis
  next
    case (delete_user claims)
    with deleteUser_safe [OF ok] show ?thesis by metis
  qed
  then show ?thesis by blast
qed

text \<open>A system whose steps are taken by callers from a set \<open>C\<close>, each entry a domain and a subject. No step
  hands out what neither the receiver nor a caller of that domain held, so no run does.\<close>

locale delegated_system =
  fixes step :: "('d \<times> 'u) set \<Rightarrow> 's \<Rightarrow> 's \<Rightarrow> bool" and ok :: "'s \<Rightarrow> bool" and holds :: "'s \<Rightarrow> 'd \<Rightarrow> 'u \<Rightarrow> 'p \<Rightarrow> bool"
  assumes step_ok: "step C s s1 \<Longrightarrow> ok s \<Longrightarrow> ok s1"
    and step_from: "step C s s1 \<Longrightarrow> ok s \<Longrightarrow> holds s1 d u p \<Longrightarrow> holds s d u p \<or> (\<exists>c. (d, c) \<in> C \<and> holds s d c p)"
begin

lemma run_ok: "(step C)\<^sup>*\<^sup>* s s1 \<Longrightarrow> ok s \<Longrightarrow> ok s1"
  by (induction rule: rtranclp_induct) (auto dest: step_ok)

lemma run_from: "(step C)\<^sup>*\<^sup>* s s1 \<Longrightarrow> ok s \<Longrightarrow> holds s1 d u p \<Longrightarrow> holds s d u p \<or> (\<exists>c. (d, c) \<in> C \<and> holds s d c p)"
proof (induction arbitrary: u p rule: rtranclp_induct)
  case (step s1 s2)
  from step_from [OF step.hyps(2) run_ok [OF step.hyps(1) step.prems(1)] step.prems(2)] step.IH [OF step.prems(1)] show ?case by blast
qed simp

end

interpretation rbac: delegated_system delegated_step "\<lambda>db. rbac_ok (rb_dir db)" "\<lambda>db. user_has_permission (rb_dir db)"
  by unfold_locales (use delegated_step_safe in \<open>unfold delegates_def, blast\<close>)+

section \<open>Locking a user out\<close>

definition locked_out :: "session_db \<Rightarrow> string \<Rightarrow> bool" where
  "locked_out sdb user \<longleftrightarrow>
     (\<forall>k x. sd_sessions sdb k = Some x \<longrightarrow> s_UserID x = user \<longrightarrow> s_RevokedAt x \<noteq> None
        \<and> (\<forall>h t. sd_tokens sdb h = Some t \<longrightarrow> rt_SessionID t = k \<longrightarrow> rt_RevokedAt t \<noteq> None))"

lemma RevokeUserSessionSet_locks:
  assumes "RevokeUserSessionSet env user sdb = (Inr x, sdb1)" "se_ok env ''database''"
  shows "locked_out sdb1 user"
proof -
  have sessions: "sd_sessions sdb1 = (\<lambda>k. map_option (\<lambda>s. if s_UserID s = user \<and> s_RevokedAt s = None
        then revoke_session (se_clock env ''revoke session'') s else s) (sd_sessions sdb k))"
    and tokens: "sd_tokens sdb1 = (\<lambda>h. map_option (\<lambda>t. if (case sd_sessions sdb (rt_SessionID t) of None \<Rightarrow> False | Some s \<Rightarrow> s_UserID s = user)
        \<and> rt_RevokedAt t = None then revoke_token (se_clock env ''revoke token'') t else t) (sd_tokens sdb h))"
    using assms by (auto simp: RevokeUserSessionSet_def Let_def split: if_splits)
  show ?thesis unfolding locked_out_def
  proof (intro allI impI conjI)
    fix k x assume x: "sd_sessions sdb1 k = Some x" "s_UserID x = user"
    from x obtain y where y: "sd_sessions sdb k = Some y" "s_UserID y = user"
      by (auto simp: sessions revoke_session_def split: if_splits)
    show "s_RevokedAt x \<noteq> None" using x y by (auto simp: sessions revoke_session_def split: if_splits)
    fix h t assume t: "sd_tokens sdb1 h = Some t" "rt_SessionID t = k"
    from t(1) obtain t0 where "sd_tokens sdb h = Some t0" by (auto simp: tokens)
    with t y show "rt_RevokedAt t \<noteq> None" by (auto simp: tokens revoke_token_def split: if_splits)
  qed
qed

lemma GetUserRecord_ID: "GetUserRecord env dep i db = Inr r \<Longrightarrow> u_ID (fst r) = i"
  by (auto simp: GetUserRecord_def GetUser_def find_user_def bindS_Inr_iff dest: find_SomeD split: option.splits)

lemma DeleteUser_locks: "DeleteUser env dep i (db, sdb) = Inr (db1, sdb1) \<Longrightarrow> locked_out sdb1 i"
  by (auto simp: DeleteUser_def Let_def bindS_Inr_iff locked_out_def split: option.splits if_splits)

lemma updateUser_locks:
  assumes "updateUser env claims i body (db, sdb) = (Answered u, db1, sdb1)" "u_Status (fst u) = ''disabled''" "se_ok env ''database''"
  shows "locked_out sdb1 i"
proof -
  obtain input where i: "body = Some input" using assms(1) by (auto simp: updateUser_def split: option.splits)
  let ?tx = "transaction env (bindS (GetUserRecord env (tc_DeploymentID claims) i db) (\<lambda>before.
       bindS (UpdateUser env (tc_DeploymentID claims) i (uu_DisplayName input) (uu_Email input) (uu_Status input) db) (\<lambda>(updated, db1).
       bindS (RecordAdminAudit env (tc_DeploymentID claims) (tc_Subject claims) ''update'' ''user'' i db1) (\<lambda>db2. Inr (updated, db2)))))"
  show ?thesis
  proof (cases ?tx)
    case (Inl e)
    then show ?thesis using assms(1) by (cases e) (simp_all add: updateUser_def i split: if_splits)
  next
    case (Inr x)
    obtain rr db2 where x: "x = (rr, db2)" by (cases x)
    then have "GetUserRecord env (tc_DeploymentID claims) i (SOME db3. GetUserRecord env (tc_DeploymentID claims) i db3 = Inr rr) = Inr rr"
      using transaction_Inr [OF Inr] by (auto simp: UpdateUser_def Let_def bindS_Inr_iff intro: someI)
    then have "u_ID (fst rr) = i" by (rule GetUserRecord_ID)
    then show ?thesis using assms Inr x RevokeUserSessionSet_locks [OF _ assms(3)]
      by (auto simp: updateUser_def i split: if_splits prod.splits sum.splits)
  qed
qed

lemma resetUserPassword_locks:
  assumes "resetUserPassword env idkey salt claims i body (db, sdb) = (Answered (), db1, sdb1)" "se_ok env ''database''"
  shows "locked_out sdb1 i"
proof -
  obtain password require where b: "body = Some (password, require)" using assms(1) by (auto simp: resetUserPassword_def split: option.splits)
  have "\<exists>x. RevokeUserSessionSet env i sdb = (Inr x, sdb1)"
    using assms(1) unfolding resetUserPassword_def b Let_def
    by (simp split: if_splits sum.splits prod.splits)
  with RevokeUserSessionSet_locks assms(2) show ?thesis by blast
qed

lemma deleteUser_locks:
  assumes "deleteUser env claims i (db, sdb) = (Answered (), db1, sdb1)"
  shows "locked_out sdb1 i"
proof (cases "GetUser env (tc_DeploymentID claims) i db")
  case (Inl e)
  then show ?thesis using assms by (cases e) (simp_all add: deleteUser_def)
next
  case (Inr user)
  then have "transaction env (bindS (GetUserRecord env (tc_DeploymentID claims) i db) (\<lambda>removed.
       bindS (DeleteUser env (tc_DeploymentID claims) i (db, sdb)) (\<lambda>(db1, sdb1).
       bindS (RecordAdminAudit env (tc_DeploymentID claims) (tc_Subject claims) ''delete'' ''user'' i db1) (\<lambda>db2. Inr (db2, sdb1))))) = Inr (db1, sdb1)"
    using assms by (simp add: deleteUser_def split: if_splits sum.splits)
  from transaction_Inr [OF this] obtain db2 where "DeleteUser env (tc_DeploymentID claims) i (db, sdb) = Inr (db2, sdb1)"
    by (auto simp: bindS_Inr_iff)
  then show ?thesis by (rule DeleteUser_locks)
qed

section \<open>A concrete directory\<close>

definition operator_db :: "bool \<Rightarrow> rbac_db" where
  "operator_db enabled = \<lparr> rb_dir = (demo_directory ''roles.write'') \<lparr>
       d_users := [demo_user, demo_user \<lparr> u_ID := ''eve'', u_Username := ''eve'' \<rparr>],
       d_roles := d_roles (demo_directory ''roles.write'') @ [\<lparr> role_DeploymentID = ''acme'', role_ID = ''auditor'', role_Enabled = enabled,
         role_Name = ''Auditor'', role_Description = [], role_BuiltIn = False \<rparr>],
       d_user_role_bindings := [(''acme'', ''bob'', ''auditor'')],
       d_role_permissions := [(''acme'', ''viewer'', ''roles.write''), (''acme'', ''auditor'', ''audit.read'')] \<rparr>,
     rb_permissions = [''audit.read'', ''roles.write'', ''users.write''], rb_grants = [], rb_homes = [], rb_audit = [] \<rparr>"

definition operator_env :: session_env where
  "operator_env = demo_session_env ''acme'' ''human'' (\<lambda>_ _. None)"

definition operator :: Claims where
  "operator = demo_token ''aep'' ''aep-control'' False"

lemma operator_simps [simp]: "se_ok operator_env q" "\<not> tc_Admin operator" "tc_DeploymentID operator = ''acme''" "tc_Subject operator = ''bob''"
  by (simp_all add: operator_env_def demo_session_env_def operator_def demo_token_def)

lemma operator_db_ok: "rbac_ok (rb_dir (operator_db enabled))"
  by (cases enabled; code_simp)

lemma operator_roles: "ListRolesPage operator_env ''acme'' [] 0 (operator_db b) = Inr
   [(\<lparr> role_DeploymentID = ''acme'', role_ID = ''auditor'', role_Enabled = b, role_Name = ''Auditor'', role_Description = [], role_BuiltIn = False \<rparr>, [''audit.read'']),
    (\<lparr> role_DeploymentID = ''acme'', role_ID = ''viewer'', role_Enabled = True, role_Name = ''Viewer'', role_Description = [], role_BuiltIn = False \<rparr>, [''roles.write''])]"
  by (simp add: ListRolesPage_def operator_db_def demo_directory_def ensure_def role_permission_ids_def Let_def)

lemma operator_auditor: "GetRoleRecord operator_env ''acme'' ''auditor'' (operator_db b) = Inr
   (\<lparr> role_DeploymentID = ''acme'', role_ID = ''auditor'', role_Enabled = b, role_Name = ''Auditor'', role_Description = [], role_BuiltIn = False \<rparr>, [''audit.read''])"
  by (simp add: GetRoleRecord_def take_role_def operator_roles ensure_def) (simp add: find_role_def operator_db_def demo_directory_def)

lemma operator_viewer: "GetRoleRecord operator_env ''acme'' ''viewer'' (operator_db b) = Inr
   (\<lparr> role_DeploymentID = ''acme'', role_ID = ''viewer'', role_Enabled = True, role_Name = ''Viewer'', role_Description = [], role_BuiltIn = False \<rparr>, [''roles.write''])"
  by (simp add: GetRoleRecord_def take_role_def operator_roles ensure_def) (simp add: find_role_def operator_db_def demo_directory_def)

lemma operator_permissions: "set (UserPermissionIDs (rb_dir (operator_db b)) ''acme'' ''bob'') = (if b then {''roles.write'', ''audit.read''} else {''roles.write''})"
  by (auto simp: UserPermissionIDs_def operator_db_def demo_directory_def enabled_role_def user_effective_roles_def enabled_team_def)

lemma operator_grants: "authorizeRoleGrant operator_env operator [''auditor''] (operator_db True) = None"
   "authorizeRoleGrant operator_env operator [''viewer''] (operator_db True) = None"
  by (simp_all add: authorizeRoleGrant_def operator_auditor operator_viewer roleGrantAllowed_def permissionSubset_def operator_permissions)

lemma operator_team: "authorizeTeamGrant operator_env operator [''ops''] (operator_db True) = None"
proof -
  have "GetTeamRecord operator_env ''acme'' ''ops'' (operator_db True) = Inr (\<lparr> team_DeploymentID = ''acme'', team_ID = ''ops'', team_ParentTeamID = None, team_Enabled = True,
       team_Name = ''Ops'', team_Description = [], team_BuiltIn = False, team_Path = ''/ops'', team_Depth = 0 \<rparr>, 1, [''viewer''])"
    by (simp add: GetTeamRecord_def ListTeamsPage_def operator_db_def demo_directory_def ensure_def team_record_of_def Let_def)
  moreover have "''ops'' \<in> set (UserTeamIDs (rb_dir (operator_db True)) ''acme'' ''bob'')"
    by (simp add: UserTeamIDs_def operator_db_def demo_directory_def)
  ultimately show ?thesis by (simp add: authorizeTeamGrant_def teamGrantAllowed_def operator_grants(2))
qed

lemma operator_binds:
  "user_has_permission (rb_dir (snd (replaceUserRBAC operator_env operator ''eve'' (Some ([''auditor''], [''ops''])) (operator_db True)))) ''acme'' ''eve'' ''audit.read''"
proof -
  let ?db = "operator_db True"
  have ids: "validRBACID ''auditor''" "validRBACID ''ops''" by code_simp+
  have "GetUserRecord operator_env ''acme'' ''eve'' ?db = Inr (demo_user \<lparr> u_ID := ''eve'', u_Username := ''eve'' \<rparr>, [], [])"
    by (simp add: GetUserRecord_def GetUser_def find_user_def UserRoleIDs_def UserTeamIDs_def operator_db_def demo_directory_def demo_user_def ensure_def)
  moreover have "ReplaceUserRBAC operator_env ''acme'' ''eve'' [''auditor''] [''ops''] ?db = Inr (?db \<lparr> rb_dir := (rb_dir ?db) \<lparr>
      d_user_role_bindings := [(''acme'', ''bob'', ''auditor''), (''acme'', ''eve'', ''auditor'')],
      d_user_team_bindings := [(''acme'', ''bob'', ''ops''), (''acme'', ''eve'', ''ops'')] \<rparr> \<rparr>)"
    by (simp add: ReplaceUserRBAC_def uniqueStrings_def operator_db_def demo_directory_def demo_user_def ensure_def)
  ultimately have "rb_dir (snd (replaceUserRBAC operator_env operator ''eve'' (Some ([''auditor''], [''ops''])) ?db)) = (rb_dir ?db) \<lparr>
      d_user_role_bindings := [(''acme'', ''bob'', ''auditor''), (''acme'', ''eve'', ''auditor'')],
      d_user_team_bindings := [(''acme'', ''bob'', ''ops''), (''acme'', ''eve'', ''ops'')] \<rparr>"
    by (simp add: replaceUserRBAC_def operator_grants(1) operator_team ids transaction_def ensure_def RecordAdminAudit_def)
  moreover have "user_has_permission ((rb_dir ?db) \<lparr>
      d_user_role_bindings := [(''acme'', ''bob'', ''auditor''), (''acme'', ''eve'', ''auditor'')],
      d_user_team_bindings := [(''acme'', ''bob'', ''ops''), (''acme'', ''eve'', ''ops'')] \<rparr>) ''acme'' ''eve'' ''audit.read''"
    by (simp add: user_has_permission_def user_effective_roles_def enabled_role_def operator_db_def demo_directory_def)
  ultimately show ?thesis by simp
qed

definition eve_sessions :: session_db where
  "eve_sessions = \<lparr> sd_sessions = [''s9'' \<mapsto> demo_session \<lparr> s_UserID := ''eve'' \<rparr>], sd_tokens = (\<lambda>_. None), sd_deliveries = [] \<rparr>"

lemma eve_deleted: "fst (deleteUser operator_env operator ''eve'' (operator_db True, eve_sessions)) = Answered ()"
proof -
  have u: "GetUser operator_env ''acme'' ''eve'' (operator_db True) = Inr (demo_user \<lparr> u_ID := ''eve'', u_Username := ''eve'' \<rparr>)"
    by (simp add: GetUser_def find_user_def operator_db_def demo_user_def ensure_def)
  have n: "u_Username (demo_user \<lparr> u_ID := ''eve'', u_Username := ''eve'' \<rparr>) \<noteq> ''admin''" by simp
  have e: "list_ex (\<lambda>u. u_DeploymentID u = ''acme'' \<and> u_ID u = ''eve'') (d_users (rb_dir (operator_db True)))"
    by (simp add: operator_db_def demo_user_def)
  show ?thesis using n
    by (simp add: deleteUser_def u GetUserRecord_def transaction_def ensure_def DeleteUser_def RecordAdminAudit_def Let_def e)
qed

section \<open>Properties\<close>



text \<open>
  (C20) When disabling a user, resetting a password or deleting a user is answered with success, every session
  of that user and every refresh token of such a session is revoked or gone.
\<close>

theorem lockout_ends_sessions:
  assumes "updateUser env claims i body (db, sdb) = (Answered u, db1, sdb1) \<and> u_Status (fst u) = ''disabled''
     \<or> resetUserPassword env idkey salt claims i reset (db, sdb) = (Answered (), db1, sdb1)
     \<or> deleteUser env claims i (db, sdb) = (Answered (), db1, sdb1)" "se_ok env ''database''"
  shows "locked_out sdb1 i"
  using assms(1)
proof (elim disjE)
  assume "updateUser env claims i body (db, sdb) = (Answered u, db1, sdb1) \<and> u_Status (fst u) = ''disabled''"
  from conjunct1 [OF this] conjunct2 [OF this] assms(2) show ?thesis by (rule updateUser_locks)
next
  assume "resetUserPassword env idkey salt claims i reset (db, sdb) = (Answered (), db1, sdb1)"
  then show ?thesis using assms(2) by (rule resetUserPassword_locks)
next
  assume "deleteUser env claims i (db, sdb) = (Answered (), db1, sdb1)"
  then show ?thesis by (rule deleteUser_locks)
qed

theorem lockout_ends_sessions_witness:
  "locked_out (snd (snd (deleteUser operator_env operator ''eve'' (operator_db True, eve_sessions)))) ''eve''
   \<and> \<not> locked_out eve_sessions ''eve''"
proof
  have "deleteUser operator_env operator ''eve'' (operator_db True, eve_sessions) =
    (Answered (), fst (snd (deleteUser operator_env operator ''eve'' (operator_db True, eve_sessions))),
      snd (snd (deleteUser operator_env operator ''eve'' (operator_db True, eve_sessions))))"
    using eve_deleted by (simp add: prod_eq_iff)
  from lockout_ends_sessions [OF disjI2 [OF disjI2 [OF this]]] 
  show "locked_out (snd (snd (deleteUser operator_env operator ''eve'' (operator_db True, eve_sessions)))) ''eve''" by simp
  show "\<not> locked_out eve_sessions ''eve''" by (simp add: locked_out_def eve_sessions_def demo_session_def)
qed


end
