(* ===== verification/Gateway_Limits.thy ===== *)
theory Gateway_Limits
  imports Sessions
begin

text \<open>
  Administration and publication of gateway limits (\<^verbatim>\<open>internal/httpapi/gateway_limits.go\<close>,
  \<^verbatim>\<open>internal/repository/gateway_limits.go\<close>) for one deployment: every statement of the handlers names
  the deployment, so its rows are a table of their own. Writers present the version they saw; deleting
  keeps the row as a disabled tombstone.
\<close>

section \<open>Tables\<close>

record limit_row =
  lr_Version :: int
  lr_Configuration :: Configuration
  lr_Deleted :: bool
  lr_UpdatedAt :: time

record publication =
  pb_Revision :: string
  pb_Items :: "Limit list"
  pb_PublishedAt :: time
  pb_State :: string
  pb_ObservedRevision :: "string option"
  pb_AppliedAt :: "time option"

record limit_db =
  ld_rows :: "(string \<times> limit_row) list"
  ld_publication :: "publication option"
  ld_audit :: "(string \<times> string \<times> string) list"

record limit_env =
  le_directory :: directory
  le_tenant :: string
  le_actor :: string
  le_now :: time
  le_ok :: "string \<Rightarrow> bool"
  le_uses_operator :: bool
  le_marshal :: "Limit list \<Rightarrow> string"

definition limit_of :: "string \<times> limit_row \<Rightarrow> Limit" where
  "limit_of = (\<lambda>(i, r). \<lparr> lim_ID = i, lim_Version = lr_Version r, lim_Configuration = lr_Configuration r, lim_UpdatedAt = lr_UpdatedAt r \<rparr>)"

definition GatewayLimits :: "bool \<Rightarrow> (string \<times> limit_row) list \<Rightarrow> Limit list" where
  "GatewayLimits includeDeleted rows =
     (let records = sort_key fst (if includeDeleted then rows else filter (\<lambda>(_, r). \<not> lr_Deleted r) rows) in
      map (\<lambda>(i, r). limit_of (i, if lr_Deleted r then r \<lparr> lr_Configuration := (lr_Configuration r) \<lparr> cfg_Enabled := False \<rparr> \<rparr> else r)) records)"

section \<open>Handlers\<close>

text \<open>An empty identifier lists all rules.\<close>

definition gatewayLimits :: "limit_env \<Rightarrow> string \<Rightarrow> limit_db \<Rightarrow> (Limit list) answer" where
  "gatewayLimits env i db =
     (if \<not> le_ok env ''limits'' then Problem_of 500 ''INTERNAL_ERROR''
      else
       (let items = GatewayLimits False (ld_rows db) in
        if i \<noteq> [] then
         (case find (\<lambda>item. lim_ID item = i) items of
            Some item \<Rightarrow> Answered [item]
          | None \<Rightarrow> Problem_of 404 ''RESOURCE_NOT_FOUND'')
        else Answered items))"

definition subject_exists :: "limit_env \<Rightarrow> string \<Rightarrow> string \<Rightarrow> bool" where
  "subject_exists env kind target =
     (let d = le_directory env; tenant = le_tenant env in
      if kind = ''user'' then list_ex (\<lambda>u. u_DeploymentID u = tenant \<and> u_ID u = target) (d_users d)
      else if kind = ''team'' then list_ex (\<lambda>t. team_DeploymentID t = tenant \<and> team_ID t = target) (d_teams d)
      else if kind = ''role'' then list_ex (\<lambda>r. role_DeploymentID r = tenant \<and> role_ID r = target) (d_roles d)
      else list_ex (\<lambda>m. m_DeploymentID m = tenant \<and> m_ID m = target) (d_models d))"

fun subject_loop :: "limit_env \<Rightarrow> (string \<times> string option) list \<Rightarrow> (int \<times> string) option" where
  "subject_loop env [] = None"
| "subject_loop env ((kind, target) # rest) =
     (case target of
        None \<Rightarrow> subject_loop env rest
      | Some t \<Rightarrow>
          if \<not> le_ok env (''exists '' @ kind) then Some (500, ''INTERNAL_ERROR'')
          else if \<not> subject_exists env kind t then Some (422, ''GATEWAY_SUBJECT_NOT_FOUND'')
          else subject_loop env rest)"

definition put_row :: "limit_env \<Rightarrow> string \<Rightarrow> Configuration \<Rightarrow> (string \<times> limit_row) list \<Rightarrow> limit_row option" where
  "put_row env i cfg rows =
     (if cfg_ExpectedVersion cfg = 0 then
       (case map_of rows i of
          Some _ \<Rightarrow> None
        | None \<Rightarrow> Some \<lparr> lr_Version = 1, lr_Configuration = cfg, lr_Deleted = False, lr_UpdatedAt = le_now env \<rparr>)
      else
       (case map_of rows i of
          None \<Rightarrow> None
        | Some r \<Rightarrow>
            if lr_Version r = cfg_ExpectedVersion cfg \<and> \<not> lr_Deleted r
            then Some (r \<lparr> lr_Version := lr_Version r + 1, lr_Configuration := cfg, lr_UpdatedAt := le_now env \<rparr>)
            else None))"

definition live_row :: "(string \<times> limit_row) list \<Rightarrow> string \<Rightarrow> bool" where
  "live_row rows i = (case map_of rows i of None \<Rightarrow> False | Some r \<Rightarrow> \<not> lr_Deleted r)"

definition putGatewayLimit :: "limit_env \<Rightarrow> string \<Rightarrow> Configuration option \<Rightarrow> limit_db \<Rightarrow> Limit answer \<times> limit_db" where
  "putGatewayLimit env i body db =
     (case body of
        None \<Rightarrow> (Problem_of 400 ''INVALID_REQUEST'', db)
      | Some cfg \<Rightarrow>
          if \<not> ValidID i \<or> \<not> Configuration_Valid cfg then (Problem_of 400 ''INVALID_GATEWAY_RULE'', db)
          else if \<not> le_ok env ''begin'' \<or> \<not> le_ok env ''lock'' then (Problem_of 500 ''INTERNAL_ERROR'', db)
          else case subject_loop env [(cfg_ScopeType cfg, cfg_ScopeID cfg), (''model'', cfg_ModelID cfg)] of
            Some (status, code) \<Rightarrow> (Problem_of status code, db)
          | None \<Rightarrow>
              if cfg_ExpectedVersion cfg = 0 \<and> \<not> le_ok env ''count'' then (Problem_of 500 ''INTERNAL_ERROR'', db)
              else if cfg_ExpectedVersion cfg = 0 \<and> length (ld_rows db) \<ge> 100 then (Problem_of 409 ''GATEWAY_RULE_LIMIT'', db)
              else if \<not> le_ok env ''write'' then (Problem_of 500 ''INTERNAL_ERROR'', db)
              else case put_row env i cfg (ld_rows db) of
                None \<Rightarrow> (Problem_of 409 ''GATEWAY_RULE_VERSION_CONFLICT'', db)
              | Some r \<Rightarrow>
                 (let action = (if live_row (ld_rows db) i then ''update'' else ''create'') in
                  if \<not> le_ok env ''audit'' \<or> \<not> le_ok env ''commit'' then (Problem_of 500 ''INTERNAL_ERROR'', db)
                  else (Answered \<lparr> lim_ID = i, lim_Version = lr_Version r, lim_Configuration = cfg, lim_UpdatedAt = lr_UpdatedAt r \<rparr>,
                        db \<lparr> ld_rows := AList.update i r (ld_rows db), ld_audit := ld_audit db @ [(le_actor env, action, i)] \<rparr>)))"

text \<open>\<open>version\<close> is the query parameter \<^verbatim>\<open>expectedVersion\<close> read as a 64-bit integer.\<close>

definition deleteGatewayLimit :: "limit_env \<Rightarrow> string \<Rightarrow> int option \<Rightarrow> limit_db \<Rightarrow> unit answer \<times> limit_db" where
  "deleteGatewayLimit env i version db =
     (case version of
        None \<Rightarrow> (Problem_of 400 ''INVALID_GATEWAY_RULE'', db)
      | Some v \<Rightarrow>
          if v < 1 then (Problem_of 400 ''INVALID_GATEWAY_RULE'', db)
          else if \<not> le_ok env ''begin'' \<or> \<not> le_ok env ''lock'' \<or> \<not> le_ok env ''write'' then (Problem_of 500 ''INTERNAL_ERROR'', db)
          else case map_of (ld_rows db) i of
            None \<Rightarrow> (Problem_of 409 ''GATEWAY_RULE_VERSION_CONFLICT'', db)
          | Some r \<Rightarrow>
              if lr_Version r \<noteq> v \<or> lr_Deleted r then (Problem_of 409 ''GATEWAY_RULE_VERSION_CONFLICT'', db)
              else if \<not> le_ok env ''audit'' \<or> \<not> le_ok env ''commit'' then (Problem_of 500 ''INTERNAL_ERROR'', db)
              else (Answered (),
                    db \<lparr> ld_rows := AList.update i (r \<lparr> lr_Deleted := True, lr_Version := lr_Version r + 1,
                             lr_Configuration := (lr_Configuration r) \<lparr> cfg_Enabled := False \<rparr>, lr_UpdatedAt := le_now env \<rparr>) (ld_rows db),
                         ld_audit := ld_audit db @ [(le_actor env, ''delete'', i)] \<rparr>))"

definition publishGatewayLimits :: "limit_env \<Rightarrow> limit_db \<Rightarrow> publication answer \<times> limit_db" where
  "publishGatewayLimits env db =
     (if le_uses_operator env then (Problem_of 503 ''LEGACY_GATEWAY_PUBLICATION_DISABLED'', db)
      else if \<not> le_ok env ''begin'' \<or> \<not> le_ok env ''lock'' \<or> \<not> le_ok env ''limits'' then (Problem_of 500 ''INTERNAL_ERROR'', db)
      else
       (let items = map limit_of (sort_key fst (ld_rows db));
            revision = Revision (le_marshal env) items;
            p = (case ld_publication db of
                   None \<Rightarrow> \<lparr> pb_Revision = revision, pb_Items = items, pb_PublishedAt = le_now env, pb_State = ''pending'',
                             pb_ObservedRevision = None, pb_AppliedAt = None \<rparr>
                 | Some old \<Rightarrow> old \<lparr> pb_Revision := revision, pb_Items := items,
                      pb_PublishedAt := (if pb_Revision old = revision then pb_PublishedAt old else le_now env),
                      pb_State := (if pb_Revision old = revision then pb_State old else ''pending'') \<rparr>) in
        if \<not> le_ok env ''write'' \<or> \<not> le_ok env ''commit'' then (Problem_of 500 ''INTERNAL_ERROR'', db)
        else (Answered p, db \<lparr> ld_publication := Some p \<rparr>)))"

text \<open>The data plane reads the publication: \<^const>\<open>None\<close> when nothing has been published.\<close>

definition internalGatewayLimits :: "limit_env \<Rightarrow> limit_db \<Rightarrow> (string \<times> Limit list) answer" where
  "internalGatewayLimits env db =
     (if \<not> le_ok env ''publication'' then Problem_of 500 ''INTERNAL_ERROR''
      else case ld_publication db of
        None \<Rightarrow> Answered ([], [])
      | Some p \<Rightarrow> Answered (pb_Revision p, pb_Items p))"

definition gatewayLimitStatus :: "limit_env \<Rightarrow> limit_db \<Rightarrow> (string \<times> string option) answer" where
  "gatewayLimitStatus env db =
     (if le_uses_operator env then Problem_of 503 ''LEGACY_GATEWAY_PUBLICATION_DISABLED''
      else if \<not> le_ok env ''publication'' then Problem_of 500 ''INTERNAL_ERROR''
      else case ld_publication db of
        None \<Rightarrow> Answered (''unpublished'', None)
      | Some p \<Rightarrow>
          Answered (if pb_State p = ''applied'' \<and> pb_ObservedRevision p \<noteq> Some (pb_Revision p) then ''pending'' else pb_State p, Some (pb_Revision p)))"

definition internalGatewayLimitStatus :: "limit_env \<Rightarrow> (string \<times> string) option \<Rightarrow> limit_db \<Rightarrow> (string \<times> string) answer \<times> limit_db" where
  "internalGatewayLimitStatus env body db =
     (case body of
        None \<Rightarrow> (Problem_of 400 ''INVALID_REQUEST'', db)
      | Some (revision, state) \<Rightarrow>
          if revision = [] \<or> (state \<noteq> ''applied'' \<and> state \<noteq> ''error'') then (Problem_of 400 ''INVALID_GATEWAY_STATUS'', db)
          else if \<not> le_ok env ''write'' then (Problem_of 500 ''INTERNAL_ERROR'', db)
          else case ld_publication db of
            Some p \<Rightarrow>
              if pb_Revision p = revision
              then (Answered (state, revision),
                    db \<lparr> ld_publication := Some (p \<lparr> pb_State := state, pb_ObservedRevision := Some revision, pb_AppliedAt := Some (le_now env) \<rparr>) \<rparr>)
              else (Problem_of 409 ''GATEWAY_PUBLICATION_CHANGED'', db)
          | None \<Rightarrow> (Problem_of 409 ''GATEWAY_PUBLICATION_CHANGED'', db))"

section \<open>Changes over time\<close>

inductive limit_step :: "limit_db \<Rightarrow> limit_db \<Rightarrow> bool" where
  put: "limit_step db (snd (putGatewayLimit env i body db))"
| delete: "limit_step db (snd (deleteGatewayLimit env i version db))"
| publish: "limit_step db (snd (publishGatewayLimits env db))"
| report: "limit_step db (snd (internalGatewayLimitStatus env body db))"

inductive_cases limit_stepE: "limit_step db db'"

lemma put_cases:
  assumes "putGatewayLimit env i body db = (r, db1)"
  obtains (refused) s c where "r = Problem_of s c" "db1 = db"
  | (stored) cfg row where "body = Some cfg" "Configuration_Valid cfg" "ValidID i" "put_row env i cfg (ld_rows db) = Some row"
      "cfg_ExpectedVersion cfg = 0 \<longrightarrow> length (ld_rows db) < 100"
      "r = Answered \<lparr> lim_ID = i, lim_Version = lr_Version row, lim_Configuration = cfg, lim_UpdatedAt = lr_UpdatedAt row \<rparr>"
      "ld_rows db1 = AList.update i row (ld_rows db)" "ld_publication db1 = ld_publication db"
proof (cases r)
  case (Problem_of s c)
  then have "db1 = db" using assms unfolding putGatewayLimit_def by (auto simp: Let_def split: option.splits if_splits prod.splits)
  with Problem_of refused show thesis by blast
next
  case (Answered item)
  then obtain cfg row where c: "body = Some cfg" and row: "put_row env i cfg (ld_rows db) = Some row"
    using assms unfolding putGatewayLimit_def by (auto simp: Let_def split: option.splits if_splits prod.splits)
  show thesis
    by (rule stored [OF c _ _ row]) (use assms Answered in \<open>auto simp: putGatewayLimit_def c row Let_def split: option.splits if_splits prod.splits\<close>)
qed

lemma delete_cases:
  assumes "deleteGatewayLimit env i version db = (r, db1)"
  obtains (refused) s c where "r = Problem_of s c" "db1 = db"
  | (deleted) v row where "version = Some v" "map_of (ld_rows db) i = Some row" "lr_Version row = v" "\<not> lr_Deleted row" "1 \<le> v" "r = Answered ()"
      "ld_rows db1 = AList.update i (row \<lparr> lr_Deleted := True, lr_Version := v + 1, lr_Configuration := (lr_Configuration row) \<lparr> cfg_Enabled := False \<rparr>,
         lr_UpdatedAt := le_now env \<rparr>) (ld_rows db)" "ld_publication db1 = ld_publication db"
  using assms unfolding deleteGatewayLimit_def
  by (auto simp: Let_def split: option.splits if_splits)

lemma publish_rows: "ld_rows (snd (publishGatewayLimits env db)) = ld_rows db"
  "ld_rows (snd (internalGatewayLimitStatus env body db)) = ld_rows db"
  by (auto simp: publishGatewayLimits_def internalGatewayLimitStatus_def Let_def split: option.splits)

text \<open>The store's invariant: one row per rule, at most a hundred of them, versions from one on, and every
  deleted rule disabled.\<close>

definition limit_inv :: "limit_db \<Rightarrow> bool" where
  "limit_inv db \<longleftrightarrow> distinct (map fst (ld_rows db)) \<and> length (ld_rows db) \<le> 100
     \<and> (\<forall>i r. map_of (ld_rows db) i = Some r \<longrightarrow> 1 \<le> lr_Version r \<and> (lr_Deleted r \<longrightarrow> \<not> cfg_Enabled (lr_Configuration r)))"

text \<open>The rule has moved past version \<open>v\<close>; a deleted rule stays deleted.\<close>

definition version_past :: "string \<Rightarrow> int \<Rightarrow> limit_db \<Rightarrow> bool" where
  "version_past i v db \<longleftrightarrow> (\<exists>r. map_of (ld_rows db) i = Some r \<and> v < lr_Version r)"

definition rule_deleted :: "string \<Rightarrow> limit_db \<Rightarrow> bool" where
  "rule_deleted i db \<longleftrightarrow> (\<exists>r. map_of (ld_rows db) i = Some r \<and> lr_Deleted r)"

lemma put_row_cases:
  assumes "put_row env i cfg rows = Some row"
  shows "(cfg_ExpectedVersion cfg = 0 \<and> map_of rows i = None \<and> lr_Version row = 1 \<and> \<not> lr_Deleted row)
    \<or> (\<exists>r. map_of rows i = Some r \<and> lr_Version r = cfg_ExpectedVersion cfg \<and> \<not> lr_Deleted r \<and> lr_Version row = lr_Version r + 1 \<and> \<not> lr_Deleted row)"
  using assms by (auto simp: put_row_def split: if_splits option.splits)

lemma length_update_known: "map_of xs k = Some v \<Longrightarrow> length (AList.update k w xs) = length xs"
  by (induction xs) auto

lemma length_update_new: "map_of xs k = None \<Longrightarrow> length (AList.update k w xs) = Suc (length xs)"
  by (induction xs) (auto split: if_splits)

lemma put_inv: "limit_inv db \<Longrightarrow> limit_inv (snd (putGatewayLimit env i body db))"
proof -
  assume inv: "limit_inv db"
  obtain r db1 where run: "putGatewayLimit env i body db = (r, db1)" by force
  then have "limit_inv db1"
  proof (cases rule: put_cases)
    case (stored cfg row)
    have v: "1 \<le> lr_Version row" "\<not> lr_Deleted row"
      using put_row_cases [OF stored(4)] inv by (fastforce simp: limit_inv_def)+
    have "length (AList.update i row (ld_rows db)) \<le> 100"
      using put_row_cases [OF stored(4)] stored(5) inv by (auto simp: limit_inv_def length_update_known length_update_new)
    then show ?thesis using inv v by (auto simp: limit_inv_def stored distinct_update update_conv' split: if_splits)
  qed (use inv in simp)
  with run show ?thesis by simp
qed

lemma delete_inv: "limit_inv db \<Longrightarrow> limit_inv (snd (deleteGatewayLimit env i version db))"
proof -
  assume inv: "limit_inv db"
  obtain r db1 where run: "deleteGatewayLimit env i version db = (r, db1)" by force
  then have "limit_inv db1"
  proof (cases rule: delete_cases)
    case (deleted v row)
    then show ?thesis using inv by (auto simp: limit_inv_def distinct_update update_conv' length_update_known split: if_splits)
  qed (use inv in simp)
  with run show ?thesis by simp
qed

lemma step_rows_same: "ld_rows db' = ld_rows db \<Longrightarrow> limit_inv db' = limit_inv db \<and> version_past i v db' = version_past i v db \<and> rule_deleted i db' = rule_deleted i db"
  by (simp add: limit_inv_def version_past_def rule_deleted_def)

lemma put_version: "version_past i v db \<Longrightarrow> version_past i v (snd (putGatewayLimit env j body db))"
  "rule_deleted i db \<Longrightarrow> rule_deleted i (snd (putGatewayLimit env j body db))"
proof -
  obtain r db1 where run: "putGatewayLimit env j body db = (r, db1)" by force
  have "(version_past i v db \<longrightarrow> version_past i v db1) \<and> (rule_deleted i db \<longrightarrow> rule_deleted i db1)" using run
  proof (cases rule: put_cases)
    case (stored cfg row)
    then show ?thesis using put_row_cases [OF stored(4)] by (auto simp: version_past_def rule_deleted_def update_conv')
  qed simp
  with run show "version_past i v db \<Longrightarrow> version_past i v (snd (putGatewayLimit env j body db))"
    "rule_deleted i db \<Longrightarrow> rule_deleted i (snd (putGatewayLimit env j body db))" by auto
qed

lemma delete_version: "version_past i v db \<Longrightarrow> version_past i v (snd (deleteGatewayLimit env j version db))"
  "rule_deleted i db \<Longrightarrow> rule_deleted i (snd (deleteGatewayLimit env j version db))"
proof -
  obtain r db1 where run: "deleteGatewayLimit env j version db = (r, db1)" by force
  have "(version_past i v db \<longrightarrow> version_past i v db1) \<and> (rule_deleted i db \<longrightarrow> rule_deleted i db1)" using run
  proof (cases rule: delete_cases)
    case (deleted w row)
    then show ?thesis by (auto simp: version_past_def rule_deleted_def update_conv')
  qed simp
  with run show "version_past i v db \<Longrightarrow> version_past i v (snd (deleteGatewayLimit env j version db))"
    "rule_deleted i db \<Longrightarrow> rule_deleted i (snd (deleteGatewayLimit env j version db))" by auto
qed

interpretation limit_inv_run: stable limit_step limit_inv
  by unfold_locales (auto elim!: limit_stepE simp: put_inv delete_inv dest: step_rows_same [OF publish_rows(1), THEN conjunct1, THEN iffD2]
      step_rows_same [OF publish_rows(2), THEN conjunct1, THEN iffD2])

interpretation version_run: stable limit_step "version_past i v" for i v
  by unfold_locales (auto elim!: limit_stepE simp: put_version delete_version dest: step_rows_same [OF publish_rows(1), THEN conjunct2, THEN conjunct1, THEN iffD2]
      step_rows_same [OF publish_rows(2), THEN conjunct2, THEN conjunct1, THEN iffD2])

interpretation deleted_run: stable limit_step "rule_deleted i" for i
  by unfold_locales (auto elim!: limit_stepE simp: put_version delete_version dest: step_rows_same [OF publish_rows(1), THEN conjunct2, THEN conjunct2, THEN iffD2]
      step_rows_same [OF publish_rows(2), THEN conjunct2, THEN conjunct2, THEN iffD2])

lemma version_past_refuses:
  assumes "version_past i v db"
  shows "cfg_ExpectedVersion cfg = v \<Longrightarrow> \<exists>s c. putGatewayLimit env i (Some cfg) db = (Problem_of s c, db)"
    "\<exists>s c. deleteGatewayLimit env i (Some v) db = (Problem_of s c, db)"
proof -
  obtain r db1 where run: "putGatewayLimit env i (Some cfg) db = (r, db1)" by force
  show "\<exists>s c. putGatewayLimit env i (Some cfg) db = (Problem_of s c, db)" if e: "cfg_ExpectedVersion cfg = v"
    using run
  proof (cases rule: put_cases)
    case (stored cfg' row)
    then show ?thesis using put_row_cases [OF stored(4)] assms e by (auto simp: version_past_def)
  qed (use run in blast)
  obtain r db1 where run: "deleteGatewayLimit env i (Some v) db = (r, db1)" by force
  then show "\<exists>s c. deleteGatewayLimit env i (Some v) db = (Problem_of s c, db)"
  proof (cases rule: delete_cases)
    case (deleted w row)
    then show ?thesis using assms by (auto simp: version_past_def)
  qed (use run in blast)
qed

section \<open>A concrete rule\<close>

definition demo_limit :: Configuration where
  "demo_limit = \<lparr> cfg_Kind = ''requests'', cfg_ScopeType = ''global'', cfg_ScopeID = None, cfg_ModelID = None, cfg_Maximum = 10, cfg_Interval = ''minute'',
     cfg_Enabled = True, cfg_ExpectedVersion = 0 \<rparr>"

definition demo_limit_env :: limit_env where
  "demo_limit_env = \<lparr> le_directory = demo_directory ''roles.read'', le_tenant = ''acme'', le_actor = ''bob'', le_now = 0, le_ok = (\<lambda>_. True),
     le_uses_operator = False, le_marshal = concat \<circ> map lim_ID \<rparr>"

abbreviation no_limits :: limit_db where
  "no_limits \<equiv> \<lparr> ld_rows = [], ld_publication = None, ld_audit = [] \<rparr>"

section \<open>Properties\<close>



end
