(* ===== verification/Catalog.thy ===== *)
theory Catalog
  imports Gateway_Limits "HOL-Library.Multiset"
begin

text \<open>
  Routes of the data plane: their derivation from the model catalog
  (\<^verbatim>\<open>internal/httpapi/data_plane_publish.go\<close>) and the stored desired state with its status
  (\<^verbatim>\<open>data_plane_handlers.go\<close>), for one deployment. URL parsing and JSON encoding are functions of
  the environment; the JSON columns are kept as the values they decode to.
\<close>

section \<open>Routes\<close>

record catalog_model =
  cm_ID :: string
  cm_Enabled :: bool
  cm_SourceType :: string
  cm_Protocol :: string
  cm_Endpoint :: "string option"
  cm_UpstreamModel :: "string option"
  cm_CredentialID :: "string option"

record dataPlaneSecretReference =
  ref_Name :: string
  ref_Key :: string
  ref_Namespace :: "string option"

record dataPlaneRoute =
  rt_ModelID :: string
  rt_Enabled :: bool
  rt_Endpoint :: string
  rt_UpstreamModel :: string
  rt_Protocol :: string
  rt_ProviderType :: string
  rt_CredentialRef :: "dataPlaneSecretReference option"

record dataPlaneDesiredStateWrite =
  dw_Revision :: string
  dw_Routes :: "dataPlaneRoute list"

record catalog_env =
  ce_parse :: "string \<Rightarrow> url option"
  ce_routes_json :: "dataPlaneRoute list \<Rightarrow> string"
  ce_state_json :: "dataPlaneDesiredStateWrite \<Rightarrow> string"
  ce_ok :: "string \<Rightarrow> bool"
  ce_now :: time
  ce_UsesGatewayOperator :: bool

definition absoluteHTTPURL :: "(string \<Rightarrow> url option) \<Rightarrow> string \<Rightarrow> bool" where
  "absoluteHTTPURL parse_url raw =
     (case parse_url (trim_space raw) of None \<Rightarrow> False
      | Some u \<Rightarrow> (url_Scheme u = ''http'' \<or> url_Scheme u = ''https'') \<and> url_Host u \<noteq> [])"

definition derive_route :: "(string \<Rightarrow> url option) \<Rightarrow> catalog_model \<Rightarrow> dataPlaneRoute option" where
  "derive_route parse_url m =
     (if cm_SourceType m \<noteq> ''gateway'' \<or> (cm_Protocol m \<noteq> ''openai-compatible'' \<and> cm_Protocol m \<noteq> ''anthropic'') then None
      else case (cm_Endpoint m, cm_UpstreamModel m) of
        (Some endpoint, Some upstream) \<Rightarrow>
          if trim_space endpoint = [] \<or> trim_space upstream = [] then None
          else if cm_Protocol m = ''anthropic'' \<and> \<not> absoluteHTTPURL parse_url endpoint then None
          else Some \<lparr> rt_ModelID = cm_ID m, rt_Enabled = cm_Enabled m, rt_Endpoint = endpoint, rt_UpstreamModel = upstream,
                      rt_Protocol = cm_Protocol m, rt_ProviderType = (if cm_Protocol m = ''openai-compatible'' then ''openai'' else []),
                      rt_CredentialRef = (case cm_CredentialID m of
                          None \<Rightarrow> None
                        | Some c \<Rightarrow> if trim_space c = [] then None
                                    else Some \<lparr> ref_Name = ''aep-credential-'' @ c, ref_Key = ''api-key'', ref_Namespace = None \<rparr>) \<rparr>
      | _ \<Rightarrow> None)"

definition deriveDataPlaneRoutes :: "(string \<Rightarrow> url option) \<Rightarrow> catalog_model list \<Rightarrow> dataPlaneRoute list" where
  "deriveDataPlaneRoutes parse_url models = List.map_filter (derive_route parse_url) models"

definition normalize_route :: "(string \<Rightarrow> url option) \<Rightarrow> dataPlaneRoute \<Rightarrow> dataPlaneRoute option" where
  "normalize_route parse_url r =
     (if trim_space (rt_ModelID r) = [] \<or> trim_space (rt_Endpoint r) = [] \<or> trim_space (rt_UpstreamModel r) = []
         \<or> (rt_Protocol r \<noteq> ''openai-compatible'' \<and> rt_Protocol r \<noteq> ''anthropic'') then None
      else if rt_Protocol r = ''anthropic'' \<and> (rt_ProviderType r \<noteq> [] \<or> \<not> absoluteHTTPURL parse_url (rt_Endpoint r)) then None
      else
       (let r1 = (if rt_Protocol r \<noteq> ''anthropic'' \<and> rt_ProviderType r = [] then r \<lparr> rt_ProviderType := ''openai'' \<rparr> else r) in
        if rt_Protocol r \<noteq> ''anthropic'' \<and> rt_ProviderType r1 \<noteq> ''openai'' \<and> rt_ProviderType r1 \<noteq> ''deepseek'' then None
        else case rt_CredentialRef r1 of
          None \<Rightarrow> Some r1
        | Some ref \<Rightarrow>
            if trim_space (ref_Name ref) = [] \<or> trim_space (ref_Key ref) = [] then None
            else Some (r1 \<lparr> rt_CredentialRef := Some (ref \<lparr> ref_Namespace := None \<rparr>) \<rparr>)))"

fun repeated_neighbour :: "dataPlaneRoute list \<Rightarrow> bool" where
  "repeated_neighbour (r # s # rs) = (rt_ModelID r = rt_ModelID s \<or> repeated_neighbour (s # rs))"
| "repeated_neighbour _ = False"

definition normalizeDataPlaneState :: "(string \<Rightarrow> url option) \<Rightarrow> dataPlaneDesiredStateWrite \<Rightarrow> dataPlaneDesiredStateWrite option" where
  "normalizeDataPlaneState parse_url input =
     (if trim_space (dw_Revision input) = [] \<or> length (dw_Revision input) > 200 \<or> length (dw_Routes input) > 500 then None
      else case those (map (normalize_route parse_url) (dw_Routes input)) of
        None \<Rightarrow> None
      | Some routes \<Rightarrow>
         (let ordered = sort_key rt_ModelID routes in
          if repeated_neighbour ordered then None else Some \<lparr> dw_Revision = dw_Revision input, dw_Routes = ordered \<rparr>))"

definition dataPlaneHash :: "catalog_env \<Rightarrow> dataPlaneDesiredStateWrite \<Rightarrow> string" where
  "dataPlaneHash env state = hex (sha256 (ce_state_json env state))"

definition deriveCatalogState :: "catalog_env \<Rightarrow> catalog_model list \<Rightarrow> string \<Rightarrow> dataPlaneDesiredStateWrite option" where
  "deriveCatalogState env models revision =
     (case normalizeDataPlaneState (ce_parse env) \<lparr> dw_Revision = ''catalog-'', dw_Routes = deriveDataPlaneRoutes (ce_parse env) models \<rparr> of
        None \<Rightarrow> None
      | Some normalized \<Rightarrow>
          if revision \<noteq> [] then Some (normalized \<lparr> dw_Revision := revision \<rparr>)
          else Some (normalized \<lparr> dw_Revision := ''catalog-'' @ hex (sha256 (ce_routes_json env (dw_Routes normalized))) \<rparr>))"

section \<open>Comparison with the catalog\<close>

definition credentialRefNameKey :: "dataPlaneSecretReference option \<Rightarrow> string" where
  "credentialRefNameKey reference = (case reference of None \<Rightarrow> [] | Some r \<Rightarrow> ref_Name r @ [CHR 0x00] @ ref_Key r)"

definition routeDiffFields :: "dataPlaneRoute \<Rightarrow> dataPlaneRoute \<Rightarrow> string list" where
  "routeDiffFields stored derived =
     (if rt_Enabled stored \<noteq> rt_Enabled derived then [''enabled''] else [])
   @ (if rt_Endpoint stored \<noteq> rt_Endpoint derived then [''endpoint''] else [])
   @ (if rt_UpstreamModel stored \<noteq> rt_UpstreamModel derived then [''upstreamModel''] else [])
   @ (if rt_Protocol stored \<noteq> rt_Protocol derived then [''protocol''] else [])
   @ (if rt_ProviderType stored \<noteq> rt_ProviderType derived then [''providerType''] else [])
   @ (if credentialRefNameKey (rt_CredentialRef stored) \<noteq> credentialRefNameKey (rt_CredentialRef derived) then [''credentialRef''] else [])"

record dataPlaneCatalogComparison =
  cc_Missing :: "string list"
  cc_Extra :: "string list"
  cc_Mismatched :: "(string \<times> string list) list"

text \<open>A Go map built by a loop keeps the last value of a key.\<close>

definition by_model :: "dataPlaneRoute list \<Rightarrow> string \<Rightarrow> dataPlaneRoute option" where
  "by_model routes = map_of (map (\<lambda>r. (rt_ModelID r, r)) (rev routes))"

definition compareCatalogRoutes :: "dataPlaneRoute list \<Rightarrow> dataPlaneRoute list \<Rightarrow> dataPlaneCatalogComparison" where
  "compareCatalogRoutes stored derived =
     \<lparr> cc_Missing = map rt_ModelID (filter (\<lambda>r. by_model stored (rt_ModelID r) = None) derived),
       cc_Extra = map rt_ModelID (filter (\<lambda>r. by_model derived (rt_ModelID r) = None) stored),
       cc_Mismatched = List.map_filter (\<lambda>r. case by_model stored (rt_ModelID r) of
           None \<Rightarrow> None
         | Some existing \<Rightarrow> if routeDiffFields existing r \<noteq> [] then Some (rt_ModelID r, routeDiffFields existing r) else None) derived \<rparr>"

section \<open>The stored desired state\<close>

record desired_row =
  dr_State :: dataPlaneDesiredStateWrite
  dr_ContentHash :: string
  dr_PublishedAt :: time

record dataPlaneStatus =
  st_State :: string
  st_ObservedRevision :: "string option"
  st_ContentHash :: "string option"
  st_LastAppliedAt :: "time option"
  st_ErrorCode :: "string option"
  st_Message :: "string option"
  st_ResourceCount :: int

record data_plane_db =
  dp_models :: "catalog_model list"
  dp_desired :: "desired_row option"
  dp_status :: "dataPlaneStatus option"

definition ListModels :: "data_plane_db \<Rightarrow> catalog_model list" where
  "ListModels db = sort_key cm_ID (dp_models db)"

definition store_desired :: "catalog_env \<Rightarrow> dataPlaneDesiredStateWrite \<Rightarrow> data_plane_db \<Rightarrow> desired_row answer \<times> data_plane_db" where
  "store_desired env normalized db =
     (if \<not> ce_ok env ''write desired state'' then (Problem_of 500 ''INTERNAL_ERROR'', db)
      else
       (let row = \<lparr> dr_State = normalized, dr_ContentHash = dataPlaneHash env normalized, dr_PublishedAt = ce_now env \<rparr>;
            pending = (case dp_status db of
                None \<Rightarrow> \<lparr> st_State = ''pending'', st_ObservedRevision = None, st_ContentHash = None, st_LastAppliedAt = None,
                          st_ErrorCode = None, st_Message = None, st_ResourceCount = int (length (dw_Routes normalized)) \<rparr>
              | Some s \<Rightarrow> s \<lparr> st_State := ''pending'', st_ErrorCode := None, st_Message := None \<rparr>) in
        (Answered row,
         db \<lparr> dp_desired := Some row, dp_status := (if ce_ok env ''write status'' then Some pending else dp_status db) \<rparr>)))"

definition publishDataPlaneRoutes :: "catalog_env \<Rightarrow> string option \<Rightarrow> data_plane_db \<Rightarrow> desired_row answer \<times> data_plane_db" where
  "publishDataPlaneRoutes env body db =
     (if ce_UsesGatewayOperator env then (Problem_of 503 ''LEGACY_GATEWAY_PUBLICATION_DISABLED'', db)
      else case body of
        None \<Rightarrow> (Problem_of 400 ''INVALID_REQUEST'', db)
      | Some raw \<Rightarrow>
         (let revision = trim_space raw in
          if length revision > 200 then (Problem_of 400 ''INVALID_DATA_PLANE_STATE'', db)
          else if \<not> ce_ok env ''list models'' then (Problem_of 500 ''INTERNAL_ERROR'', db)
          else case deriveCatalogState env (ListModels db) revision of
            None \<Rightarrow> (Problem_of 400 ''INVALID_DATA_PLANE_STATE'', db)
          | Some normalized \<Rightarrow>
              if \<not> ce_ok env ''read desired state'' then (Problem_of 500 ''INTERNAL_ERROR'', db)
              else case dp_desired db of
                Some row \<Rightarrow>
                  if dr_ContentHash row = dataPlaneHash env normalized
                  then (Answered \<lparr> dr_State = normalized, dr_ContentHash = dr_ContentHash row, dr_PublishedAt = dr_PublishedAt row \<rparr>, db)
                  else store_desired env normalized db
              | None \<Rightarrow> store_desired env normalized db))"

definition route_from_catalog :: "dataPlaneRoute list \<Rightarrow> dataPlaneRoute \<Rightarrow> bool" where
  "route_from_catalog derived route =
     (case by_model derived (rt_ModelID route) of
        None \<Rightarrow> False
      | Some expected \<Rightarrow> rt_Endpoint route = rt_Endpoint expected
          \<and> credentialRefNameKey (rt_CredentialRef route) = credentialRefNameKey (rt_CredentialRef expected))"

definition putDataPlaneDesiredState :: "catalog_env \<Rightarrow> dataPlaneDesiredStateWrite option \<Rightarrow> data_plane_db \<Rightarrow> desired_row answer \<times> data_plane_db" where
  "putDataPlaneDesiredState env body db =
     (if ce_UsesGatewayOperator env then (Problem_of 503 ''LEGACY_GATEWAY_PUBLICATION_DISABLED'', db)
      else case body of
        None \<Rightarrow> (Problem_of 400 ''INVALID_REQUEST'', db)
      | Some input \<Rightarrow>
         (case normalizeDataPlaneState (ce_parse env) input of
            None \<Rightarrow> (Problem_of 400 ''INVALID_DATA_PLANE_STATE'', db)
          | Some normalized \<Rightarrow>
              if \<not> ce_ok env ''list models'' then (Problem_of 500 ''INTERNAL_ERROR'', db)
              else if \<not> list_all (route_from_catalog (deriveDataPlaneRoutes (ce_parse env) (ListModels db))) (dw_Routes normalized)
              then (Problem_of 400 ''INVALID_DATA_PLANE_STATE'', db)
              else store_desired env normalized db))"

definition getDataPlaneDesiredState :: "catalog_env \<Rightarrow> data_plane_db \<Rightarrow> desired_row answer" where
  "getDataPlaneDesiredState env db =
     (if \<not> ce_ok env ''read desired state'' then Problem_of 500 ''INTERNAL_ERROR''
      else case dp_desired db of
        None \<Rightarrow> (let empty = \<lparr> dw_Revision = [], dw_Routes = [] \<rparr> in
                 Answered \<lparr> dr_State = empty, dr_ContentHash = dataPlaneHash env empty, dr_PublishedAt = - 62135596800 * second \<rparr>)
      | Some row \<Rightarrow> Answered row)"

definition catalogComparison :: "catalog_env \<Rightarrow> data_plane_db \<Rightarrow> dataPlaneCatalogComparison option" where
  "catalogComparison env db =
     (if \<not> ce_ok env ''list models'' then None
      else case deriveCatalogState env (ListModels db) [] of
        None \<Rightarrow> None
      | Some derived \<Rightarrow>
          if \<not> ce_ok env ''read desired state'' then None
          else Some (compareCatalogRoutes (case dp_desired db of None \<Rightarrow> [] | Some row \<Rightarrow> dw_Routes (dr_State row)) (dw_Routes derived)))"

definition getDataPlaneStatus :: "catalog_env \<Rightarrow> data_plane_db \<Rightarrow> (dataPlaneStatus \<times> dataPlaneCatalogComparison) answer" where
  "getDataPlaneStatus env db =
     (if \<not> ce_ok env ''read status'' then Problem_of 500 ''INTERNAL_ERROR''
      else
       (let status = (case dp_status db of
            None \<Rightarrow> \<lparr> st_State = ''pending'', st_ObservedRevision = None, st_ContentHash = None, st_LastAppliedAt = None,
                      st_ErrorCode = None, st_Message = None, st_ResourceCount = 0 \<rparr>
          | Some s \<Rightarrow> s) in
        case catalogComparison env db of
          None \<Rightarrow> Problem_of 500 ''INTERNAL_ERROR''
        | Some comparison \<Rightarrow> Answered (status, comparison)))"

definition putInternalDataPlaneStatus :: "catalog_env \<Rightarrow> dataPlaneStatus option \<Rightarrow> data_plane_db \<Rightarrow> dataPlaneStatus answer \<times> data_plane_db" where
  "putInternalDataPlaneStatus env body db =
     (case body of
        None \<Rightarrow> (Problem_of 400 ''INVALID_REQUEST'', db)
      | Some input \<Rightarrow>
          if st_State input \<notin> {''pending'', ''applying'', ''ready'', ''degraded'', ''error''} then (Problem_of 400 ''INVALID_DATA_PLANE_STATUS'', db)
          else if (case st_Message input of None \<Rightarrow> False | Some m \<Rightarrow> length m > 2000) then (Problem_of 400 ''INVALID_DATA_PLANE_STATUS'', db)
          else if \<not> ce_ok env ''write status'' then (Problem_of 500 ''INTERNAL_ERROR'', db)
          else (Answered input, db \<lparr> dp_status := Some input \<rparr>))"

section \<open>Normal forms\<close>

lemma neighbour_distinct: "sorted (map rt_ModelID rs) \<Longrightarrow> repeated_neighbour rs \<longleftrightarrow> \<not> distinct (map rt_ModelID rs)"
proof (induction rs rule: repeated_neighbour.induct)
  case (1 r s rs)
  have "rt_ModelID r \<in> set (map rt_ModelID (s # rs)) \<longleftrightarrow> rt_ModelID r = rt_ModelID s"
    using 1(2) by (auto simp: order.antisym)
  moreover have "repeated_neighbour (s # rs) \<longleftrightarrow> \<not> distinct (map rt_ModelID (s # rs))" using 1 by simp
  ultimately show ?case by (simp only: repeated_neighbour.simps list.map distinct.simps) blast
qed auto

lemma those_Some: "those xs = Some ys \<longleftrightarrow> xs = map Some ys"
  by (induction xs arbitrary: ys) (auto split: option.splits simp: Cons_eq_map_conv)

text \<open>A normalized route.\<close>

definition normal_route :: "(string \<Rightarrow> url option) \<Rightarrow> dataPlaneRoute \<Rightarrow> bool" where
  "normal_route parse_url r \<longleftrightarrow> normalize_route parse_url r = Some r"

lemma normalize_route_keeps:
  assumes "normalize_route parse_url r = Some s"
  shows "rt_ModelID s = rt_ModelID r" "rt_Endpoint s = rt_Endpoint r" "rt_Enabled s = rt_Enabled r" "rt_UpstreamModel s = rt_UpstreamModel r" "rt_Protocol s = rt_Protocol r"
  using assms by (simp_all add: normalize_route_def Let_def split: if_splits option.splits) auto

lemma normalize_route_shape:
  assumes "normalize_route parse_url r = Some s"
  shows "trim_space (rt_ModelID r) \<noteq> []" "trim_space (rt_Endpoint r) \<noteq> []" "trim_space (rt_UpstreamModel r) \<noteq> []"
    "rt_Protocol r = ''openai-compatible'' \<or> rt_Protocol r = ''anthropic''"
    "rt_Protocol r = ''anthropic'' \<Longrightarrow> rt_ProviderType s = [] \<and> absoluteHTTPURL parse_url (rt_Endpoint r)"
    "rt_Protocol r \<noteq> ''anthropic'' \<Longrightarrow> rt_ProviderType s = ''openai'' \<or> rt_ProviderType s = ''deepseek''"
  using assms unfolding normalize_route_def Let_def by (simp_all split: if_splits option.splits) auto

lemma normalize_route_credential:
  assumes "normalize_route parse_url r = Some s" "rt_CredentialRef s = Some ref"
  shows "trim_space (ref_Name ref) \<noteq> []" "trim_space (ref_Key ref) \<noteq> []" "ref_Namespace ref = None"
  using assms unfolding normalize_route_def Let_def by (auto split: if_splits option.splits)

lemma normalize_route_normal:
  assumes "normalize_route parse_url r = Some s"
  shows "normal_route parse_url s"
proof -
  note shape = normalize_route_shape [OF assms] normalize_route_keeps [OF assms]
  have ref: "ref \<lparr> ref_Namespace := None \<rparr> = ref" "trim_space (ref_Name ref) \<noteq> []" "trim_space (ref_Key ref) \<noteq> []"
    if "rt_CredentialRef s = Some ref" for ref
    using normalize_route_credential [OF assms that] by (cases ref; simp)+
  have "s \<lparr> rt_CredentialRef := rt_CredentialRef s \<rparr> = s" by simp
  then show ?thesis unfolding normal_route_def normalize_route_def Let_def using shape ref
    by (cases "rt_CredentialRef s"; cases "rt_Protocol r = ''anthropic''") (simp_all, auto)
qed

lemma normalize_Some:
  "normalizeDataPlaneState parse_url s = Some t \<longleftrightarrow>
     trim_space (dw_Revision s) \<noteq> [] \<and> length (dw_Revision s) \<le> 200 \<and> length (dw_Routes s) \<le> 500
     \<and> (\<exists>rs. map (normalize_route parse_url) (dw_Routes s) = map Some rs \<and> distinct (map rt_ModelID rs)
          \<and> t = \<lparr> dw_Revision = dw_Revision s, dw_Routes = sort_key rt_ModelID rs \<rparr>)"
proof -
  have "repeated_neighbour (sort_key rt_ModelID rs) \<longleftrightarrow> \<not> distinct (map rt_ModelID rs)" for rs
    by (subst neighbour_distinct) (simp_all add: distinct_map)
  note r = this
  show ?thesis
  proof (cases "those (map (normalize_route parse_url) (dw_Routes s))")
    case None
    then have "map (normalize_route parse_url) (dw_Routes s) \<noteq> map Some rs" for rs by (metis those_Some option.distinct(1))
    with None show ?thesis by (simp add: normalizeDataPlaneState_def)
  next
    case (Some ns)
    then have n: "map (normalize_route parse_url) (dw_Routes s) = map Some rs \<longleftrightarrow> rs = ns" for rs by (metis those_Some option.inject)
    show ?thesis by (simp only: n normalizeDataPlaneState_def Some option.case Let_def r) (simp split: if_split, blast)
  qed
qed

lemma normalize_idem: "normalizeDataPlaneState parse_url s = Some t \<Longrightarrow> normalizeDataPlaneState parse_url t = Some t"
proof -
  assume "normalizeDataPlaneState parse_url s = Some t"
  then obtain rs where rs: "map (normalize_route parse_url) (dw_Routes s) = map Some rs" "distinct (map rt_ModelID rs)"
    and t: "t = \<lparr> dw_Revision = dw_Revision s, dw_Routes = sort_key rt_ModelID rs \<rparr>"
    and b: "trim_space (dw_Revision s) \<noteq> []" "length (dw_Revision s) \<le> 200" "length (dw_Routes s) \<le> 500"
    unfolding normalize_Some by blast
  have n: "normal_route parse_url r" if "r \<in> set rs" for r
  proof -
    from that rs(1) have "Some r \<in> normalize_route parse_url ` set (dw_Routes s)" by (metis image_eqI list.set_map)
    then show ?thesis by (auto dest: normalize_route_normal [OF sym])
  qed
  have "map (normalize_route parse_url) (sort_key rt_ModelID rs) = map Some (sort_key rt_ModelID rs)"
    using n by (simp add: normal_route_def)
  moreover have "length rs = length (dw_Routes s)" using rs(1) by (metis length_map)
  moreover have "sort_key rt_ModelID (sort_key rt_ModelID rs) = sort_key rt_ModelID rs"
    using rs(2) by (intro sort_key_inj_key_eq) (auto simp: distinct_map)
  ultimately show "normalizeDataPlaneState parse_url t = Some t"
    unfolding normalize_Some t using rs(2) b by (intro conjI exI [of _ "sort_key rt_ModelID rs"]) (simp_all add: distinct_map)
qed

lemma normalize_order:
  assumes "normalizeDataPlaneState parse_url s = Some t" "mset rs = mset (dw_Routes s)"
  shows "normalizeDataPlaneState parse_url (s \<lparr> dw_Routes := rs \<rparr>) = Some t"
proof -
  obtain ns where ns: "map (normalize_route parse_url) (dw_Routes s) = map Some ns" "distinct (map rt_ModelID ns)"
    and t: "t = \<lparr> dw_Revision = dw_Revision s, dw_Routes = sort_key rt_ModelID ns \<rparr>"
    and b: "trim_space (dw_Revision s) \<noteq> []" "length (dw_Revision s) \<le> 200" "length (dw_Routes s) \<le> 500"
    using assms(1) unfolding normalize_Some by blast
  have "mset (map (normalize_route parse_url) rs) = image_mset Some (mset ns)" using assms(2) ns(1) by (metis mset_map)
  moreover define ms where "ms = map (\<lambda>r. the (normalize_route parse_url r)) rs"
  moreover have all: "normalize_route parse_url r \<noteq> None" if "r \<in> set rs" for r
  proof -
    have "r \<in> set (dw_Routes s)" using that assms(2) by (metis mset_eq_setD)
    then have "normalize_route parse_url r \<in> set (map Some ns)" unfolding ns(1) [symmetric] by simp
    then show ?thesis by auto
  qed
  then have m: "map (normalize_route parse_url) rs = map Some ms" by (auto simp: ms_def)
  ultimately have "image_mset Some (mset ms) = image_mset Some (mset ns)" by (simp flip: mset_map)
  then have p: "mset ms = mset ns" by (metis inj_Some multiset.inj_map injD)
  have "sort_key rt_ModelID ms = sort_key rt_ModelID ns"
    using p ns(2) by (intro sort_key_inj_key_eq) (auto simp: distinct_map dest: mset_eq_setD)
  moreover have "distinct (map rt_ModelID ms)" using p ns(2) by (metis mset_map mset_eq_imp_distinct_iff)
  moreover have "length rs \<le> 500" using b(3) assms(2) by (metis size_mset)
  ultimately show ?thesis unfolding normalize_Some using m b t by auto
qed

section \<open>Routes come from the catalog\<close>

text \<open>The route sends the credential bound to a gateway model of the catalog, if any, to its endpoint.\<close>

definition catalog_route :: "catalog_model list \<Rightarrow> dataPlaneRoute \<Rightarrow> bool" where
  "catalog_route models r \<longleftrightarrow>
     (\<exists>m \<in> set models. cm_ID m = rt_ModelID r \<and> cm_SourceType m = ''gateway'' \<and> cm_Endpoint m = Some (rt_Endpoint r)
        \<and> (\<forall>ref. rt_CredentialRef r = Some ref \<longrightarrow> (\<exists>c. cm_CredentialID m = Some c \<and> ref_Name ref = ''aep-credential-'' @ c
             \<and> ref_Key ref = ''api-key'' \<and> ref_Namespace ref = None)))"

lemma derive_route_Some:
  assumes "derive_route parse_url m = Some r"
  shows "rt_ModelID r = cm_ID m" "cm_SourceType m = ''gateway''" "cm_Endpoint m = Some (rt_Endpoint r)"
    "rt_CredentialRef r = Some ref \<Longrightarrow> \<exists>c. cm_CredentialID m = Some c \<and> ref = \<lparr> ref_Name = ''aep-credential-'' @ c, ref_Key = ''api-key'', ref_Namespace = None \<rparr>"
  using assms unfolding derive_route_def by (simp_all split: if_splits option.splits prod.splits) auto

lemma derived_from: "r \<in> set (deriveDataPlaneRoutes parse_url models) \<Longrightarrow> \<exists>m \<in> set models. derive_route parse_url m = Some r"
  by (induction models) (auto simp: deriveDataPlaneRoutes_def map_filter_simps split: option.splits)

lemma derived_catalog_route: "r \<in> set (deriveDataPlaneRoutes parse_url models) \<Longrightarrow> catalog_route models r"
proof -
  assume "r \<in> set (deriveDataPlaneRoutes parse_url models)"
  then obtain m where m: "m \<in> set models" "derive_route parse_url m = Some r" using derived_from by blast
  have "\<exists>c. cm_CredentialID m = Some c \<and> ref_Name ref = ''aep-credential-'' @ c \<and> ref_Key ref = ''api-key'' \<and> ref_Namespace ref = None"
    if "rt_CredentialRef r = Some ref" for ref
    using derive_route_Some(4) [OF m(2) that] by (elim exE conjE) simp
  with m derive_route_Some(1-3) [OF m(2)] show ?thesis unfolding catalog_route_def by (intro bexI [of _ m]) simp_all
qed

lemma by_model_Some: "by_model rs i = Some r \<Longrightarrow> r \<in> set rs \<and> rt_ModelID r = i"
  by (auto simp: by_model_def dest!: map_of_SomeD)

lemma name_key_eq:
  assumes "credentialRefNameKey (Some ref) = credentialRefNameKey (Some (\<lparr> ref_Name = n, ref_Key = k, ref_Namespace = ns \<rparr> :: dataPlaneSecretReference))"
    "CHR 0x00 \<notin> set n" "CHR 0x00 \<notin> set k"
  shows "ref_Name ref = n \<and> ref_Key ref = k"
proof -
  from assms(1) have e: "ref_Name ref @ [CHR 0x00] @ ref_Key ref = n @ [CHR 0x00] @ k" by (simp add: credentialRefNameKey_def)
  have "CHR 0x00 \<notin> set (ref_Name ref)"
  proof
    assume "CHR 0x00 \<in> set (ref_Name ref)"
    then have "2 \<le> count_list (ref_Name ref @ [CHR 0x00] @ ref_Key ref) (CHR 0x00)" using count_list_0_iff [of "ref_Name ref" "CHR 0x00"] by (cases "count_list (ref_Name ref) (CHR 0x00)") auto
    with assms(2,3) show False unfolding e by simp
  qed
  from sep_inject [OF this assms(2), of "ref_Key ref" k] e show ?thesis by simp
qed

lemma checked_catalog_route:
  assumes "route_from_catalog (deriveDataPlaneRoutes parse_url models) r" "normal_route parse_url r"
    "\<forall>m \<in> set models. \<forall>c. cm_CredentialID m = Some c \<longrightarrow> CHR 0x00 \<notin> set c"
  shows "catalog_route models r"
proof -
  obtain e where e: "by_model (deriveDataPlaneRoutes parse_url models) (rt_ModelID r) = Some e" "rt_Endpoint r = rt_Endpoint e"
    "credentialRefNameKey (rt_CredentialRef r) = credentialRefNameKey (rt_CredentialRef e)"
    using assms(1) by (auto simp: route_from_catalog_def split: option.splits)
  obtain m where m: "m \<in> set models" "derive_route parse_url m = Some e" using by_model_Some [OF e(1)] derived_from by blast
  have "\<exists>c. cm_CredentialID m = Some c \<and> ref_Name ref = ''aep-credential-'' @ c \<and> ref_Key ref = ''api-key'' \<and> ref_Namespace ref = None"
    if ref: "rt_CredentialRef r = Some ref" for ref
  proof -
    have n: "ref_Namespace ref = None" using assms(2) ref normalize_route_credential(3) unfolding normal_route_def by blast
    obtain ref' where "rt_CredentialRef e = Some ref'" using e(3) ref by (cases "rt_CredentialRef e") (auto simp: credentialRefNameKey_def)
    with derive_route_Some(4) [OF m(2) this] obtain c where c: "cm_CredentialID m = Some c"
      "rt_CredentialRef e = Some \<lparr> ref_Name = ''aep-credential-'' @ c, ref_Key = ''api-key'', ref_Namespace = None \<rparr>" by auto
    have "CHR 0x00 \<notin> set (''aep-credential-'' @ c)" using assms(3) m(1) c(1) by auto
    from name_key_eq [OF _ this, of ref "''api-key''" None] e(3) ref c n show ?thesis by simp
  qed
  then show ?thesis using m e by_model_Some [OF e(1)] derive_route_Some [OF m(2)] unfolding catalog_route_def by (intro bexI [of _ m]) auto
qed

lemma store_desired_Answered:
  "store_desired env normalized db = (Answered row, db1) \<Longrightarrow> dr_State row = normalized \<and> dp_desired db1 = Some row"
  by (auto simp: store_desired_def Let_def split: if_splits)

lemma normalized_route_origin:
  assumes "normalizeDataPlaneState parse_url s = Some t" "r \<in> set (dw_Routes t)"
  shows "normal_route parse_url r" "\<exists>r0 \<in> set (dw_Routes s). normalize_route parse_url r0 = Some r"
proof -
  obtain rs where rs: "map (normalize_route parse_url) (dw_Routes s) = map Some rs" "dw_Routes t = sort_key rt_ModelID rs"
    using assms(1) unfolding normalize_Some by auto
  have "Some r \<in> set (map (normalize_route parse_url) (dw_Routes s))" unfolding rs(1) using assms(2) rs(2) by simp
  then show "\<exists>r0 \<in> set (dw_Routes s). normalize_route parse_url r0 = Some r" by auto
  then show "normal_route parse_url r" by (auto dest: normalize_route_normal)
qed

lemma derive_normalizes:
  assumes "derive_route parse_url m = Some r" "normalize_route parse_url r = Some s"
  shows "s = r"
proof -
  have "rt_ProviderType r \<noteq> [] \<or> rt_Protocol r = ''anthropic''" "\<forall>ref. rt_CredentialRef r = Some ref \<longrightarrow> ref_Namespace ref = None"
    using assms(1) unfolding derive_route_def by (auto split: if_splits option.splits prod.splits)
  then show ?thesis using assms(2) unfolding normalize_route_def Let_def
    by (cases "rt_CredentialRef r") (auto split: if_splits)
qed

lemma derived_state_routes:
  assumes "deriveCatalogState env models revision = Some t"
  shows "\<forall>r \<in> set (dw_Routes t). catalog_route models r" "distinct (map rt_ModelID (dw_Routes t))"
proof -
  obtain n where n: "normalizeDataPlaneState (ce_parse env) \<lparr> dw_Revision = ''catalog-'', dw_Routes = deriveDataPlaneRoutes (ce_parse env) models \<rparr> = Some n"
    and t: "dw_Routes t = dw_Routes n" using assms by (auto simp: deriveCatalogState_def split: option.splits if_splits)
  show "\<forall>r \<in> set (dw_Routes t). catalog_route models r"
  proof
    fix r assume "r \<in> set (dw_Routes t)"
    with normalized_route_origin(2) [OF n] t obtain r0 where r0: "r0 \<in> set (deriveDataPlaneRoutes (ce_parse env) models)" "normalize_route (ce_parse env) r0 = Some r" by auto
    with derived_from [OF r0(1)] derive_normalizes have "r = r0" by blast
    with derived_catalog_route [OF r0(1)] show "catalog_route models r" by simp
  qed
  show "distinct (map rt_ModelID (dw_Routes t))" using n unfolding normalize_Some t by (auto simp: distinct_map)
qed

lemma catalog_route_sorted: "catalog_route (ListModels db) r \<longleftrightarrow> catalog_route (dp_models db) r"
  by (simp add: catalog_route_def ListModels_def)

lemma publish_Answered:
  assumes "publishDataPlaneRoutes env body db = (Answered row, db1)"
  obtains revision normalized where "deriveCatalogState env (ListModels db) revision = Some normalized" "dr_State row = normalized" "dp_models db1 = dp_models db"
    "dp_desired db1 = Some row \<or> db1 = db \<and> (\<exists>old. dp_desired db = Some old \<and> dr_ContentHash old = dataPlaneHash env normalized \<and> dr_ContentHash row = dr_ContentHash old)"
proof -
  obtain raw where b: "body = Some raw" using assms by (cases body) (simp_all add: publishDataPlaneRoutes_def split: if_splits)
  obtain normalized where n: "deriveCatalogState env (ListModels db) (trim_space raw) = Some normalized"
    using assms by (cases "deriveCatalogState env (ListModels db) (trim_space raw)") (simp_all add: publishDataPlaneRoutes_def b Let_def split: if_splits)
  have m: "dp_models db2 = dp_models db" if "store_desired env normalized db = (a, db2)" for a db2
    using that by (auto simp: store_desired_def Let_def split: if_splits)
  show thesis
  proof (cases "dp_desired db")
    case None
    then have "store_desired env normalized db = (Answered row, db1)" using assms by (simp add: publishDataPlaneRoutes_def b n Let_def split: if_splits)
    with store_desired_Answered [OF this] m that [OF n] show thesis by simp
  next
    case (Some old)
    then consider "store_desired env normalized db = (Answered row, db1)"
      | "dr_ContentHash old = dataPlaneHash env normalized" "dr_State row = normalized" "dr_ContentHash row = dr_ContentHash old" "db1 = db"
      using assms by (auto simp: publishDataPlaneRoutes_def b n Let_def split: if_splits)
    then show thesis
    proof cases
      case 1
      with store_desired_Answered [OF this] m that [OF n] show thesis by simp
    next
      case 2
      with Some that [OF n] show thesis by simp
    qed
  qed
qed

lemma put_Answered:
  assumes "putDataPlaneDesiredState env body db = (Answered row, db1)"
  obtains input where "normalizeDataPlaneState (ce_parse env) input = Some (dr_State row)" "dp_desired db1 = Some row"
    "\<forall>r \<in> set (dw_Routes (dr_State row)). route_from_catalog (deriveDataPlaneRoutes (ce_parse env) (ListModels db)) r"
proof -
  obtain input where b: "body = Some input" using assms by (cases body) (simp_all add: putDataPlaneDesiredState_def split: if_splits)
  obtain normalized where n: "normalizeDataPlaneState (ce_parse env) input = Some normalized"
    using assms by (cases "normalizeDataPlaneState (ce_parse env) input") (simp_all add: putDataPlaneDesiredState_def b split: if_splits)
  have "store_desired env normalized db = (Answered row, db1)" "list_all (route_from_catalog (deriveDataPlaneRoutes (ce_parse env) (ListModels db))) (dw_Routes normalized)"
    using assms by (simp_all add: putDataPlaneDesiredState_def b n split: if_splits)
  with store_desired_Answered [OF this(1)] n that show thesis by (simp add: list_all_iff)
qed

lemma by_model_distinct: "distinct (map rt_ModelID rs) \<Longrightarrow> r \<in> set rs \<Longrightarrow> by_model rs (rt_ModelID r) = Some r"
  unfolding by_model_def by (rule map_of_is_SomeI) (auto simp: comp_def rev_map [symmetric])

lemma compare_self: "distinct (map rt_ModelID rs) \<Longrightarrow> compareCatalogRoutes rs rs = \<lparr> cc_Missing = [], cc_Extra = [], cc_Mismatched = [] \<rparr>"
proof -
  assume d: "distinct (map rt_ModelID rs)"
  have "List.map_filter f rs = []" if "\<And>r. r \<in> set rs \<Longrightarrow> f r = None" for f :: "dataPlaneRoute \<Rightarrow> (string \<times> string list) option"
    using that by (induction rs) (auto simp: map_filter_simps)
  then show ?thesis using by_model_distinct [OF d] by (simp add: compareCatalogRoutes_def routeDiffFields_def filter_empty_conv)
qed

lemma derived_routes_unique: "deriveCatalogState env models r1 = Some s \<Longrightarrow> deriveCatalogState env models r2 = Some t \<Longrightarrow> dw_Routes s = dw_Routes t"
  by (auto simp: deriveCatalogState_def split: option.splits if_splits)

lemma derived_any: "deriveCatalogState env models r1 = Some s \<Longrightarrow> \<exists>t. deriveCatalogState env models r2 = Some t"
  by (auto simp: deriveCatalogState_def split: option.splits if_splits)

section \<open>A concrete catalog\<close>

definition demo_catalog :: data_plane_db where
  "demo_catalog = \<lparr> dp_models = [\<lparr> cm_ID = ''m1'', cm_Enabled = True, cm_SourceType = ''gateway'', cm_Protocol = ''openai-compatible'',
      cm_Endpoint = Some ''u'', cm_UpstreamModel = Some ''g'', cm_CredentialID = Some ''c'' \<rparr>], dp_desired = None, dp_status = None \<rparr>"

definition demo_catalog_env :: catalog_env where
  "demo_catalog_env = \<lparr> ce_parse = (\<lambda>_. None), ce_routes_json = (\<lambda>_. []), ce_state_json = (\<lambda>_. []), ce_ok = (\<lambda>_. True), ce_now = 0, ce_UsesGatewayOperator = False \<rparr>"

definition demo_route :: dataPlaneRoute where
  "demo_route = \<lparr> rt_ModelID = ''m1'', rt_Enabled = True, rt_Endpoint = ''u'', rt_UpstreamModel = ''g'', rt_Protocol = ''openai-compatible'',
     rt_ProviderType = ''openai'', rt_CredentialRef = Some \<lparr> ref_Name = ''aep-credential-c'', ref_Key = ''api-key'', ref_Namespace = None \<rparr> \<rparr>"

lemma demo_normal: "normalize_route (\<lambda>_. None) demo_route = Some demo_route"
  by code_simp

lemma demo_derived: "deriveDataPlaneRoutes (\<lambda>_. None) (ListModels demo_catalog) = [demo_route]"
  by code_simp

lemma demo_state: "trim_space ''r1'' = ''r1''"
  "deriveCatalogState demo_catalog_env (ListModels demo_catalog) ''r1'' = Some \<lparr> dw_Revision = ''r1'', dw_Routes = [demo_route] \<rparr>"
proof -
  have "normalizeDataPlaneState (\<lambda>_. None) \<lparr> dw_Revision = ''catalog-'', dw_Routes = [demo_route] \<rparr> = Some \<lparr> dw_Revision = ''catalog-'', dw_Routes = [demo_route] \<rparr>"
    unfolding normalize_Some by (intro conjI exI [of _ "[demo_route]"]) (simp_all add: demo_normal, code_simp)
  then show "deriveCatalogState demo_catalog_env (ListModels demo_catalog) ''r1'' = Some \<lparr> dw_Revision = ''r1'', dw_Routes = [demo_route] \<rparr>"
    by (simp add: deriveCatalogState_def demo_catalog_env_def demo_derived)
qed code_simp

lemma demo_publish: "\<exists>row db1. publishDataPlaneRoutes demo_catalog_env (Some ''r1'') demo_catalog = (Answered row, db1) \<and> dw_Routes (dr_State row) = [demo_route]"
  by (simp add: publishDataPlaneRoutes_def demo_state Let_def) (simp add: demo_catalog_env_def demo_catalog_def store_desired_def Let_def)

section \<open>Properties\<close>

text \<open>
  (C21) The stored routes cannot be pointed elsewhere. After a desired state was written by hand or
  published from the catalog, each of its routes belongs to a gateway model of the catalog, uses that
  model's endpoint, and reads only the Secret of the credential bound to the model.
\<close>

theorem desired_state_follows_catalog:
  assumes "putDataPlaneDesiredState env body db = (Answered row, db1) \<or> publishDataPlaneRoutes env revision db = (Answered row, db1)"
    and nul: "\<forall>m \<in> set (dp_models db). \<forall>c. cm_CredentialID m = Some c \<longrightarrow> CHR 0x00 \<notin> set c"
  shows "(\<forall>r \<in> set (dw_Routes (dr_State row)). catalog_route (dp_models db) r)
    \<and> (dp_desired db1 = Some row \<or> db1 = db \<and> (\<exists>old. dp_desired db = Some old \<and> dr_ContentHash old = dr_ContentHash row))"
  using assms(1)
proof
  assume "putDataPlaneDesiredState env body db = (Answered row, db1)"
  then obtain input where i: "normalizeDataPlaneState (ce_parse env) input = Some (dr_State row)" "dp_desired db1 = Some row"
    "\<forall>r \<in> set (dw_Routes (dr_State row)). route_from_catalog (deriveDataPlaneRoutes (ce_parse env) (ListModels db)) r" by (rule put_Answered)
  have "catalog_route (ListModels db) r" if "r \<in> set (dw_Routes (dr_State row))" for r
    using checked_catalog_route [OF _ normalized_route_origin(1) [OF i(1) that]] i(3) that nul by (simp add: ListModels_def)
  with i(2) show ?thesis by (simp add: catalog_route_sorted)
next
  assume "publishDataPlaneRoutes env revision db = (Answered row, db1)"
  then obtain rev where "deriveCatalogState env (ListModels db) rev = Some (dr_State row)"
    and d: "dp_desired db1 = Some row \<or> db1 = db \<and> (\<exists>old. dp_desired db = Some old \<and> dr_ContentHash old = dataPlaneHash env (dr_State row) \<and> dr_ContentHash row = dr_ContentHash old)"
    by (rule publish_Answered) blast
  from derived_state_routes(1) [OF this(1)] d show ?thesis by (auto simp: catalog_route_sorted)
qed

theorem desired_state_follows_catalog_witness:
  "\<exists>row db1. publishDataPlaneRoutes demo_catalog_env (Some ''r1'') demo_catalog = (Answered row, db1)
     \<and> (\<forall>r \<in> set (dw_Routes (dr_State row)). catalog_route (dp_models demo_catalog) r) \<and> dw_Routes (dr_State row) = [demo_route]"
proof -
  obtain row db1 where p: "publishDataPlaneRoutes demo_catalog_env (Some ''r1'') demo_catalog = (Answered row, db1)" "dw_Routes (dr_State row) = [demo_route]"
    using demo_publish by blast
  have n: "\<forall>m \<in> set (dp_models demo_catalog). \<forall>c. cm_CredentialID m = Some c \<longrightarrow> CHR 0x00 \<notin> set c" by (simp add: demo_catalog_def)
  from conjunct1 [OF desired_state_follows_catalog [OF disjI2 [OF p(1)] n]] p show ?thesis by blast
qed

text \<open>
  (C39) Directly after a publication the comparison with the catalog reports nothing missing, extra or
  different, unless another state with the same content hash was stored before.
\<close>

theorem publish_leaves_no_drift:
  assumes "publishDataPlaneRoutes env revision db = (Answered row, db1)"
    "ce_ok env' ''list models''" "ce_ok env' ''read desired state''" "ce_parse env' = ce_parse env" "ce_routes_json env' = ce_routes_json env"
  shows "catalogComparison env' db1 = Some \<lparr> cc_Missing = [], cc_Extra = [], cc_Mismatched = [] \<rparr>
    \<or> (\<exists>old. dp_desired db = Some old \<and> dr_State old \<noteq> dr_State row \<and> dr_ContentHash old = dataPlaneHash env (dr_State row))"
proof -
  obtain rev where n: "deriveCatalogState env (ListModels db) rev = Some (dr_State row)" "dp_models db1 = dp_models db"
    and d: "dp_desired db1 = Some row \<or> db1 = db \<and> (\<exists>old. dp_desired db = Some old \<and> dr_ContentHash old = dataPlaneHash env (dr_State row) \<and> dr_ContentHash row = dr_ContentHash old)"
    using assms(1) by (rule publish_Answered) blast
  obtain t where t: "deriveCatalogState env (ListModels db) [] = Some t" using derived_any [OF n(1)] by blast
  have t': "deriveCatalogState env' (ListModels db1) [] = Some t" using t n(2) assms(4,5) by (auto simp: deriveCatalogState_def ListModels_def split: option.splits)
  show ?thesis
  proof (cases "\<exists>s. dp_desired db1 = Some s \<and> dr_State s = dr_State row")
    case True
    then obtain s where s: "dp_desired db1 = Some s" "dr_State s = dr_State row" by blast
    have "catalogComparison env' db1 = Some (compareCatalogRoutes (dw_Routes (dr_State row)) (dw_Routes (dr_State row)))"
      using assms(2,3) t' s derived_routes_unique [OF t n(1)] by (simp add: catalogComparison_def)
    with compare_self [OF derived_state_routes(2) [OF n(1)]] show ?thesis by simp
  next
    case False
    with d show ?thesis by auto
  qed
qed

theorem publish_leaves_no_drift_witness:
  "\<exists>row db1. publishDataPlaneRoutes demo_catalog_env (Some ''r1'') demo_catalog = (Answered row, db1)
     \<and> catalogComparison demo_catalog_env db1 = Some \<lparr> cc_Missing = [], cc_Extra = [], cc_Mismatched = [] \<rparr>"
proof -
  obtain row db1 where p: "publishDataPlaneRoutes demo_catalog_env (Some ''r1'') demo_catalog = (Answered row, db1)" using demo_publish by blast
  have "ce_ok demo_catalog_env ''list models''" "ce_ok demo_catalog_env ''read desired state''" "dp_desired demo_catalog = None"
    by (simp_all add: demo_catalog_env_def demo_catalog_def)
  with publish_leaves_no_drift [OF p this(1,2) refl refl] p show ?thesis by auto
qed

text \<open>
  Normalizing a desired state is canonical: the result is ordered, has one route per model, does not
  depend on the order of the routes, and is left alone by normalizing again.
\<close>

theorem normal_form_is_canonical:
  assumes "normalizeDataPlaneState parse_url s = Some t"
  shows "normalizeDataPlaneState parse_url t = Some t
    \<and> (\<forall>rs. mset rs = mset (dw_Routes s) \<longrightarrow> normalizeDataPlaneState parse_url (s \<lparr> dw_Routes := rs \<rparr>) = Some t)
    \<and> sorted (map rt_ModelID (dw_Routes t)) \<and> distinct (map rt_ModelID (dw_Routes t)) \<and> length (dw_Routes t) \<le> 500"
proof -
  obtain rs where "map (normalize_route parse_url) (dw_Routes s) = map Some rs" "distinct (map rt_ModelID rs)" "length (dw_Routes s) \<le> 500"
    "t = \<lparr> dw_Revision = dw_Revision s, dw_Routes = sort_key rt_ModelID rs \<rparr>" using assms unfolding normalize_Some by blast
  moreover from this(1) have "length rs = length (dw_Routes s)" by (metis length_map)
  ultimately have "sorted (map rt_ModelID (dw_Routes t)) \<and> distinct (map rt_ModelID (dw_Routes t)) \<and> length (dw_Routes t) \<le> 500"
    by (simp add: distinct_map)
  with normalize_idem [OF assms] normalize_order [OF assms] show ?thesis by blast
qed

theorem normal_form_is_canonical_witness:
  "normalizeDataPlaneState (\<lambda>_. None) \<lparr> dw_Revision = ''r1'', dw_Routes = [demo_route] \<rparr> = Some \<lparr> dw_Revision = ''r1'', dw_Routes = [demo_route] \<rparr>
   \<and> sorted (map rt_ModelID [demo_route])"
proof -
  have n: "normalizeDataPlaneState (\<lambda>_. None) \<lparr> dw_Revision = ''r1'', dw_Routes = [demo_route] \<rparr> = Some \<lparr> dw_Revision = ''r1'', dw_Routes = [demo_route] \<rparr>"
    unfolding normalize_Some by (intro conjI exI [of _ "[demo_route]"]) (simp_all add: demo_normal, code_simp)
  with normal_form_is_canonical [OF n] show ?thesis by simp
qed

end
