(* ===== verification/Publications.thy ===== *)
theory Publications
  imports Catalog Rbac_Store
begin

text \<open>
  Asynchronous publications of one deployment: the queue, the outbox with its claims and leases, reference
  invalidation and replay (\<^verbatim>\<open>internal/repository/data_plane_publications.go\<close>,
  \<^verbatim>\<open>publication_delivery.go\<close>, \<^verbatim>\<open>publication_invalidation.go\<close>,
  \<^verbatim>\<open>publication_replay.go\<close>), the handlers \<^verbatim>\<open>data_plane_publications.go\<close> and
  \<^verbatim>\<open>data_plane_replay.go\<close>, and the route worker of \<^verbatim>\<open>internal/publicationrelay/worker.go\<close>.
  A transaction is one step: the advisory locks and the row locks of its statements order the transactions
  of all workers and requests. The JSON column of a snapshot is kept as the value it decodes to.
\<close>

section \<open>Tables\<close>

datatype publication_error =
    ErrPublicationNotFound
  | ErrPublicationKeyConflict
  | ErrPublicationRevisionConflict
  | ErrPublicationSnapshot
  | ErrPublicationNotLatest
  | ErrPublicationReferencesChanged
  | ErrPublicationClaimLost
  | ErrPublicationPhase
  | PublicationStore

record gateway_snapshot =
  gs_Revision :: string
  gs_Routes :: "dataPlaneRoute list"
  gs_GatewayLimits :: "Limit list option"

record PublicationSnapshot =
  sn_Revision :: string
  sn_ContentHash :: string
  sn_Payload :: gateway_snapshot

record DataPlanePublication =
  pub_OperationID :: string
  pub_Sequence :: int
  pub_IdempotencyKeyHash :: string
  pub_RequestHash :: string
  pub_Revision :: string
  pub_ContentHash :: string
  pub_Phase :: string
  pub_ErrorCode :: "string option"
  pub_CreatedAt :: time
  pub_UpdatedAt :: time
  pub_IdempotencyExpiresAt :: time

record publicationOutbox =
  ob_OperationID :: string
  ob_ClaimToken :: "string option"
  ob_LeaseUntil :: "time option"
  ob_Attempts :: nat
  ob_NextAttemptAt :: time
  ob_CompletedAt :: "time option"

text \<open>\<open>pd_sequence\<close> is the last item drawn from the shared sequence, \<open>pd_signal\<close> the version of the
  reference signal with its acknowledged version, \<open>pd_removals\<close> the removed models with the last
  sequence at that time, and \<open>pd_fenced\<close> names the rules invalidated by a removed reference.\<close>

record publication_db =
  pd_snapshots :: "PublicationSnapshot list"
  pd_publications :: "DataPlanePublication list"
  pd_outbox :: "publicationOutbox list"
  pd_sequence :: int
  pd_signal :: "(int \<times> int) option"
  pd_removals :: "(string \<times> int) list"
  pd_models :: "catalog_model list"
  pd_limits :: "(string \<times> limit_row) list"
  pd_fenced :: "string list"
  pd_audit :: "(string \<times> string \<times> string) list"

text \<open>\<open>pe_skip\<close> counts the numbers other deployments and failed transactions drew from the sequence in the
  meantime; \<open>pe_locked\<close> is the answer of \<^verbatim>\<open>pg_try_advisory_xact_lock\<close>.\<close>

record publication_env =
  pe_ok :: "string \<Rightarrow> bool"
  pe_locked :: bool
  pe_now :: time
  pe_uuid :: "string \<Rightarrow> string"
  pe_skip :: nat
  pe_catalog :: catalog_env
  pe_json :: "gateway_snapshot \<Rightarrow> string"

abbreviation pstmt :: "publication_env \<Rightarrow> string \<Rightarrow> publication_error + unit" where
  "pstmt env q \<equiv> ensure (pe_ok env q) PublicationStore"

definition publicationDigest :: "string \<Rightarrow> string" where
  "publicationDigest x = hex (sha256 x)"

definition pending :: "string \<Rightarrow> bool" where
  "pending phase \<longleftrightarrow> phase = ''queued'' \<or> phase = ''projecting''"

section \<open>Queueing\<close>

definition newest :: "publication_db \<Rightarrow> DataPlanePublication option" where
  "newest db = find (\<lambda>p. list_all (\<lambda>q. pub_Sequence q \<le> pub_Sequence p) (pd_publications db)) (pd_publications db)"

definition LatestDataPlanePublication :: "publication_env \<Rightarrow> publication_db \<Rightarrow> publication_error + DataPlanePublication" where
  "LatestDataPlanePublication env db =
     bindS (pstmt env ''latest publication'') (\<lambda>_. case newest db of None \<Rightarrow> Inl ErrPublicationNotFound | Some p \<Rightarrow> Inr p)"

definition GetDataPlanePublication :: "publication_env \<Rightarrow> string \<Rightarrow> publication_db \<Rightarrow> publication_error + DataPlanePublication" where
  "GetDataPlanePublication env op db =
     bindS (pstmt env ''get publication'') (\<lambda>_.
     case find (\<lambda>p. pub_OperationID p = op) (pd_publications db) of None \<Rightarrow> Inl ErrPublicationNotFound | Some p \<Rightarrow> Inr p)"

definition snapshot_of :: "publication_db \<Rightarrow> string \<Rightarrow> string \<Rightarrow> PublicationSnapshot option" where
  "snapshot_of db revision hash = find (\<lambda>s. sn_Revision s = revision \<and> sn_ContentHash s = hash) (pd_snapshots db)"

definition latest_snapshot :: "publication_db \<Rightarrow> gateway_snapshot option" where
  "latest_snapshot db =
     (case newest db of None \<Rightarrow> None | Some p \<Rightarrow> map_option sn_Payload (snapshot_of db (pub_Revision p) (pub_ContentHash p)))"

text \<open>The constraint of the hash columns.\<close>

definition hash_ok :: "string \<Rightarrow> bool" where
  "hash_ok h \<longleftrightarrow> length h = 64 \<and> list_all is_hex h"

definition insertPublication ::
  "publication_env \<Rightarrow> string \<Rightarrow> string \<Rightarrow> string \<Rightarrow> PublicationSnapshot \<Rightarrow> publication_db \<Rightarrow> publication_error + (DataPlanePublication \<times> publication_db)" where
  "insertPublication env keyHash requestHash actor snapshot db =
     bindS (ensure (pe_ok env ''insert snapshot'' \<and> 1 \<le> rune_count (sn_Revision snapshot) \<and> rune_count (sn_Revision snapshot) \<le> 200
             \<and> hash_ok (sn_ContentHash snapshot)) PublicationStore) (\<lambda>_.
     (let snapshots1 = (if list_ex (\<lambda>s. sn_Revision s = sn_Revision snapshot) (pd_snapshots db) then pd_snapshots db else pd_snapshots db @ [snapshot]) in
      bindS (pstmt env ''read snapshot'') (\<lambda>_.
      case find (\<lambda>s. sn_Revision s = sn_Revision snapshot) snapshots1 of
        None \<Rightarrow> Inl ErrPublicationNotFound
      | Some existing \<Rightarrow>
          bindS (ensure (sn_ContentHash existing = sn_ContentHash snapshot) ErrPublicationRevisionConflict) (\<lambda>_.
          (let op = pe_uuid env ''operation'';
               row = \<lparr> pub_OperationID = op, pub_Sequence = pd_sequence db + 1 + int (pe_skip env), pub_IdempotencyKeyHash = keyHash,
                       pub_RequestHash = requestHash, pub_Revision = sn_Revision snapshot, pub_ContentHash = sn_ContentHash snapshot,
                       pub_Phase = ''queued'', pub_ErrorCode = None, pub_CreatedAt = pe_now env, pub_UpdatedAt = pe_now env,
                       pub_IdempotencyExpiresAt = pe_now env + 24 * hour \<rparr> in
           bindS (ensure (pe_ok env ''insert publication'' \<and> hash_ok keyHash \<and> hash_ok requestHash
             \<and> \<not> list_ex (\<lambda>p. pub_OperationID p = op \<or> pub_IdempotencyKeyHash p = keyHash) (pd_publications db)) PublicationStore) (\<lambda>_.
           bindS (pstmt env ''audit'') (\<lambda>_.
           bindS (pstmt env ''insert outbox'') (\<lambda>_.
           Inr (row, db \<lparr> pd_snapshots := snapshots1, pd_publications := pd_publications db @ [row], pd_sequence := pub_Sequence row,
                           pd_outbox := pd_outbox db @ [\<lparr> ob_OperationID = op, ob_ClaimToken = None, ob_LeaseUntil = None, ob_Attempts = 0,
                                                          ob_NextAttemptAt = pe_now env, ob_CompletedAt = None \<rparr>],
                           pd_audit := pd_audit db @ [(actor, ''publish'', op)] \<rparr>)))))))))"

definition committed :: "publication_env \<Rightarrow> publication_error + 'a \<Rightarrow> publication_error + 'a" where
  "committed env m = bindS (pstmt env ''begin'') (\<lambda>_. bindS m (\<lambda>x. bindS (pstmt env ''commit'') (\<lambda>_. Inr x)))"

text \<open>The lookup of the idempotency key: a bound key answers with its publication or refuses.\<close>

definition by_key :: "string \<Rightarrow> string \<Rightarrow> publication_db \<Rightarrow> (publication_error + DataPlanePublication) option" where
  "by_key keyHash requestHash db =
     map_option (\<lambda>p. if pub_RequestHash p \<noteq> requestHash then Inl ErrPublicationKeyConflict else Inr p)
       (find (\<lambda>p. pub_IdempotencyKeyHash p = keyHash) (pd_publications db))"

definition queuePublication ::
  "publication_env \<Rightarrow> string \<Rightarrow> string \<Rightarrow> string \<Rightarrow> bool \<Rightarrow> (publication_db \<Rightarrow> catalog_model list \<Rightarrow> publication_error + PublicationSnapshot) \<Rightarrow> publication_db
     \<Rightarrow> publication_error + (DataPlanePublication \<times> publication_db)" where
  "queuePublication env keyHash requestHash actor lockNative derive db =
     committed env (
       bindS (pstmt env ''lock publication'') (\<lambda>_.
       bindS (pstmt env ''find key'') (\<lambda>_.
       case by_key keyHash requestHash db of
         Some r \<Rightarrow> bindS r (\<lambda>p. Inr (p, db))
       | None \<Rightarrow>
           bindS (ensure (lockNative \<longrightarrow> pe_ok env ''lock native'') PublicationStore) (\<lambda>_.
           bindS (pstmt env ''list models'') (\<lambda>_.
           bindS (derive db (sort_key cm_ID (pd_models db))) (\<lambda>snapshot.
           insertPublication env keyHash requestHash actor snapshot db))))))"

definition QueueDataPlanePublication ::
  "publication_env \<Rightarrow> string \<Rightarrow> string \<Rightarrow> string \<Rightarrow> (catalog_model list \<Rightarrow> publication_error + PublicationSnapshot) \<Rightarrow> publication_db
     \<Rightarrow> publication_error + (DataPlanePublication \<times> publication_db)" where
  "QueueDataPlanePublication env keyHash requestHash actor derive db =
     queuePublication env keyHash requestHash actor False (\<lambda>_ models. derive models) db"

definition QueueGatewayPublication ::
  "publication_env \<Rightarrow> string \<Rightarrow> string \<Rightarrow> string \<Rightarrow> bool \<Rightarrow> (catalog_model list \<Rightarrow> Limit list option \<Rightarrow> publication_error + PublicationSnapshot) \<Rightarrow> publication_db
     \<Rightarrow> publication_error + (DataPlanePublication \<times> publication_db)" where
  "QueueGatewayPublication env keyHash requestHash actor includeLimits derive db =
     queuePublication env keyHash requestHash actor True
       (\<lambda>db models.
          if includeLimits then bindS (pstmt env ''list limits'') (\<lambda>_. derive models (Some (GatewayLimits True (pd_limits db))))
          else bindS (pstmt env ''prior snapshot'') (\<lambda>_.
               derive models (case latest_snapshot db of None \<Rightarrow> None | Some s \<Rightarrow> gs_GatewayLimits s))) db"

definition ReplayDataPlanePublication ::
  "publication_env \<Rightarrow> string \<Rightarrow> string \<Rightarrow> string \<Rightarrow> string \<Rightarrow> publication_db \<Rightarrow> publication_error + (DataPlanePublication \<times> publication_db)" where
  "ReplayDataPlanePublication env sourceID keyHash requestHash actor db =
     committed env (
       bindS (pstmt env ''lock publication'') (\<lambda>_.
       bindS (pstmt env ''find key'') (\<lambda>_.
       case by_key keyHash requestHash db of
         Some r \<Rightarrow> bindS r (\<lambda>p. Inr (p, db))
       | None \<Rightarrow>
           bindS (pstmt env ''lock native'') (\<lambda>_.
           bindS (GetDataPlanePublication env sourceID db) (\<lambda>source.
           bindS (LatestDataPlanePublication env db) (\<lambda>latest.
           bindS (ensure (pub_OperationID latest = pub_OperationID source \<and> pub_Sequence latest = pub_Sequence source) ErrPublicationNotLatest) (\<lambda>_.
           bindS (pstmt env ''pending signal'') (\<lambda>_.
           bindS (ensure (case pd_signal db of None \<Rightarrow> True | Some (version, acknowledged) \<Rightarrow> \<not> version > acknowledged) ErrPublicationReferencesChanged) (\<lambda>_.
           bindS (pstmt env ''source snapshot'') (\<lambda>_.
           case snapshot_of db (pub_Revision source) (pub_ContentHash source) of
             None \<Rightarrow> Inl ErrPublicationNotFound
           | Some snapshot \<Rightarrow> insertPublication env keyHash requestHash actor snapshot db))))))))))"

section \<open>Delivery\<close>

record PublicationDelivery =
  pd_Publication :: DataPlanePublication
  pd_ClaimToken :: string
  pd_Payload :: gateway_snapshot
  pd_HistoricalRoutes :: "dataPlaneRoute list"

definition route_history :: "publication_db \<Rightarrow> int \<Rightarrow> (dataPlaneRoute \<times> int) list" where
  "route_history db bound =
     concat (map (\<lambda>p. case snapshot_of db (pub_Revision p) (pub_ContentHash p) of
                        None \<Rightarrow> []
                      | Some s \<Rightarrow> map (\<lambda>r. (r, pub_Sequence p)) (gs_Routes (sn_Payload s)))
              (filter (\<lambda>p. pub_Sequence p \<le> bound) (pd_publications db)))"

definition historical_routes :: "publication_db \<Rightarrow> int \<Rightarrow> dataPlaneRoute list" where
  "historical_routes db bound =
     (let pairs = route_history db bound;
          latest_of = filter (\<lambda>(r, s). list_all (\<lambda>(r', s'). r' = r \<longrightarrow> s' \<le> s) pairs) pairs in
      map fst (sort_key snd (sort_key (\<lambda>(r, _). rt_ModelID r) (remdups latest_of))))"

definition publicationInputs :: "publication_env \<Rightarrow> DataPlanePublication \<Rightarrow> publication_db \<Rightarrow> publication_error + (gateway_snapshot \<times> dataPlaneRoute list)" where
  "publicationInputs env item db =
     bindS (pstmt env ''read payload'') (\<lambda>_.
     case snapshot_of db (pub_Revision item) (pub_ContentHash item) of
       None \<Rightarrow> Inl ErrPublicationNotFound
     | Some s \<Rightarrow> bindS (pstmt env ''read history'') (\<lambda>_. Inr (sn_Payload s, historical_routes db (pub_Sequence item))))"

definition supersede :: "time \<Rightarrow> int \<Rightarrow> publication_db \<Rightarrow> publication_db" where
  "supersede now latest db =
     (let publications1 = map (\<lambda>p. if pub_Sequence p < latest \<and> pending (pub_Phase p) then p \<lparr> pub_Phase := ''superseded'', pub_UpdatedAt := now \<rparr> else p)
                            (pd_publications db) in
      db \<lparr> pd_publications := publications1,
           pd_outbox := map (\<lambda>o'. if list_ex (\<lambda>p. pub_OperationID p = ob_OperationID o' \<and> pub_Phase p = ''superseded'') publications1 \<and> ob_CompletedAt o' = None
                                  then o' \<lparr> ob_CompletedAt := Some now, ob_ClaimToken := None, ob_LeaseUntil := None \<rparr> else o') (pd_outbox db) \<rparr>)"

definition claimable :: "time \<Rightarrow> string \<Rightarrow> publicationOutbox \<Rightarrow> bool" where
  "claimable now op o' \<longleftrightarrow> ob_OperationID o' = op \<and> ob_CompletedAt o' = None \<and> ob_NextAttemptAt o' \<le> now
     \<and> (case ob_LeaseUntil o' of None \<Rightarrow> True | Some l \<Rightarrow> l \<le> now)"

definition ClaimDataPlanePublication :: "publication_env \<Rightarrow> publication_db \<Rightarrow> publication_error + (PublicationDelivery option \<times> publication_db)" where
  "ClaimDataPlanePublication env db =
     committed env (
       bindS (pstmt env ''lock publication'') (\<lambda>_.
       if \<not> pe_locked env then Inr (None, db)
       else bindS (pstmt env ''latest publication'') (\<lambda>_.
         case newest db of
           None \<Rightarrow> Inr (None, db)
         | Some latest \<Rightarrow>
             bindS (pstmt env ''supersede'') (\<lambda>_.
             (let db1 = supersede (pe_now env) (pub_Sequence latest) db;
                  token = pe_uuid env ''claim'';
                  op = pub_OperationID latest in
              if \<not> pending (pub_Phase latest) then Inr (None, db1)
              else bindS (pstmt env ''claim'') (\<lambda>_.
                if \<not> list_ex (claimable (pe_now env) op) (pd_outbox db1) then Inr (None, db1)
                else
                 (let db2 = db1 \<lparr> pd_outbox := map (\<lambda>o'. if claimable (pe_now env) op o'
                                    then o' \<lparr> ob_ClaimToken := Some token, ob_LeaseUntil := Some (pe_now env + 30 * second), ob_Attempts := ob_Attempts o' + 1 \<rparr>
                                    else o') (pd_outbox db1),
                                  pd_publications := map (\<lambda>p. if pub_OperationID p = op then p \<lparr> pub_Phase := ''projecting'', pub_UpdatedAt := pe_now env \<rparr> else p)
                                    (pd_publications db1) \<rparr> in
                  bindS (pstmt env ''project'') (\<lambda>_.
                  bindS (publicationInputs env latest db2) (\<lambda>(payload, history).
                  Inr (Some \<lparr> pd_Publication = latest \<lparr> pub_Phase := ''projecting'' \<rparr>, pd_ClaimToken = token, pd_Payload = payload,
                              pd_HistoricalRoutes = history \<rparr>, db2))))))))))"

definition IsLatestDataPlanePublication :: "publication_env \<Rightarrow> DataPlanePublication \<Rightarrow> publication_db \<Rightarrow> publication_error + bool" where
  "IsLatestDataPlanePublication env item db =
     bindS (pstmt env ''is latest'') (\<lambda>_.
     Inr (list_ex (\<lambda>p. pub_OperationID p = pub_OperationID item \<and> pub_Sequence p = pub_Sequence item \<and> pub_Phase p = ''projected''
            \<and> \<not> list_ex (\<lambda>q. pub_Sequence q > pub_Sequence p) (pd_publications db)) (pd_publications db)))"

definition error_code_ok :: "string \<Rightarrow> bool" where
  "error_code_ok code \<longleftrightarrow> code \<noteq> [] \<and> is_upper (hd code) \<and> length code \<le> 100 \<and> list_all (\<lambda>c. is_upper c \<or> is_digit c \<or> c = CHR ''_'') code"

definition finishable :: "time \<Rightarrow> string \<Rightarrow> string \<Rightarrow> publication_db \<Rightarrow> publicationOutbox \<Rightarrow> bool" where
  "finishable now op token db o' \<longleftrightarrow> ob_OperationID o' = op \<and> ob_ClaimToken o' = Some token
     \<and> (case ob_LeaseUntil o' of None \<Rightarrow> False | Some l \<Rightarrow> l > now) \<and> ob_CompletedAt o' = None
     \<and> list_ex (\<lambda>p. pub_OperationID p = op \<and> pub_Phase p = ''projecting'' \<and> \<not> list_ex (\<lambda>q. pub_Sequence q > pub_Sequence p) (pd_publications db)) (pd_publications db)"

definition FinishDataPlanePublication ::
  "publication_env \<Rightarrow> string \<Rightarrow> string \<Rightarrow> string \<Rightarrow> string \<Rightarrow> duration \<Rightarrow> publication_db \<Rightarrow> publication_error + publication_db" where
  "FinishDataPlanePublication env op token phase code retryAfter db =
     (if phase \<notin> {[], ''projected'', ''failed'', ''superseded''} then Inl ErrPublicationPhase
      else committed env (
        bindS (pstmt env ''finish outbox'') (\<lambda>_.
        (let mine = finishable (pe_now env) op token db in
         bindS (ensure (length (filter mine (pd_outbox db)) = 1) ErrPublicationClaimLost) (\<lambda>_.
         bindS (ensure (pe_ok env ''finish publication'' \<and> (phase = ''failed'' \<longrightarrow> error_code_ok code)) PublicationStore) (\<lambda>_.
         Inr (db \<lparr> pd_outbox := map (\<lambda>o'. if mine o' then o' \<lparr> ob_ClaimToken := None, ob_LeaseUntil := None,
                       ob_NextAttemptAt := pe_now env + go_div retryAfter 1000000 * 1000000,
                       ob_CompletedAt := (if phase = [] then None else Some (pe_now env)) \<rparr> else o') (pd_outbox db),
                     pd_publications := map (\<lambda>p. if pub_OperationID p = op then p \<lparr> pub_Phase := (if phase = [] then ''queued'' else phase),
                         pub_ErrorCode := (if phase = ''failed'' then Some code else None), pub_UpdatedAt := pe_now env \<rparr> else p) (pd_publications db) \<rparr>)))))))"

section \<open>Removed references\<close>

definition invalidate_route :: "string list \<Rightarrow> string list \<Rightarrow> dataPlaneRoute \<Rightarrow> dataPlaneRoute" where
  "invalidate_route ids removed r =
     (if rt_Enabled r \<and> \<not> (rt_ModelID r \<in> set ids \<and> rt_ModelID r \<notin> set removed) then r \<lparr> rt_Enabled := False \<rparr> else r)"

definition fence_of :: "(string \<times> limit_row) list \<Rightarrow> string \<Rightarrow> limit_row option" where
  "fence_of fences i = map_of (rev fences) i"

definition invalidate_limit :: "(string \<times> limit_row) list \<Rightarrow> Limit \<Rightarrow> Limit" where
  "invalidate_limit fences item =
     (case fence_of fences (lim_ID item) of
        None \<Rightarrow> item
      | Some fence \<Rightarrow>
          if lr_Version fence \<ge> lim_Version item \<and> (cfg_Enabled (lim_Configuration item) \<or> lr_Version fence > lim_Version item)
          then item \<lparr> lim_Configuration := (lim_Configuration item) \<lparr> cfg_Enabled := False \<rparr>, lim_Version := lr_Version fence, lim_UpdatedAt := lr_UpdatedAt fence \<rparr>
          else item)"

definition limit_invalid :: "(string \<times> limit_row) list \<Rightarrow> Limit \<Rightarrow> bool" where
  "limit_invalid fences item \<longleftrightarrow>
     (case fence_of fences (lim_ID item) of
        None \<Rightarrow> False
      | Some fence \<Rightarrow> lr_Version fence \<ge> lim_Version item \<and> (cfg_Enabled (lim_Configuration item) \<or> lr_Version fence > lim_Version item))"

definition invalidateSelected :: "gateway_snapshot \<Rightarrow> string list \<Rightarrow> string list \<Rightarrow> (string \<times> limit_row) list \<Rightarrow> bool \<times> gateway_snapshot" where
  "invalidateSelected state ids removed fences =
     (list_ex (\<lambda>r. rt_Enabled r \<and> \<not> (rt_ModelID r \<in> set ids \<and> rt_ModelID r \<notin> set removed)) (gs_Routes state)
        \<or> (case gs_GatewayLimits state of None \<Rightarrow> False | Some limits \<Rightarrow> list_ex (limit_invalid fences) limits),
      state \<lparr> gs_Routes := map (invalidate_route ids removed) (gs_Routes state),
              gs_GatewayLimits := map_option (map (invalidate_limit fences)) (gs_GatewayLimits state) \<rparr>)"

definition reference_snapshot :: "publication_env \<Rightarrow> gateway_snapshot \<Rightarrow> PublicationSnapshot" where
  "reference_snapshot env state =
     (let state1 = state \<lparr> gs_Revision := ''gateway-reference-'' @ publicationDigest (pe_json env (state \<lparr> gs_Revision := ''gateway-reference-'' \<rparr>)) \<rparr> in
      \<lparr> sn_Revision = gs_Revision state1, sn_ContentHash = publicationDigest (pe_json env state1), sn_Payload = state1 \<rparr>)"

definition publish_invalidation :: "publication_env \<Rightarrow> gateway_snapshot \<Rightarrow> int \<Rightarrow> publication_db \<Rightarrow> publication_error + publication_db" where
  "publish_invalidation env state sequence db =
     bindS (ensure (pe_ok env ''model ids'' \<and> pe_ok env ''removals'' \<and> (gs_GatewayLimits state \<noteq> None \<longrightarrow> pe_ok env ''fences'')) PublicationStore) (\<lambda>_.
     (let ids = map cm_ID (pd_models db);
          removed = [m. (m, s) \<leftarrow> pd_removals db, s \<ge> sequence];
          fences = (if gs_GatewayLimits state \<noteq> None then filter (\<lambda>(i, _). i \<in> set (pd_fenced db)) (pd_limits db) else []) in
      case invalidateSelected state ids removed fences of (changed, state1) \<Rightarrow>
        if \<not> changed then Inr db
        else bindS (insertPublication env (publicationDigest (pe_uuid env ''key'')) (publicationDigest ''reference-removal'') [] (reference_snapshot env state1) db) (\<lambda>(item, db1).
             bindS (pstmt env ''audit invalidation'') (\<lambda>_.
             Inr (db1 \<lparr> pd_audit := pd_audit db1 @ [([], ''invalidate'', pub_OperationID item)] \<rparr>)))))"

definition QueueReferenceInvalidations :: "publication_env \<Rightarrow> publication_db \<Rightarrow> publication_error + publication_db" where
  "QueueReferenceInvalidations env db =
     committed env (
       bindS (pstmt env ''lock publication'') (\<lambda>_.
       if \<not> pe_locked env then Inr db
       else bindS (pstmt env ''lock native'') (\<lambda>_.
            bindS (pstmt env ''read signal'') (\<lambda>_.
            case pd_signal db of
              None \<Rightarrow> Inr db
            | Some (version, acknowledged) \<Rightarrow>
                if \<not> version > acknowledged then Inr db
                else bindS (pstmt env ''latest snapshot'') (\<lambda>_.
                     bindS (case (newest db, latest_snapshot db) of
                              (Some p, Some state) \<Rightarrow> publish_invalidation env state (pub_Sequence p) db
                            | _ \<Rightarrow> Inr db) (\<lambda>db1.
                     bindS (pstmt env ''acknowledge'') (\<lambda>_.
                     Inr (db1 \<lparr> pd_signal := Some (version, version) \<rparr>))))))))"

section \<open>Handlers\<close>

definition publicationKey_ok :: "string \<Rightarrow> bool" where
  "publicationKey_ok k \<longleftrightarrow> 1 \<le> length k \<and> length k \<le> 128 \<and> list_all (\<lambda>c. is_alnum c \<or> c \<in> set ''._:-'') k"

record publicationRequest =
  pr_Revision :: "string option"
  pr_IncludeGatewayLimits :: bool

definition limit_in_snapshot :: "dataPlaneRoute list \<Rightarrow> Limit \<Rightarrow> bool" where
  "limit_in_snapshot routes item \<longleftrightarrow>
     ValidID (lim_ID item) \<and> lim_Version item \<ge> 1 \<and> Configuration_Valid (lim_Configuration item)
     \<and> (let cfg = lim_Configuration item; model = (if cfg_ScopeType cfg = ''model'' then cfg_ScopeID cfg else cfg_ModelID cfg) in
        cfg_Enabled cfg \<longrightarrow> (case model of None \<Rightarrow> True | Some m \<Rightarrow> m \<in> rt_ModelID ` set routes))"

definition capture_snapshot :: "publication_env \<Rightarrow> publicationRequest \<Rightarrow> catalog_model list \<Rightarrow> Limit list option \<Rightarrow> publication_error + PublicationSnapshot" where
  "capture_snapshot env input models limits =
     (case deriveCatalogState (pe_catalog env) models (case pr_Revision input of None \<Rightarrow> [] | Some r \<Rightarrow> r) of
        None \<Rightarrow> Inl ErrPublicationSnapshot
      | Some state \<Rightarrow>
          if \<not> list_all (limit_in_snapshot (dw_Routes state)) (case limits of None \<Rightarrow> [] | Some ls \<Rightarrow> ls) then Inl ErrPublicationSnapshot
          else
           (let captured = \<lparr> gs_Revision = dw_Revision state, gs_Routes = dw_Routes state, gs_GatewayLimits = limits \<rparr>;
                captured1 = (if limits \<noteq> None \<and> pr_Revision input = None
                             then captured \<lparr> gs_Revision := ''gateway-'' @ publicationDigest (pe_json env (captured \<lparr> gs_Revision := ''gateway-'' \<rparr>)) \<rparr> else captured) in
            Inr \<lparr> sn_Revision = gs_Revision captured1, sn_ContentHash = publicationDigest (pe_json env captured1), sn_Payload = captured1 \<rparr>))"

text \<open>A member of the request body as \<^verbatim>\<open>encoding/json\<close> reads it. \<open>members\<close> are the members in the order of the body, or \<open>None\<close>
  when the body is not one JSON object of at most 4096 bytes; \<open>normalized\<close> is the JSON encoding of the request after its revision was trimmed,
  and \<open>enabled\<close> the configuration switch of the feature.\<close>

datatype json_field = JsonNull | JsonBool bool | JsonString string | JsonOther

definition decode_publication :: "(string \<times> json_field) list option \<Rightarrow> (int \<times> string) + publicationRequest" where
  "decode_publication members =
     (case members of
        None \<Rightarrow> Inl (400, ''INVALID_REQUEST'')
      | Some fs \<Rightarrow>
          if \<not> distinct (map fst fs) then Inl (400, ''INVALID_REQUEST'')
          else if \<not> list_all (\<lambda>(k, _). k = ''revision'' \<or> k = ''includeGatewayLimits'') fs then Inl (400, ''INVALID_REQUEST'')
          else
           (let include = (case map_of fs ''includeGatewayLimits'' of None \<Rightarrow> Some False | Some (JsonBool b) \<Rightarrow> Some b | Some _ \<Rightarrow> None) in
            case include of
              None \<Rightarrow> Inl (400, ''INVALID_REQUEST'')
            | Some b \<Rightarrow>
               (case map_of fs ''revision'' of
                  None \<Rightarrow> Inr \<lparr> pr_Revision = None, pr_IncludeGatewayLimits = b \<rparr>
                | Some (JsonString raw) \<Rightarrow>
                   (let revision = trim_space raw in
                    if revision = [] \<or> rune_count revision > 200 then Inl (422, ''INVALID_DATA_PLANE_STATE'')
                    else Inr \<lparr> pr_Revision = Some revision, pr_IncludeGatewayLimits = b \<rparr>)
                | Some _ \<Rightarrow> Inl (422, ''INVALID_DATA_PLANE_STATE''))))"

definition createDataPlanePublication ::
  "publication_env \<Rightarrow> bool \<Rightarrow> string \<Rightarrow> string list \<Rightarrow> (publicationRequest \<Rightarrow> string) \<Rightarrow> (string \<times> json_field) list option \<Rightarrow> publication_db \<Rightarrow> DataPlanePublication answer \<times> publication_db" where
  "createDataPlanePublication env enabled actor keys normalized members db =
     (if \<not> enabled then (Problem_of 503 ''DATA_PLANE_PUBLICATIONS_DISABLED'', db)
      else case keys of
        [k] \<Rightarrow>
          if \<not> publicationKey_ok k then (Problem_of 400 ''INVALID_IDEMPOTENCY_KEY'', db)
          else (case decode_publication members of
             Inl (status, code) \<Rightarrow> (Problem_of status code, db)
           | Inr input \<Rightarrow>
              (case QueueGatewayPublication env (publicationDigest k) (publicationDigest (normalized input)) actor (pr_IncludeGatewayLimits input) (capture_snapshot env input) db of
                 Inl ErrPublicationKeyConflict \<Rightarrow> (Problem_of 409 ''IDEMPOTENCY_KEY_CONFLICT'', db)
               | Inl ErrPublicationRevisionConflict \<Rightarrow> (Problem_of 422 ''INVALID_DATA_PLANE_STATE'', db)
               | Inl ErrPublicationSnapshot \<Rightarrow> (Problem_of 422 ''INVALID_DATA_PLANE_STATE'', db)
               | Inl _ \<Rightarrow> (Problem_of 503 ''PUBLICATION_UNAVAILABLE'', db)
               | Inr (item, db1) \<Rightarrow> (Answered item, db1)))
      | _ \<Rightarrow> (Problem_of 400 ''INVALID_IDEMPOTENCY_KEY'', db))"

definition getDataPlanePublication :: "publication_env \<Rightarrow> bool \<Rightarrow> string option \<Rightarrow> publication_db \<Rightarrow> DataPlanePublication answer" where
  "getDataPlanePublication env enabled op db =
     (if \<not> enabled then Problem_of 503 ''DATA_PLANE_PUBLICATIONS_DISABLED''
      else case op of
        None \<Rightarrow> Problem_of 404 ''RESOURCE_NOT_FOUND''
      | Some i \<Rightarrow>
         (case GetDataPlanePublication env i db of
            Inl ErrPublicationNotFound \<Rightarrow> Problem_of 404 ''RESOURCE_NOT_FOUND''
          | Inl _ \<Rightarrow> Problem_of 503 ''PUBLICATION_UNAVAILABLE''
          | Inr item \<Rightarrow> Answered item))"

text \<open>\<open>op\<close> is the parsed identifier of the path and \<open>empty_body\<close> says that the body is one empty object.\<close>

definition replayDataPlanePublication ::
  "publication_env \<Rightarrow> bool \<Rightarrow> string \<Rightarrow> string list \<Rightarrow> string option \<Rightarrow> bool \<Rightarrow> publication_db \<Rightarrow> DataPlanePublication answer \<times> publication_db" where
  "replayDataPlanePublication env enabled actor keys op empty_body db =
     (if \<not> enabled then (Problem_of 503 ''DATA_PLANE_PUBLICATIONS_DISABLED'', db)
      else case keys of
        [k] \<Rightarrow>
          if \<not> publicationKey_ok k then (Problem_of 400 ''INVALID_IDEMPOTENCY_KEY'', db)
          else (case op of
             None \<Rightarrow> (Problem_of 404 ''RESOURCE_NOT_FOUND'', db)
           | Some i \<Rightarrow>
               if \<not> empty_body then (Problem_of 400 ''INVALID_REQUEST'', db)
               else (case ReplayDataPlanePublication env i (publicationDigest k) (publicationDigest (''replay:'' @ i)) actor db of
                 Inl ErrPublicationKeyConflict \<Rightarrow> (Problem_of 409 ''IDEMPOTENCY_KEY_CONFLICT'', db)
               | Inl ErrPublicationNotFound \<Rightarrow> (Problem_of 404 ''RESOURCE_NOT_FOUND'', db)
               | Inl ErrPublicationNotLatest \<Rightarrow> (Problem_of 409 ''PUBLICATION_NOT_LATEST'', db)
               | Inl ErrPublicationReferencesChanged \<Rightarrow> (Problem_of 409 ''PUBLICATION_REFERENCES_CHANGED'', db)
               | Inl _ \<Rightarrow> (Problem_of 503 ''PUBLICATION_UNAVAILABLE'', db)
               | Inr (item, db1) \<Rightarrow> (Answered item, db1)))
      | _ \<Rightarrow> (Problem_of 400 ''INVALID_IDEMPOTENCY_KEY'', db))"

text \<open>What a client is shown of an operation: \<open>observe\<close> reads the custom resources, when an observer runs.\<close>

record Condition =
  co_Type :: string
  co_Status :: string
  co_ObservedRevision :: "string option"
  co_Reason :: string
  co_LastTransitionTime :: time

definition UnknownConditions :: "time \<Rightarrow> string \<Rightarrow> Condition list" where
  "UnknownConditions when reason =
     [\<lparr> co_Type = ''Accepted'', co_Status = ''Unknown'', co_ObservedRevision = None, co_Reason = reason, co_LastTransitionTime = when \<rparr>,
      \<lparr> co_Type = ''Applied'', co_Status = ''Unknown'', co_ObservedRevision = None, co_Reason = reason, co_LastTransitionTime = when \<rparr>,
      \<lparr> co_Type = ''Ready'', co_Status = ''Unknown'', co_ObservedRevision = None, co_Reason = ''DataPlaneNotObserved'', co_LastTransitionTime = when \<rparr>]"

record publicationView =
  pv_OperationID :: string
  pv_Revision :: string
  pv_ContentHash :: string
  pv_Phase :: string
  pv_CreatedAt :: time
  pv_UpdatedAt :: time
  pv_IdempotencyExpiresAt :: time
  pv_Conditions :: "Condition list"
  pv_ErrorCode :: "string option"

definition publicationJSON :: "DataPlanePublication \<Rightarrow> publicationView" where
  "publicationJSON p = \<lparr> pv_OperationID = pub_OperationID p, pv_Revision = pub_Revision p, pv_ContentHash = pub_ContentHash p, pv_Phase = pub_Phase p,
     pv_CreatedAt = pub_CreatedAt p, pv_UpdatedAt = pub_UpdatedAt p, pv_IdempotencyExpiresAt = pub_IdempotencyExpiresAt p,
     pv_Conditions = UnknownConditions (pub_CreatedAt p) ''NotObserved'', pv_ErrorCode = pub_ErrorCode p \<rparr>"

definition ReadDataPlanePublicationInputs :: "publication_env \<Rightarrow> DataPlanePublication \<Rightarrow> publication_db \<Rightarrow> publication_error + PublicationDelivery" where
  "ReadDataPlanePublicationInputs env p db =
     bindS (publicationInputs env p db) (\<lambda>(payload, history).
     Inr \<lparr> pd_Publication = p, pd_ClaimToken = [], pd_Payload = payload, pd_HistoricalRoutes = history \<rparr>)"

definition observedPublication ::
  "publication_env \<Rightarrow> (PublicationDelivery \<Rightarrow> Condition list option) option \<Rightarrow> DataPlanePublication \<Rightarrow> publication_db \<Rightarrow> publication_db \<Rightarrow> publicationView" where
  "observedPublication env observer p db later =
     (let view = publicationJSON p;
          unknown = (\<lambda>reason. view \<lparr> pv_Conditions := UnknownConditions (pub_CreatedAt p) reason \<rparr>) in
      case observer of
        None \<Rightarrow> view
      | Some observe \<Rightarrow>
          if pub_Phase p \<noteq> ''projected'' then view
          else (case ReadDataPlanePublicationInputs env p db of
             Inl _ \<Rightarrow> unknown ''ObservationUnavailable''
           | Inr inputs \<Rightarrow>
               (case observe inputs of
                  None \<Rightarrow> unknown ''ObservationUnavailable''
                | Some conditions \<Rightarrow>
                    (case IsLatestDataPlanePublication env p later of
                       Inl _ \<Rightarrow> unknown ''ObservationUnavailable''
                     | Inr latest \<Rightarrow> if latest then view \<lparr> pv_Conditions := conditions \<rparr> else unknown ''PublicationSuperseded''))))"

section \<open>The worker\<close>

datatype projection = ProjectionDone | ProjectionSuperseded | ProjectionSnapshot | ProjectionOwnership | ProjectionRetry

definition completion :: "projection \<Rightarrow> string \<times> string" where
  "completion r =
     (case r of
        ProjectionDone \<Rightarrow> (''projected'', [])
      | ProjectionSuperseded \<Rightarrow> (''superseded'', [])
      | ProjectionSnapshot \<Rightarrow> (''failed'', ''INVALID_OPERATOR_SNAPSHOT'')
      | ProjectionOwnership \<Rightarrow> (''failed'', ''CR_OWNERSHIP_CONFLICT'')
      | ProjectionRetry \<Rightarrow> ([], []))"

text \<open>One cycle of the worker. Its three transactions run in environments of their own; \<open>project\<close> writes
  the custom resources of a delivery and \<open>backoff\<close> is the rate limiter of the work queue.\<close>

definition stepRoutes ::
  "publication_env \<Rightarrow> publication_env \<Rightarrow> publication_env \<Rightarrow> (PublicationDelivery \<Rightarrow> projection) \<Rightarrow> (string \<Rightarrow> duration) \<Rightarrow> publication_db
     \<Rightarrow> (publication_error + unit) \<times> publication_db" where
  "stepRoutes envI envC envF project backoff db =
     (case QueueReferenceInvalidations envI db of
        Inl e \<Rightarrow> (Inl e, db)
      | Inr db1 \<Rightarrow>
         (case ClaimDataPlanePublication envC db1 of
            Inl e \<Rightarrow> (Inl e, db1)
          | Inr (None, db2) \<Rightarrow> (Inr (), db2)
          | Inr (Some item, db2) \<Rightarrow>
             (case completion (project item) of (phase, code) \<Rightarrow>
               (let op = pub_OperationID (pd_Publication item); retry = (if phase = [] then backoff op else 0) in
                case FinishDataPlanePublication envF op (pd_ClaimToken item) phase code retry db2 of
                  Inl e \<Rightarrow> (Inl e, db2)
                | Inr db3 \<Rightarrow> (Inr (), db3)))))"

section \<open>Steps and their invariant\<close>

text \<open>The transactions of requests and workers in any order, in environments that satisfy \<open>P\<close>. The catalog,
  the rules and the reference signal change at any time.\<close>

inductive pub_step :: "(publication_env \<Rightarrow> bool) \<Rightarrow> publication_db \<Rightarrow> publication_db \<Rightarrow> bool" for P where
  queue: "P env \<Longrightarrow> queuePublication env k r actor native derive db = Inr (p, db1) \<Longrightarrow> pub_step P db db1"
| replay: "P env \<Longrightarrow> ReplayDataPlanePublication env source k r actor db = Inr (p, db1) \<Longrightarrow> pub_step P db db1"
| claim: "P env \<Longrightarrow> ClaimDataPlanePublication env db = Inr (item, db1) \<Longrightarrow> pub_step P db db1"
| finish: "P env \<Longrightarrow> FinishDataPlanePublication env op token phase code retry db = Inr db1 \<Longrightarrow> pub_step P db db1"
| invalidate: "P env \<Longrightarrow> QueueReferenceInvalidations env db = Inr db1 \<Longrightarrow> pub_step P db db1"
| catalog: "pub_step P db (db \<lparr> pd_models := models, pd_limits := limits, pd_fenced := fenced, pd_signal := sig, pd_removals := removals \<rparr>)"

text \<open>A publication and its outbox row: the row is open exactly while the publication is pending, and is claimed
  only while it is being projected.\<close>

definition linked :: "DataPlanePublication \<Rightarrow> publicationOutbox \<Rightarrow> bool" where
  "linked p o' \<longleftrightarrow> ob_OperationID o' = pub_OperationID p \<and> (pending (pub_Phase p) \<longleftrightarrow> ob_CompletedAt o' = None)
     \<and> (ob_ClaimToken o' \<noteq> None \<longrightarrow> pub_Phase p = ''projecting'') \<and> (ob_ClaimToken o' = None \<longleftrightarrow> ob_LeaseUntil o' = None)
     \<and> pub_Phase p \<in> {''queued'', ''projecting'', ''projected'', ''failed'', ''superseded''}
     \<and> (pub_Phase p = ''failed'' \<longleftrightarrow> pub_ErrorCode p \<noteq> None)"

definition pub_inv :: "publication_db \<Rightarrow> bool" where
  "pub_inv db \<longleftrightarrow>
     list_all2 linked (pd_publications db) (pd_outbox db)
   \<and> distinct (map pub_OperationID (pd_publications db)) \<and> distinct (map pub_IdempotencyKeyHash (pd_publications db))
   \<and> sorted_wrt (<) (map pub_Sequence (pd_publications db)) \<and> (\<forall>p \<in> set (pd_publications db). pub_Sequence p \<le> pd_sequence db)
   \<and> distinct (map sn_Revision (pd_snapshots db))
   \<and> (\<forall>p \<in> set (pd_publications db). \<exists>s \<in> set (pd_snapshots db). sn_Revision s = pub_Revision p \<and> sn_ContentHash s = pub_ContentHash p)"

lemma committed_Inr: "committed env m = Inr x \<Longrightarrow> m = Inr x"
  by (auto simp: committed_def bindS_Inr_iff)

text \<open>Queueing keeps all rows and appends at most one.\<close>

definition appended :: "publication_db \<Rightarrow> DataPlanePublication \<Rightarrow> publication_db \<Rightarrow> bool" where
  "appended db row db1 \<longleftrightarrow> pd_publications db1 = pd_publications db @ [row] \<and> pub_Phase row = ''queued'' \<and> pub_ErrorCode row = None
     \<and> pd_sequence db < pub_Sequence row \<and> pd_sequence db1 = pub_Sequence row
     \<and> pub_OperationID row \<notin> pub_OperationID ` set (pd_publications db)
     \<and> pub_IdempotencyKeyHash row \<notin> pub_IdempotencyKeyHash ` set (pd_publications db)
     \<and> (\<exists>o'. pd_outbox db1 = pd_outbox db @ [o'] \<and> linked row o' \<and> ob_ClaimToken o' = None)
     \<and> (\<exists>new. pd_snapshots db1 = pd_snapshots db @ new) \<and> (distinct (map sn_Revision (pd_snapshots db)) \<longrightarrow> distinct (map sn_Revision (pd_snapshots db1)))
     \<and> (\<exists>s \<in> set (pd_snapshots db1). sn_Revision s = pub_Revision row \<and> sn_ContentHash s = pub_ContentHash row)"

lemma insertPublication_appends:
  assumes "insertPublication env k r actor snapshot db = Inr (row, db1)"
  shows "appended db row db1" "pub_IdempotencyKeyHash row = k" "pub_RequestHash row = r" "pub_Revision row = sn_Revision snapshot" "pub_ContentHash row = sn_ContentHash snapshot"
proof -
  define snaps where "snaps = (if list_ex (\<lambda>s. sn_Revision s = sn_Revision snapshot) (pd_snapshots db) then pd_snapshots db else pd_snapshots db @ [snapshot])"
  obtain existing where e: "find (\<lambda>s. sn_Revision s = sn_Revision snapshot) snaps = Some existing"
    using assms by (auto simp: insertPublication_def bindS_Inr_iff Let_def snaps_def split: option.splits)
  let ?op = "pe_uuid env ''operation''"
  have c: "sn_ContentHash existing = sn_ContentHash snapshot"
    and n: "\<not> list_ex (\<lambda>p. pub_OperationID p = ?op \<or> pub_IdempotencyKeyHash p = k) (pd_publications db)"
    and row: "row = \<lparr> pub_OperationID = ?op, pub_Sequence = pd_sequence db + 1 + int (pe_skip env), pub_IdempotencyKeyHash = k,
                       pub_RequestHash = r, pub_Revision = sn_Revision snapshot, pub_ContentHash = sn_ContentHash snapshot,
                       pub_Phase = ''queued'', pub_ErrorCode = None, pub_CreatedAt = pe_now env, pub_UpdatedAt = pe_now env,
                       pub_IdempotencyExpiresAt = pe_now env + 24 * hour \<rparr>"
    and db1: "db1 = db \<lparr> pd_snapshots := snaps, pd_publications := pd_publications db @ [row], pd_sequence := pub_Sequence row,
                 pd_outbox := pd_outbox db @ [\<lparr> ob_OperationID = ?op, ob_ClaimToken = None, ob_LeaseUntil = None, ob_Attempts = 0,
                                                          ob_NextAttemptAt = pe_now env, ob_CompletedAt = None \<rparr>],
                 pd_audit := pd_audit db @ [(actor, ''publish'', ?op)] \<rparr>"
    using assms e by (auto simp: insertPublication_def bindS_Inr_iff Let_def snaps_def [symmetric])
  have "distinct (map sn_Revision (pd_snapshots db)) \<longrightarrow> distinct (map sn_Revision snaps)" "\<exists>new. snaps = pd_snapshots db @ new"
    by (auto simp: snaps_def list_ex_iff)
  moreover have "\<exists>s \<in> set snaps. sn_Revision s = sn_Revision snapshot \<and> sn_ContentHash s = sn_ContentHash snapshot"
    using find_SomeD [OF e] c by blast
  ultimately show "appended db row db1" using n unfolding appended_def db1 row
    by (auto simp: linked_def pending_def list_ex_iff)
qed (use assms in \<open>auto simp: insertPublication_def bindS_Inr_iff Let_def split: option.splits\<close>)

lemma appended_inv:
  assumes a: "appended db row db1" and inv: "pub_inv db"
  shows "pub_inv db1"
proof -
  from a obtain o' new where p: "pd_publications db1 = pd_publications db @ [row]" "pd_outbox db1 = pd_outbox db @ [o']" "linked row o'"
    "pd_snapshots db1 = pd_snapshots db @ new" unfolding appended_def by blast
  have "list_all2 linked (pd_publications db1) (pd_outbox db1)" using inv p unfolding pub_inv_def by (simp add: list_all2_appendI)
  moreover have "sorted_wrt (<) (map pub_Sequence (pd_publications db1))" "\<forall>q \<in> set (pd_publications db1). pub_Sequence q \<le> pd_sequence db1"
    using inv a p(1) unfolding pub_inv_def appended_def by (auto simp: sorted_wrt_append)
  moreover have "distinct (map pub_OperationID (pd_publications db1))" "distinct (map pub_IdempotencyKeyHash (pd_publications db1))" "distinct (map sn_Revision (pd_snapshots db1))"
    using inv a p(1) unfolding pub_inv_def appended_def by auto
  moreover have "\<forall>q \<in> set (pd_publications db1). \<exists>s \<in> set (pd_snapshots db1). sn_Revision s = pub_Revision q \<and> sn_ContentHash s = pub_ContentHash q"
    using inv a p(1,4) unfolding pub_inv_def appended_def by auto
  ultimately show ?thesis unfolding pub_inv_def by blast
qed

lemma queue_cases:
  assumes "queuePublication env k r actor native derive db = Inr (p, db1)"
  shows "db1 = db \<and> p \<in> set (pd_publications db) \<and> pub_IdempotencyKeyHash p = k \<and> pub_RequestHash p = r
    \<or> k \<notin> pub_IdempotencyKeyHash ` set (pd_publications db) \<and> (\<exists>snapshot. derive db (sort_key cm_ID (pd_models db)) = Inr snapshot \<and> insertPublication env k r actor snapshot db = Inr (p, db1))"
proof (cases "find (\<lambda>p. pub_IdempotencyKeyHash p = k) (pd_publications db)")
  case None
  then have "by_key k r db = None" "k \<notin> pub_IdempotencyKeyHash ` set (pd_publications db)" by (auto simp: by_key_def find_None_iff)
  with committed_Inr [OF assms [unfolded queuePublication_def]] show ?thesis by (auto simp: bindS_Inr_iff)
next
  case (Some q)
  with find_SomeD [OF Some] show ?thesis using committed_Inr [OF assms [unfolded queuePublication_def]]
    by (auto simp: by_key_def bindS_Inr_iff split: if_splits)
qed

lemma replay_cases:
  assumes "ReplayDataPlanePublication env source k r actor db = Inr (p, db1)"
  shows "db1 = db \<and> p \<in> set (pd_publications db) \<and> pub_IdempotencyKeyHash p = k \<and> pub_RequestHash p = r
    \<or> k \<notin> pub_IdempotencyKeyHash ` set (pd_publications db) \<and> (\<exists>snapshot \<in> set (pd_snapshots db). insertPublication env k r actor snapshot db = Inr (p, db1))"
proof (cases "find (\<lambda>p. pub_IdempotencyKeyHash p = k) (pd_publications db)")
  case None
  then have k: "by_key k r db = None" "k \<notin> pub_IdempotencyKeyHash ` set (pd_publications db)" by (auto simp: by_key_def find_None_iff)
  with committed_Inr [OF assms [unfolded ReplayDataPlanePublication_def]] have
    "\<exists>source' :: DataPlanePublication. (case snapshot_of db (pub_Revision source') (pub_ContentHash source') of
        None \<Rightarrow> Inl ErrPublicationNotFound | Some snapshot \<Rightarrow> insertPublication env k r actor snapshot db) = Inr (p, db1)"
    by (auto simp: bindS_Inr_iff)
  then obtain source' :: DataPlanePublication and snapshot where "snapshot_of db (pub_Revision source') (pub_ContentHash source') = Some snapshot" "insertPublication env k r actor snapshot db = Inr (p, db1)"
    by (auto split: option.splits)
  with k(2) show ?thesis unfolding snapshot_of_def by (auto dest!: find_SomeD)
next
  case (Some q)
  with find_SomeD [OF Some] show ?thesis using committed_Inr [OF assms [unfolded ReplayDataPlanePublication_def]]
    by (auto simp: by_key_def bindS_Inr_iff split: if_splits)
qed

text \<open>Operations that rewrite rows in place: \<open>f\<close> on the publications and \<open>g\<close> on the outbox.\<close>

definition rewritten :: "(DataPlanePublication \<Rightarrow> DataPlanePublication) \<Rightarrow> (publicationOutbox \<Rightarrow> publicationOutbox) \<Rightarrow> publication_db \<Rightarrow> publication_db \<Rightarrow> bool" where
  "rewritten f g db db1 \<longleftrightarrow> pd_publications db1 = map f (pd_publications db) \<and> pd_outbox db1 = map g (pd_outbox db)
     \<and> pd_snapshots db1 = pd_snapshots db \<and> pd_sequence db1 = pd_sequence db
     \<and> (\<forall>p. pub_OperationID (f p) = pub_OperationID p \<and> pub_IdempotencyKeyHash (f p) = pub_IdempotencyKeyHash p \<and> pub_RequestHash (f p) = pub_RequestHash p \<and> pub_Sequence (f p) = pub_Sequence p
          \<and> pub_Revision (f p) = pub_Revision p \<and> pub_ContentHash (f p) = pub_ContentHash p)"

lemma operation_unique:
  "pub_inv db \<Longrightarrow> p \<in> set (pd_publications db) \<Longrightarrow> q \<in> set (pd_publications db) \<Longrightarrow> pub_OperationID p = pub_OperationID q \<Longrightarrow> p = q"
  by (auto simp: pub_inv_def distinct_map dest: inj_onD)

lemma key_unique:
  "pub_inv db \<Longrightarrow> p \<in> set (pd_publications db) \<Longrightarrow> q \<in> set (pd_publications db) \<Longrightarrow> pub_IdempotencyKeyHash p = pub_IdempotencyKeyHash q \<Longrightarrow> p = q"
  by (auto simp: pub_inv_def distinct_map dest: inj_onD)

lemma sequence_unique:
  "pub_inv db \<Longrightarrow> p \<in> set (pd_publications db) \<Longrightarrow> q \<in> set (pd_publications db) \<Longrightarrow> pub_Sequence p = pub_Sequence q \<Longrightarrow> p = q"
  by (auto simp: pub_inv_def strict_sorted_iff distinct_map dest: inj_onD)

lemma outbox_distinct:
  assumes "pub_inv db"
  shows "distinct (map ob_OperationID (pd_outbox db))"
proof -
  have "map ob_OperationID os = map pub_OperationID ps" if "list_all2 linked ps os" for ps os
    using that by (induction rule: list_all2_induct) (auto simp: linked_def)
  then show ?thesis using assms unfolding pub_inv_def by metis
qed

lemma outbox_unique:
  "pub_inv db \<Longrightarrow> o1 \<in> set (pd_outbox db) \<Longrightarrow> o2 \<in> set (pd_outbox db) \<Longrightarrow> ob_OperationID o1 = ob_OperationID o2 \<Longrightarrow> o1 = o2"
  using outbox_distinct by (auto simp: distinct_map dest: inj_onD)

lemma rewritten_inv:
  assumes inv: "pub_inv db" and w: "rewritten f g db db1"
    and link: "\<And>p o'. p \<in> set (pd_publications db) \<Longrightarrow> o' \<in> set (pd_outbox db) \<Longrightarrow> linked p o' \<Longrightarrow> linked (f p) (g o')"
  shows "pub_inv db1"
proof -
  have "list_all2 linked (pd_publications db) (pd_outbox db)" using inv by (simp add: pub_inv_def)
  then have "list_all2 linked (map f (pd_publications db)) (map g (pd_outbox db))"
    unfolding list.rel_map by (rule list.rel_mono_strong) (rule link)
  moreover have "pub_OperationID \<circ> f = pub_OperationID" "pub_IdempotencyKeyHash \<circ> f = pub_IdempotencyKeyHash" "pub_Sequence \<circ> f = pub_Sequence"
    using w by (auto simp: rewritten_def)
  ultimately show ?thesis using inv w unfolding pub_inv_def rewritten_def by auto
qed

subsection \<open>Claims\<close>

definition supersede_row :: "time \<Rightarrow> int \<Rightarrow> DataPlanePublication \<Rightarrow> DataPlanePublication" where
  "supersede_row now latest p = (if pub_Sequence p < latest \<and> pending (pub_Phase p) then p \<lparr> pub_Phase := ''superseded'', pub_UpdatedAt := now \<rparr> else p)"

definition close_row :: "time \<Rightarrow> DataPlanePublication list \<Rightarrow> publicationOutbox \<Rightarrow> publicationOutbox" where
  "close_row now ps o' = (if list_ex (\<lambda>p. pub_OperationID p = ob_OperationID o' \<and> pub_Phase p = ''superseded'') ps \<and> ob_CompletedAt o' = None
     then o' \<lparr> ob_CompletedAt := Some now, ob_ClaimToken := None, ob_LeaseUntil := None \<rparr> else o')"

lemma supersede_rewritten:
  "rewritten (supersede_row now latest) (close_row now (map (supersede_row now latest) (pd_publications db))) db (supersede now latest db)"
  by (simp add: rewritten_def supersede_def supersede_row_def [abs_def] close_row_def [abs_def] Let_def)

lemma supersede_inv:
  assumes inv: "pub_inv db"
  shows "pub_inv (supersede now latest db)"
proof (rule rewritten_inv [OF inv supersede_rewritten])
  fix p o' assume p: "p \<in> set (pd_publications db)" and "o' \<in> set (pd_outbox db)" and l: "linked p o'"
  have "list_ex (\<lambda>q. pub_OperationID q = ob_OperationID o' \<and> pub_Phase q = ''superseded'') (map (supersede_row now latest) (pd_publications db))
    \<longleftrightarrow> pub_Phase (supersede_row now latest p) = ''superseded''"
  proof -
    have "pub_OperationID (supersede_row now latest q) = pub_OperationID q" for q by (simp add: supersede_row_def)
    then show ?thesis using operation_unique [OF inv _ p] p l unfolding list_ex_iff linked_def by auto
  qed
  then show "linked (supersede_row now latest p) (close_row now (map (supersede_row now latest) (pd_publications db)) o')"
    using l unfolding close_row_def by (auto simp: linked_def supersede_row_def pending_def)
qed

definition claim_row :: "time \<Rightarrow> string \<Rightarrow> string \<Rightarrow> publicationOutbox \<Rightarrow> publicationOutbox" where
  "claim_row now op token o' = (if claimable now op o'
     then o' \<lparr> ob_ClaimToken := Some token, ob_LeaseUntil := Some (now + 30 * second), ob_Attempts := ob_Attempts o' + 1 \<rparr> else o')"

definition projecting_row :: "time \<Rightarrow> string \<Rightarrow> DataPlanePublication \<Rightarrow> DataPlanePublication" where
  "projecting_row now op p = (if pub_OperationID p = op then p \<lparr> pub_Phase := ''projecting'', pub_UpdatedAt := now \<rparr> else p)"

lemma newest_Some:
  assumes "newest db = Some p"
  shows "p \<in> set (pd_publications db)" "q \<in> set (pd_publications db) \<Longrightarrow> pub_Sequence q \<le> pub_Sequence p"
  using find_SomeD [OF assms [unfolded newest_def]] by (auto simp: list_all_iff)

text \<open>What a claim does: nothing, only superseding older intents, or also claiming the newest.\<close>

lemma claim_cases:
  assumes "ClaimDataPlanePublication env db = Inr (item, db1)"
  obtains "item = None" "db1 = db"
  | latest where "newest db = Some latest" "item = None" "db1 = supersede (pe_now env) (pub_Sequence latest) db"
  | latest payload history where "newest db = Some latest" "pending (pub_Phase latest)" "list_ex (claimable (pe_now env) (pub_OperationID latest)) (pd_outbox (supersede (pe_now env) (pub_Sequence latest) db))"
    "item = Some \<lparr> pd_Publication = latest \<lparr> pub_Phase := ''projecting'' \<rparr>, pd_ClaimToken = pe_uuid env ''claim'', pd_Payload = payload, pd_HistoricalRoutes = history \<rparr>"
    "rewritten (projecting_row (pe_now env) (pub_OperationID latest)) (claim_row (pe_now env) (pub_OperationID latest) (pe_uuid env ''claim''))
       (supersede (pe_now env) (pub_Sequence latest) db) db1"
proof -
  note run = committed_Inr [OF assms [unfolded ClaimDataPlanePublication_def]]
  show thesis
  proof (cases "pe_locked env")
    case False
    then show thesis using run that(1) by (auto simp: bindS_Inr_iff)
  next
    case True
    show thesis
    proof (cases "newest db")
      case None
      then show thesis using run that(1) True by (auto simp: bindS_Inr_iff)
    next
      case (Some latest)
      let ?db1 = "supersede (pe_now env) (pub_Sequence latest) db"
      let ?op = "pub_OperationID latest"
      show thesis
      proof (cases "pending (pub_Phase latest) \<and> list_ex (claimable (pe_now env) ?op) (pd_outbox ?db1)")
        case False
        then have "item = None \<and> db1 = ?db1" using run True Some by (auto simp: bindS_Inr_iff Let_def split: if_splits)
        with that(2) Some show thesis by blast
      next
        case True2: True
        then obtain payload history where i: "item = Some \<lparr> pd_Publication = latest \<lparr> pub_Phase := ''projecting'' \<rparr>, pd_ClaimToken = pe_uuid env ''claim'', pd_Payload = payload, pd_HistoricalRoutes = history \<rparr>"
          and d: "db1 = ?db1 \<lparr> pd_outbox := map (claim_row (pe_now env) ?op (pe_uuid env ''claim'')) (pd_outbox ?db1),
                  pd_publications := map (projecting_row (pe_now env) ?op) (pd_publications ?db1) \<rparr>"
          using run True Some unfolding claim_row_def [abs_def] projecting_row_def [abs_def] by (auto simp: bindS_Inr_iff Let_def)
        have "rewritten (projecting_row (pe_now env) ?op) (claim_row (pe_now env) ?op (pe_uuid env ''claim'')) ?db1 db1"
          unfolding d rewritten_def by (simp add: projecting_row_def)
        with that(3) Some True2 i show thesis by blast
      qed
    qed
  qed
qed

lemma claim_inv:
  assumes inv: "pub_inv db" and run: "ClaimDataPlanePublication env db = Inr (item, db1)"
  shows "pub_inv db1"
  using run
proof (cases rule: claim_cases)
  case (3 latest payload history)
  let ?db = "supersede (pe_now env) (pub_Sequence latest) db" and ?op = "pub_OperationID latest"
  have sup: "pub_inv ?db" using inv by (rule supersede_inv)
  have kept: "supersede_row (pe_now env) (pub_Sequence latest) latest = latest" by (simp add: supersede_row_def)
  then have latest: "latest \<in> set (pd_publications ?db)"
    using newest_Some(1) [OF 3(1)] supersede_rewritten [of "pe_now env" "pub_Sequence latest" db] by (auto simp: rewritten_def image_iff) metis
  show ?thesis
  proof (rule rewritten_inv [OF sup 3(5)])
    fix p o' assume p: "p \<in> set (pd_publications ?db)" and "o' \<in> set (pd_outbox ?db)" and l: "linked p o'"
    have "p = latest" if "pub_OperationID p = ?op" using operation_unique [OF sup p latest that] .
    then show "linked (projecting_row (pe_now env) ?op p) (claim_row (pe_now env) ?op (pe_uuid env ''claim'') o')"
      using l 3(2) by (auto simp: linked_def projecting_row_def claim_row_def claimable_def pending_def)
  qed
qed (use inv supersede_inv in simp_all)

definition finish_row :: "string \<Rightarrow> string \<Rightarrow> string \<Rightarrow> time \<Rightarrow> DataPlanePublication \<Rightarrow> DataPlanePublication" where
  "finish_row op phase code now p = (if pub_OperationID p = op then p \<lparr> pub_Phase := (if phase = [] then ''queued'' else phase),
     pub_ErrorCode := (if phase = ''failed'' then Some code else None), pub_UpdatedAt := now \<rparr> else p)"

definition release_row :: "(publicationOutbox \<Rightarrow> bool) \<Rightarrow> string \<Rightarrow> duration \<Rightarrow> time \<Rightarrow> publicationOutbox \<Rightarrow> publicationOutbox" where
  "release_row mine phase retry now o' = (if mine o' then o' \<lparr> ob_ClaimToken := None, ob_LeaseUntil := None,
     ob_NextAttemptAt := now + go_div retry 1000000 * 1000000, ob_CompletedAt := (if phase = [] then None else Some now) \<rparr> else o')"

lemma finish_cases:
  assumes "FinishDataPlanePublication env op token phase code retry db = Inr db1"
  shows "phase \<in> {[], ''projected'', ''failed'', ''superseded''}"
    "\<exists>o' \<in> set (pd_outbox db). finishable (pe_now env) op token db o'"
    "rewritten (finish_row op phase code (pe_now env)) (release_row (finishable (pe_now env) op token db) phase retry (pe_now env)) db db1"
proof -
  show ph: "phase \<in> {[], ''projected'', ''failed'', ''superseded''}" using assms by (simp add: FinishDataPlanePublication_def split: if_splits)
  let ?mine = "finishable (pe_now env) op token db"
  from ph committed_Inr assms have run: "length (filter ?mine (pd_outbox db)) = 1"
    "db1 = db \<lparr> pd_outbox := map (release_row ?mine phase retry (pe_now env)) (pd_outbox db),
           pd_publications := map (finish_row op phase code (pe_now env)) (pd_publications db) \<rparr>"
    unfolding FinishDataPlanePublication_def release_row_def [abs_def] finish_row_def [abs_def]
    by (auto simp: bindS_Inr_iff Let_def simp del: One_nat_def dest!: committed_Inr split: if_splits)
  from run(1) show "\<exists>o' \<in> set (pd_outbox db). ?mine o'" by (metis filter_empty_conv list.size(3) zero_neq_one)
  show "rewritten (finish_row op phase code (pe_now env)) (release_row ?mine phase retry (pe_now env)) db db1"
    unfolding run(2) rewritten_def by (simp add: finish_row_def)
qed

lemma finish_inv:
  assumes inv: "pub_inv db" and run: "FinishDataPlanePublication env op token phase code retry db = Inr db1"
  shows "pub_inv db1"
proof (rule rewritten_inv [OF inv finish_cases(3) [OF run]])
  let ?mine = "finishable (pe_now env) op token db"
  obtain o1 where o1: "o1 \<in> set (pd_outbox db)" "?mine o1" using finish_cases(2) [OF run] by blast
  have all2: "list_all2 linked (pd_publications db) (pd_outbox db)" using inv by (simp add: pub_inv_def)
  fix p o' assume p: "p \<in> set (pd_publications db)" and o': "o' \<in> set (pd_outbox db)" and l: "linked p o'"
  show "linked (finish_row op phase code (pe_now env) p) (release_row ?mine phase retry (pe_now env) o')"
  proof (cases "pub_OperationID p = op")
    case False
    with l show ?thesis by (auto simp: linked_def finish_row_def release_row_def finishable_def)
  next
    case True
    with l o1(2) outbox_unique [OF inv o' o1(1)] have mine: "?mine o'" by (simp add: linked_def finishable_def)
    then have "pub_Phase p = ''projecting''" using operation_unique [OF inv _ p] True by (auto simp: finishable_def list_ex_iff)
    then show ?thesis using l True mine finish_cases(1) [OF run] by (auto simp: linked_def finish_row_def release_row_def pending_def)
  qed
qed

definition same_core :: "publication_db \<Rightarrow> publication_db \<Rightarrow> bool" where
  "same_core db db1 \<longleftrightarrow> pd_publications db1 = pd_publications db \<and> pd_outbox db1 = pd_outbox db \<and> pd_snapshots db1 = pd_snapshots db \<and> pd_sequence db1 = pd_sequence db"

lemma same_core_inv: "same_core db db1 \<Longrightarrow> pub_inv db \<Longrightarrow> pub_inv db1"
  by (simp add: same_core_def pub_inv_def)

lemma appended_core: "appended db row db1 \<Longrightarrow> same_core db1 db2 \<Longrightarrow> appended db row db2"
  by (simp add: same_core_def appended_def)

lemma publish_invalidation_cases:
  assumes "publish_invalidation env state sequence db = Inr db1"
  shows "db1 = db \<or> (\<exists>row. appended db row db1)"
proof -
  define inv where "inv = invalidateSelected state (map cm_ID (pd_models db)) [m. (m, s) \<leftarrow> pd_removals db, s \<ge> sequence]
      (if gs_GatewayLimits state \<noteq> None then filter (\<lambda>(i, _). i \<in> set (pd_fenced db)) (pd_limits db) else [])"
  obtain changed state1 where i: "inv = (changed, state1)" by (cases inv)
  show ?thesis
  proof (cases changed)
    case False
    then show ?thesis using assms i unfolding publish_invalidation_def inv_def by (auto simp: bindS_Inr_iff Let_def)
  next
    case True
    then obtain row db2 where r: "insertPublication env (publicationDigest (pe_uuid env ''key'')) (publicationDigest ''reference-removal'') [] (reference_snapshot env state1) db = Inr (row, db2)"
      and d: "db1 = db2 \<lparr> pd_audit := pd_audit db2 @ [([], ''invalidate'', pub_OperationID row)] \<rparr>"
      using assms i unfolding publish_invalidation_def inv_def by (auto simp: bindS_Inr_iff Let_def)
    have "appended db row db1" by (rule appended_core [OF insertPublication_appends(1) [OF r]]) (simp add: d same_core_def)
    then show ?thesis by blast
  qed
qed

lemma invalidate_cases:
  assumes "QueueReferenceInvalidations env db = Inr db1"
  shows "same_core db db1 \<or> (\<exists>row. appended db row db1)"
proof -
  note run = committed_Inr [OF assms [unfolded QueueReferenceInvalidations_def]]
  show ?thesis
  proof (cases "pe_locked env \<and> (\<exists>v a. pd_signal db = Some (v, a) \<and> v > a)")
    case False
    then have "db1 = db" using run by (auto simp: bindS_Inr_iff split: if_splits option.splits)
    then show ?thesis by (simp add: same_core_def)
  next
    case True
    then obtain v a db2 where s: "pd_signal db = Some (v, a)" and d: "db1 = db2 \<lparr> pd_signal := Some (v, v) \<rparr>"
      and p: "(case (newest db, latest_snapshot db) of (Some p, Some state) \<Rightarrow> publish_invalidation env state (pub_Sequence p) db | _ \<Rightarrow> Inr db) = Inr db2"
      using run by (auto simp: bindS_Inr_iff split: if_splits)
    from p have "db2 = db \<or> (\<exists>row. appended db row db2)" by (auto split: option.splits dest: publish_invalidation_cases)
    then show ?thesis unfolding d
    proof
      assume "\<exists>row. appended db row db2"
      then obtain row where "appended db row db2" ..
      then have "appended db row (db2\<lparr>pd_signal := Some (v, v)\<rparr>)" by (rule appended_core) (simp add: same_core_def)
      then show "same_core db (db2\<lparr>pd_signal := Some (v, v)\<rparr>) \<or> (\<exists>row. appended db row (db2\<lparr>pd_signal := Some (v, v)\<rparr>))" by blast
    qed (simp add: same_core_def)
  qed
qed

text \<open>The kinds of change a step makes.\<close>

lemma pub_step_cases:
  assumes "pub_step P db db1"
  obtains (same) "same_core db db1"
  | (append) row where "appended db row db1"
  | (claim) env item where "P env" "ClaimDataPlanePublication env db = Inr (item, db1)"
  | (finish) env op token phase code retry where "P env" "FinishDataPlanePublication env op token phase code retry db = Inr db1"
  using assms
proof cases
  case (queue env k r actor native derive p)
  from queue_cases [OF queue(2)] show thesis
  proof (elim disjE conjE exE)
    assume "db1 = db" then show thesis using same by (simp add: same_core_def)
  next
    fix snapshot assume "insertPublication env k r actor snapshot db = Inr (p, db1)"
    then show thesis using append insertPublication_appends(1) by blast
  qed
next
  case (replay env source k r actor p)
  from replay_cases [OF replay(2)] show thesis
  proof (elim disjE conjE bexE)
    assume "db1 = db" then show thesis using same by (simp add: same_core_def)
  next
    fix snapshot assume "insertPublication env k r actor snapshot db = Inr (p, db1)"
    then show thesis using append insertPublication_appends(1) by blast
  qed
next
  case (invalidate env)
  from invalidate_cases [OF invalidate(2)] show thesis using same append by blast
next
  case catalog
  then show thesis using same by (simp add: same_core_def)
qed (use that in blast)+

lemma pub_step_inv: "pub_step P db db1 \<Longrightarrow> pub_inv db \<Longrightarrow> pub_inv db1"
  by (erule pub_step_cases) (auto intro: same_core_inv appended_inv claim_inv finish_inv)

interpretation pub_run: stable "pub_step P" pub_inv for P
  by unfold_locales (rule pub_step_inv)

text \<open>Rows keep their identity; a claim moves phases only to superseded or projecting.\<close>

definition same_identity :: "DataPlanePublication \<Rightarrow> DataPlanePublication \<Rightarrow> bool" where
  "same_identity p q \<longleftrightarrow> pub_OperationID q = pub_OperationID p \<and> pub_IdempotencyKeyHash q = pub_IdempotencyKeyHash p \<and> pub_RequestHash q = pub_RequestHash p
     \<and> pub_Sequence q = pub_Sequence p \<and> pub_Revision q = pub_Revision p \<and> pub_ContentHash q = pub_ContentHash p"

lemma same_identity_trans: "same_identity p q \<Longrightarrow> same_identity q r \<Longrightarrow> same_identity p r"
  by (simp add: same_identity_def)

lemma rewritten_identity: "rewritten f g db db1 \<Longrightarrow> p \<in> set (pd_publications db) \<Longrightarrow> f p \<in> set (pd_publications db1) \<and> same_identity p (f p)"
  by (simp add: rewritten_def same_identity_def)

lemma claim_row_kept:
  assumes "ClaimDataPlanePublication env db = Inr (item, db1)" "p \<in> set (pd_publications db)"
  obtains p1 where "p1 \<in> set (pd_publications db1)" "same_identity p p1" "pub_Phase p1 \<in> {pub_Phase p, ''superseded'', ''projecting''}"
  using assms(1)
proof (cases rule: claim_cases)
  case 1
  with assms(2) that [of p] show thesis by (simp add: same_identity_def)
next
  case (2 latest)
  from rewritten_identity [OF supersede_rewritten [of "pe_now env" "pub_Sequence latest" db] assms(2)] 2
  show thesis by (intro that) (auto simp: supersede_row_def)
next
  case (3 latest)
  note sup = rewritten_identity [OF supersede_rewritten [of "pe_now env" "pub_Sequence latest" db] assms(2)]
  note pr = rewritten_identity [OF 3(5) conjunct1 [OF sup]]
  show thesis by (rule that [OF conjunct1 [OF pr] same_identity_trans [OF conjunct2 [OF sup] conjunct2 [OF pr]]])
      (auto simp: supersede_row_def projecting_row_def)
qed

lemma pub_step_row:
  assumes "pub_step P db db1" "p \<in> set (pd_publications db)"
  shows "\<exists>p1 \<in> set (pd_publications db1). same_identity p p1"
  using assms(1)
proof (cases rule: pub_step_cases)
  case (finish env op token phase code retry)
  from rewritten_identity [OF finish_cases(3) [OF finish(2)] assms(2)] show ?thesis by blast
next
  case (claim env item)
  from claim_row_kept [OF claim(2) assms(2)] show ?thesis by blast
qed (use assms(2) in \<open>auto simp: same_core_def appended_def same_identity_def\<close>)

subsection \<open>Overtaken intents\<close>

definition overtaken :: "string \<Rightarrow> publication_db \<Rightarrow> bool" where
  "overtaken op db \<longleftrightarrow> (\<exists>p \<in> set (pd_publications db). \<exists>q \<in> set (pd_publications db).
     pub_OperationID p = op \<and> pub_Phase p \<noteq> ''projected'' \<and> pub_Sequence p < pub_Sequence q)"

lemma overtaken_not_finished:
  assumes "pub_inv db" "overtaken op db"
  shows "FinishDataPlanePublication env op token phase code retry db \<noteq> Inr db1"
proof
  assume run: "FinishDataPlanePublication env op token phase code retry db = Inr db1"
  obtain o' where "finishable (pe_now env) op token db o'" using finish_cases(2) [OF run] by blast
  then obtain p where p: "p \<in> set (pd_publications db)" "pub_OperationID p = op" "\<forall>q \<in> set (pd_publications db). \<not> pub_Sequence p < pub_Sequence q"
    by (auto simp: finishable_def list_ex_iff)
  with assms(2) operation_unique [OF assms(1) _ p(1)] show False unfolding overtaken_def by metis
qed

lemma overtaken_step:
  assumes step: "pub_step P db db1" and inv: "pub_inv db" and o: "overtaken op db"
  shows "overtaken op db1"
proof -
  from o obtain p q where p: "p \<in> set (pd_publications db)" "q \<in> set (pd_publications db)" "pub_OperationID p = op" "pub_Phase p \<noteq> ''projected''" "pub_Sequence p < pub_Sequence q"
    unfolding overtaken_def by blast
  obtain q1 where q1: "q1 \<in> set (pd_publications db1)" "same_identity q q1" using pub_step_row [OF step p(2)] by blast
  have "\<exists>p1 \<in> set (pd_publications db1). same_identity p p1 \<and> pub_Phase p1 \<noteq> ''projected''"
    using step
  proof (cases rule: pub_step_cases)
    case (claim env item)
    from claim_row_kept [OF claim(2) p(1)] obtain p1 where "p1 \<in> set (pd_publications db1)" "same_identity p p1" "pub_Phase p1 \<in> {pub_Phase p, ''superseded'', ''projecting''}" .
    with p(4) show ?thesis by (intro bexI [of _ p1]) auto
  next
    case (finish env op' token phase code retry)
    have "op' \<noteq> op" using overtaken_not_finished [OF inv o] finish(2) by blast
    with rewritten_identity [OF finish_cases(3) [OF finish(2)] p(1)] p(3,4) show ?thesis
      by (intro bexI [of _ "finish_row op' phase code (pe_now env) p"]) (auto simp: finish_row_def)
  qed (use p in \<open>auto simp: same_core_def appended_def same_identity_def\<close>)
  then obtain p1 where "p1 \<in> set (pd_publications db1)" "same_identity p p1" "pub_Phase p1 \<noteq> ''projected''" by blast
  with q1 p show ?thesis unfolding overtaken_def same_identity_def by metis
qed

interpretation overtaken_run: stable "pub_step P" "\<lambda>db. pub_inv db \<and> overtaken op db" for P op
  by unfold_locales (blast intro: pub_step_inv overtaken_step)

subsection \<open>Idempotency keys\<close>

definition bound :: "string \<Rightarrow> DataPlanePublication \<Rightarrow> publication_db \<Rightarrow> bool" where
  "bound k p db \<longleftrightarrow> pub_IdempotencyKeyHash p = k \<and> (\<exists>q \<in> set (pd_publications db). same_identity p q)"

interpretation bound_run: stable "pub_step P" "\<lambda>db. pub_inv db \<and> bound k p db" for P k p
proof
  fix s t assume "pub_step P s t" "pub_inv s \<and> bound k p s"
  then show "pub_inv t \<and> bound k p t" unfolding bound_def
    using pub_step_inv pub_step_row same_identity_trans by (metis (no_types, lifting))
qed

lemma queue_binds:
  assumes "queuePublication env k r actor native derive db = Inr (p, db1)"
  shows "bound k p db1" "pub_RequestHash p = r"
proof -
  have "p \<in> set (pd_publications db1) \<and> pub_IdempotencyKeyHash p = k \<and> pub_RequestHash p = r"
    using queue_cases [OF assms]
  proof (elim disjE conjE exE)
    fix snapshot assume "insertPublication env k r actor snapshot db = Inr (p, db1)"
    from insertPublication_appends [OF this] show ?thesis by (simp add: appended_def)
  qed simp
  then show "bound k p db1" "pub_RequestHash p = r" by (auto simp: bound_def same_identity_def)
qed

lemma queue_bound:
  assumes inv: "pub_inv db" and b: "bound k p db" and run: "queuePublication env k r actor native derive db = Inr (q, db1)"
  shows "db1 = db" "same_identity p q" "pub_RequestHash q = r"
proof -
  obtain p' where p': "p' \<in> set (pd_publications db)" "same_identity p p'" "pub_IdempotencyKeyHash p' = k" using b by (auto simp: bound_def same_identity_def)
  then have "db1 = db \<and> q \<in> set (pd_publications db) \<and> pub_IdempotencyKeyHash q = k" using queue_cases [OF run] by blast
  with key_unique [OF inv p'(1), of q] p' queue_binds(2) [OF run] show "db1 = db" "same_identity p q" "pub_RequestHash q = r" by auto
qed

subsection \<open>Claim tokens\<close>

definition unclaimed_by :: "string \<Rightarrow> string \<Rightarrow> publication_db \<Rightarrow> bool" where
  "unclaimed_by op token db \<longleftrightarrow> (\<forall>o' \<in> set (pd_outbox db). ob_OperationID o' = op \<longrightarrow> ob_ClaimToken o' \<noteq> Some token)"

definition draws_other_claim :: "string \<Rightarrow> publication_env \<Rightarrow> bool" where
  "draws_other_claim token env \<longleftrightarrow> pe_uuid env ''claim'' \<noteq> token"

lemma unclaimed_not_finished: "unclaimed_by op token db \<Longrightarrow> FinishDataPlanePublication env op token phase code retry db \<noteq> Inr db1"
  using finish_cases(2) by (fastforce simp: unclaimed_by_def finishable_def)

lemma unclaimed_rewritten:
  assumes "rewritten f g db db1" "unclaimed_by op token db" "\<And>o'. ob_OperationID (g o') = ob_OperationID o' \<and> (ob_ClaimToken (g o') = Some token \<longrightarrow> ob_ClaimToken o' = Some token)"
  shows "unclaimed_by op token db1"
  using assms by (auto simp: unclaimed_by_def rewritten_def)

lemma unclaimed_supersede: "unclaimed_by op token db \<Longrightarrow> unclaimed_by op token (supersede now latest db)"
  by (rule unclaimed_rewritten [OF supersede_rewritten]) (auto simp: close_row_def)

lemma unclaimed_claim:
  assumes "ClaimDataPlanePublication env db = Inr (item, db1)" "draws_other_claim token env" "unclaimed_by op token db"
  shows "unclaimed_by op token db1"
  using assms(1)
proof (cases rule: claim_cases)
  case (3 latest payload history)
  show ?thesis by (rule unclaimed_rewritten [OF 3(5) unclaimed_supersede [OF assms(3)]]) (use assms(2) in \<open>auto simp: claim_row_def draws_other_claim_def\<close>)
qed (use assms(3) unclaimed_supersede in simp_all)

interpretation unclaimed_run: stable "pub_step (draws_other_claim token)" "unclaimed_by op token" for token op
proof
  fix s t assume step: "pub_step (draws_other_claim token) s t" and u: "unclaimed_by op token s"
  from step show "unclaimed_by op token t"
  proof (cases rule: pub_step_cases)
    case (finish env op' token' phase code retry)
    show ?thesis by (rule unclaimed_rewritten [OF finish_cases(3) [OF finish(2)] u]) (auto simp: release_row_def)
  next
    case (claim env item)
    then show ?thesis using unclaimed_claim u by blast
  qed (use u in \<open>auto simp: same_core_def appended_def unclaimed_by_def\<close>)
qed

lemma claimed_by_other:
  assumes inv: "pub_inv db" and run: "ClaimDataPlanePublication env db = Inr (Some item, db1)" and other: "pd_ClaimToken item \<noteq> token"
  shows "unclaimed_by (pub_OperationID (pd_Publication item)) token db1"
  using run
proof (cases rule: claim_cases)
  case (3 latest payload history)
  let ?db = "supersede (pe_now env) (pub_Sequence latest) db" and ?op = "pub_OperationID latest"
  have "claimable (pe_now env) ?op o'" if "o' \<in> set (pd_outbox ?db)" "ob_OperationID o' = ?op" for o'
    using 3(3) outbox_unique [OF supersede_inv [OF inv] _ that(1)] that(2) by (metis claimable_def list_ex_iff)
  then show ?thesis using 3(4,5) other by (auto simp: unclaimed_by_def rewritten_def claim_row_def)
qed simp_all

subsection \<open>Removed references\<close>

definition clean_of_removed :: "publication_db \<Rightarrow> int \<Rightarrow> gateway_snapshot \<Rightarrow> bool" where
  "clean_of_removed db sequence state \<longleftrightarrow>
     (\<forall>r \<in> set (gs_Routes state). rt_Enabled r \<longrightarrow> rt_ModelID r \<in> cm_ID ` set (pd_models db) \<and> (\<forall>s. (rt_ModelID r, s) \<in> set (pd_removals db) \<longrightarrow> s < sequence))
   \<and> (\<forall>limits item row. gs_GatewayLimits state = Some limits \<longrightarrow> item \<in> set limits \<longrightarrow> cfg_Enabled (lim_Configuration item)
        \<longrightarrow> lim_ID item \<in> set (pd_fenced db) \<longrightarrow> (lim_ID item, row) \<in> set (pd_limits db) \<longrightarrow> lr_Version row < lim_Version item)"

definition removed_since :: "publication_db \<Rightarrow> int \<Rightarrow> string list" where
  "removed_since db sequence = [m. (m, s) \<leftarrow> pd_removals db, s \<ge> sequence]"

definition rule_fences :: "publication_db \<Rightarrow> gateway_snapshot \<Rightarrow> (string \<times> limit_row) list" where
  "rule_fences db state = (if gs_GatewayLimits state \<noteq> None then filter (\<lambda>(i, _). i \<in> set (pd_fenced db)) (pd_limits db) else [])"

lemma fence_of_row:
  assumes "distinct (map fst (pd_limits db))" "i \<in> set (pd_fenced db)" "(i, row) \<in> set (pd_limits db)" "gs_GatewayLimits state \<noteq> None"
  shows "fence_of (rule_fences db state) i = Some row"
proof -
  have "distinct (map fst (rev (filter (\<lambda>(i, _). i \<in> set (pd_fenced db)) (pd_limits db))))"
    using assms(1) by (simp add: rev_map [symmetric] distinct_map_filter)
  then show ?thesis using assms(2-4) unfolding fence_of_def rule_fences_def by (simp add: map_of_eq_Some_iff)
qed

lemma invalidate_limit_fields [simp]: "lim_ID (invalidate_limit fences item) = lim_ID item"
  by (auto simp: invalidate_limit_def split: option.splits)

lemma invalidate_limit_enabled:
  "cfg_Enabled (lim_Configuration (invalidate_limit fences item)) \<Longrightarrow> fence_of fences (lim_ID item) = Some row \<Longrightarrow> lr_Version row < lim_Version (invalidate_limit fences item)"
  by (auto simp: invalidate_limit_def split: if_splits)

lemma invalidate_limit_same: "\<not> limit_invalid fences item \<Longrightarrow> invalidate_limit fences item = item"
  by (auto simp: invalidate_limit_def limit_invalid_def split: option.splits)

lemma invalidateSelected_same:
  assumes "invalidateSelected state ids removed fences = (False, state1)"
  shows "state1 = state"
proof -
  have "map (invalidate_route ids removed) (gs_Routes state) = gs_Routes state"
    using assms by (intro map_idI) (auto simp: invalidateSelected_def invalidate_route_def list_ex_iff)
  moreover have "map_option (map (invalidate_limit fences)) (gs_GatewayLimits state) = gs_GatewayLimits state"
    using assms by (cases "gs_GatewayLimits state") (auto simp: invalidateSelected_def list_ex_iff intro!: map_idI invalidate_limit_same)
  ultimately show ?thesis using assms by (simp add: invalidateSelected_def)
qed

lemma invalidateSelected_clean:
  assumes "distinct (map fst (pd_limits db))"
    and "invalidateSelected state (map cm_ID (pd_models db)) (removed_since db sequence) (rule_fences db state) = (changed, state1)"
  shows "clean_of_removed db sequence state1"
proof -
  have "(m, s) \<in> set (pd_removals db) \<Longrightarrow> m \<notin> set (removed_since db sequence) \<Longrightarrow> s < sequence" for m s
    by (force simp: removed_since_def)
  with assms(2) have "\<forall>r \<in> set (gs_Routes state1). rt_Enabled r \<longrightarrow> rt_ModelID r \<in> cm_ID ` set (pd_models db) \<and> (\<forall>s. (rt_ModelID r, s) \<in> set (pd_removals db) \<longrightarrow> s < sequence)"
    by (auto simp: invalidateSelected_def invalidate_route_def split: if_splits)
  moreover have "lr_Version row < lim_Version item" if "gs_GatewayLimits state1 = Some limits" "item \<in> set limits" "cfg_Enabled (lim_Configuration item)"
      "lim_ID item \<in> set (pd_fenced db)" "(lim_ID item, row) \<in> set (pd_limits db)" for limits item row
  proof -
    have "gs_GatewayLimits state1 = map_option (map (invalidate_limit (rule_fences db state))) (gs_GatewayLimits state)"
      using arg_cong [OF assms(2), of "\<lambda>x. gs_GatewayLimits (snd x)"] by (simp add: invalidateSelected_def)
    with that(1,2) obtain item0 where i: "item = invalidate_limit (rule_fences db state) item0" "gs_GatewayLimits state \<noteq> None" by auto
    with that fence_of_row [OF assms(1) _ that(5) i(2)] show ?thesis using invalidate_limit_enabled by auto
  qed
  ultimately show ?thesis unfolding clean_of_removed_def by blast
qed

lemma newest_appended:
  assumes inv: "pub_inv db" and a: "appended db row db1"
  shows "newest db1 = Some row"
proof -
  have p: "pd_publications db1 = pd_publications db @ [row]" and lt: "\<forall>q \<in> set (pd_publications db). pub_Sequence q < pub_Sequence row"
    using inv a by (auto simp: pub_inv_def appended_def)
  have "find (\<lambda>p. list_all (\<lambda>q. pub_Sequence q \<le> pub_Sequence p) (xs @ [row])) (ps @ [row]) = Some row"
    if "\<forall>q \<in> set ps. pub_Sequence q < pub_Sequence row" "\<forall>q \<in> set xs. pub_Sequence q < pub_Sequence row" for ps xs
    using that by (induction ps) (auto simp: list_all_iff)
  with lt show ?thesis unfolding newest_def p by blast
qed

lemma insertPublication_snapshot:
  assumes inv: "pub_inv db" and run: "insertPublication env k r actor snapshot db = Inr (row, db1)" and new: "sn_Revision snapshot \<notin> sn_Revision ` set (pd_snapshots db)"
  shows "latest_snapshot db1 = Some (sn_Payload snapshot)"
proof -
  have "\<not> list_ex (\<lambda>s. sn_Revision s = sn_Revision snapshot) (pd_snapshots db)" unfolding list_ex_iff
    by (rule notI, elim bexE) (metis new imageI)
  then have "pd_snapshots db1 = pd_snapshots db @ [snapshot]" using run by (auto simp: insertPublication_def bindS_Inr_iff Let_def split: option.splits)
  moreover have "find (\<lambda>s. sn_Revision s = sn_Revision snapshot \<and> sn_ContentHash s = sn_ContentHash snapshot) (ss @ [snapshot]) = Some snapshot"
    if "sn_Revision snapshot \<notin> sn_Revision ` set ss" for ss using that by (induction ss) auto
  ultimately show ?thesis using new newest_appended [OF inv insertPublication_appends(1) [OF run]] insertPublication_appends(4,5) [OF run]
    by (simp add: latest_snapshot_def snapshot_of_def)
qed

definition named_clean :: "publication_env \<Rightarrow> publication_db \<Rightarrow> int \<Rightarrow> publication_db \<Rightarrow> bool" where
  "named_clean env db sequence db1 \<longleftrightarrow> (\<exists>p state. newest db1 = Some p \<and> clean_of_removed db sequence state
     \<and> (latest_snapshot db1 = Some state
        \<or> pub_Revision p = gs_Revision state \<and> pub_ContentHash p = publicationDigest (pe_json env state) \<and> gs_Revision state \<in> sn_Revision ` set (pd_snapshots db)))"

lemma same_core_latest: "same_core db db1 \<Longrightarrow> newest db1 = newest db \<and> latest_snapshot db1 = latest_snapshot db"
  by (auto simp: same_core_def newest_def latest_snapshot_def snapshot_of_def split: option.splits)

lemma clean_revision [simp]: "clean_of_removed db sequence (state \<lparr> gs_Revision := r \<rparr>) = clean_of_removed db sequence state"
  by (simp add: clean_of_removed_def)

lemma publish_invalidation_clean:
  assumes inv: "pub_inv db" and d: "distinct (map fst (pd_limits db))" and n: "newest db = Some p" "latest_snapshot db = Some state"
    and run: "publish_invalidation env state sequence db = Inr db1"
  shows "named_clean env db sequence db1"
proof -
  obtain changed state1 where i: "invalidateSelected state (map cm_ID (pd_models db)) (removed_since db sequence) (rule_fences db state) = (changed, state1)"
    by (meson surj_pair)
  note clean = invalidateSelected_clean [OF d i]
  show ?thesis
  proof (cases changed)
    case False
    then have "state1 = state" "db1 = db" using i run invalidateSelected_same [of state _ _ _ state1]
      unfolding publish_invalidation_def removed_since_def [symmetric] rule_fences_def [symmetric] by (auto simp: bindS_Inr_iff Let_def)
    with clean n show ?thesis by (auto simp: named_clean_def)
  next
    case True
    let ?s = "reference_snapshot env state1"
    from True i run obtain row db2 where r: "insertPublication env (publicationDigest (pe_uuid env ''key'')) (publicationDigest ''reference-removal'') [] ?s db = Inr (row, db2)"
      and e: "db1 = db2 \<lparr> pd_audit := pd_audit db2 @ [([], ''invalidate'', pub_OperationID row)] \<rparr>"
      unfolding publish_invalidation_def removed_since_def [symmetric] rule_fences_def [symmetric] by (auto simp: bindS_Inr_iff Let_def)
    have core: "newest db1 = newest db2" "latest_snapshot db1 = latest_snapshot db2" using same_core_latest [of db2 db1] by (auto simp: e same_core_def)
    have s: "sn_Revision ?s = gs_Revision (sn_Payload ?s)" "sn_ContentHash ?s = publicationDigest (pe_json env (sn_Payload ?s))" "clean_of_removed db sequence (sn_Payload ?s)"
      using clean by (simp_all add: reference_snapshot_def Let_def)
    show ?thesis unfolding named_clean_def
      by (rule exI [of _ row], rule exI [of _ "sn_Payload ?s"])
        (use newest_appended [OF inv insertPublication_appends(1) [OF r]] insertPublication_snapshot [OF inv r] insertPublication_appends(4,5) [OF r] s core in auto)
  qed
qed

subsection \<open>A cycle of the worker\<close>

lemma committed_ok: "(\<And>q. pe_ok env q) \<Longrightarrow> committed env m = m"
  by (cases m) (simp_all add: committed_def bindS_def ensure_def)

lemma no_signal_no_change:
  assumes "\<And>q. pe_ok env q" "\<And>v a. pd_signal db = Some (v, a) \<Longrightarrow> v \<le> a"
  shows "QueueReferenceInvalidations env db = Inr db"
  using assms by (cases "pd_signal db") (auto simp: QueueReferenceInvalidations_def committed_ok bindS_def ensure_def)

lemma newest_in_snapshot:
  assumes "pub_inv db" "p \<in> set (pd_publications db)"
  shows "snapshot_of db (pub_Revision p) (pub_ContentHash p) \<noteq> None"
  using assms by (auto simp: pub_inv_def snapshot_of_def find_None_iff)

lemma supersede_keeps_newest:
  assumes "pub_inv db" "newest db = Some p" "o' \<in> set (pd_outbox db)" "ob_OperationID o' = pub_OperationID p" "pending (pub_Phase p)"
  shows "o' \<in> set (pd_outbox (supersede now (pub_Sequence p) db))"
proof -
  let ?ps = "map (supersede_row now (pub_Sequence p)) (pd_publications db)"
  have "\<not> list_ex (\<lambda>q. pub_OperationID q = ob_OperationID o' \<and> pub_Phase q = ''superseded'') ?ps"
    unfolding list_ex_iff
  proof (rule notI, elim bexE conjE)
    fix q assume "q \<in> set ?ps" "pub_OperationID q = ob_OperationID o'" "pub_Phase q = ''superseded''"
    then obtain q0 where q0: "q0 \<in> set (pd_publications db)" "q = supersede_row now (pub_Sequence p) q0" by auto
    then have "q0 = p" using operation_unique [OF assms(1) _ newest_Some(1) [OF assms(2)]] assms(4) \<open>pub_OperationID q = _\<close> by (auto simp: supersede_row_def split: if_splits)
    with q0 \<open>pub_Phase q = _\<close> assms(5) show False by (auto simp: supersede_row_def pending_def)
  qed
  then have "close_row now ?ps o' = o'" by (simp add: close_row_def)
  then show ?thesis using supersede_rewritten [of now "pub_Sequence p" db] assms(3) unfolding rewritten_def by (metis image_eqI list.set_map)
qed

lemma claim_succeeds:
  assumes ok: "\<And>q. pe_ok env q" "pe_locked env" and inv: "pub_inv db" and n: "newest db = Some p" "pending (pub_Phase p)"
    and o': "o' \<in> set (pd_outbox db)" "claimable (pe_now env) (pub_OperationID p) o'"
  shows "\<exists>item db1. ClaimDataPlanePublication env db = Inr (Some item, db1)"
proof -
  let ?db = "supersede (pe_now env) (pub_Sequence p) db"
  have "list_ex (claimable (pe_now env) (pub_OperationID p)) (pd_outbox ?db)"
    using supersede_keeps_newest [OF inv n(1) o'(1) _ n(2)] o'(2) by (auto simp: list_ex_iff claimable_def)
  moreover obtain s where "snapshot_of db (pub_Revision p) (pub_ContentHash p) = Some s" using newest_in_snapshot [OF inv newest_Some(1) [OF n(1)]] by blast
  then have "find (\<lambda>s. sn_Revision s = pub_Revision p \<and> sn_ContentHash s = pub_ContentHash p) (pd_snapshots ?db) = Some s" by (simp add: snapshot_of_def supersede_def Let_def)
  ultimately show ?thesis using ok n unfolding ClaimDataPlanePublication_def
    by (simp add: committed_ok bindS_def ensure_def Let_def publicationInputs_def snapshot_of_def)
qed

lemma claim_result:
  assumes inv: "pub_inv db" and run: "ClaimDataPlanePublication env db = Inr (Some item, db1)" and n: "newest db = Some p"
  shows "pub_OperationID (pd_Publication item) = pub_OperationID p
    \<and> (\<exists>o' \<in> set (pd_outbox db1). finishable now (pub_OperationID p) (pd_ClaimToken item) db1 o' \<longleftrightarrow> now < pe_now env + 30 * second)
    \<and> (\<forall>q \<in> set (pd_publications db1). pending (pub_Phase q) \<longrightarrow> pub_OperationID q = pub_OperationID p)"
  using run
proof (cases rule: claim_cases)
  case (3 latest payload history)
  have l: "latest = p" using 3(1) n by simp
  let ?db = "supersede (pe_now env) (pub_Sequence p) db" and ?op = "pub_OperationID p"
  note w = 3(5) [unfolded l] and sup = supersede_rewritten [of "pe_now env" "pub_Sequence p" db]
  have op: "pub_OperationID (pd_Publication item) = ?op" using 3(4) l by simp
  have mem: "p \<in> set (pd_publications ?db)"
    using rewritten_identity [OF sup newest_Some(1) [OF n]] by (simp add: supersede_row_def)
  have bound: "pub_Sequence q \<le> pub_Sequence p" if "q \<in> set (pd_publications db1)" for q
    using that w sup newest_Some(2) [OF n] unfolding rewritten_def by auto
  obtain o1 where o1: "o1 \<in> set (pd_outbox ?db)" "claimable (pe_now env) ?op o1" using 3(3) l by (auto simp: list_ex_iff)
  have "projecting_row (pe_now env) ?op p \<in> set (pd_publications db1)" using rewritten_identity [OF w mem] by blast
  then have "list_ex (\<lambda>q. pub_OperationID q = ?op \<and> pub_Phase q = ''projecting'' \<and> \<not> list_ex (\<lambda>r. pub_Sequence r > pub_Sequence q) (pd_publications db1)) (pd_publications db1)"
    unfolding list_ex_iff using bound by (intro bexI [of _ "projecting_row (pe_now env) ?op p"]) (auto simp: projecting_row_def not_less)
  then have "finishable now ?op (pd_ClaimToken item) db1 (claim_row (pe_now env) ?op (pe_uuid env ''claim'') o1) \<longleftrightarrow> now < pe_now env + 30 * second"
    using o1(2) 3(4) by (simp add: finishable_def claim_row_def claimable_def)
  moreover have "claim_row (pe_now env) ?op (pe_uuid env ''claim'') o1 \<in> set (pd_outbox db1)" using w o1(1) by (simp add: rewritten_def)
  ultimately have fin: "\<exists>o' \<in> set (pd_outbox db1). finishable now ?op (pd_ClaimToken item) db1 o' \<longleftrightarrow> now < pe_now env + 30 * second" by blast
  have "pub_OperationID q = ?op" if q: "q \<in> set (pd_publications db1)" "pending (pub_Phase q)" for q
  proof -
    from q obtain q0 where q0: "q0 \<in> set (pd_publications db)" "q = projecting_row (pe_now env) ?op (supersede_row (pe_now env) (pub_Sequence p) q0)"
      using w sup unfolding rewritten_def by auto
    show ?thesis
    proof (rule ccontr)
      assume ne: "pub_OperationID q \<noteq> ?op"
      then have "\<not> (pub_Sequence q0 < pub_Sequence p)" "q0 \<noteq> p" using q(2) q0(2) by (auto simp: projecting_row_def supersede_row_def pending_def split: if_splits)
      with newest_Some(2) [OF n q0(1)] have "pub_Sequence q0 = pub_Sequence p" by simp
      then show False using \<open>q0 \<noteq> p\<close> sequence_unique [OF inv q0(1) newest_Some(1) [OF n]] by blast
    qed
  qed
  with op fin show ?thesis by blast
qed simp_all

lemma finish_succeeds:
  assumes ok: "\<And>q. pe_ok env q" and inv: "pub_inv db" and o': "o' \<in> set (pd_outbox db)" "finishable (pe_now env) op token db o'"
  shows "\<exists>db1. FinishDataPlanePublication env op token ''projected'' code retry db = Inr db1"
proof -
  have "distinct (pd_outbox db)" using outbox_distinct [OF inv] by (simp add: distinct_map)
  moreover have "filter (finishable (pe_now env) op token db) (pd_outbox db) \<noteq> []" using o' by (auto simp: filter_empty_conv)
  moreover have "x = o'" if "x \<in> set (filter (finishable (pe_now env) op token db) (pd_outbox db))" for x
    using that outbox_unique [OF inv _ o'(1), of x] o'(2) by (auto simp: finishable_def)
  ultimately have "length (filter (finishable (pe_now env) op token db) (pd_outbox db)) = 1"
    by (metis (no_types, lifting) distinct_card distinct_filter is_singletonI is_singletonI' is_singleton_altdef set_empty)
  then show ?thesis using ok unfolding FinishDataPlanePublication_def by (simp add: committed_ok bindS_def ensure_def Let_def)
qed

subsection \<open>Handlers and the initial state\<close>

definition publication_start :: "publication_db \<Rightarrow> bool" where
  "publication_start db \<longleftrightarrow> pd_publications db = [] \<and> pd_outbox db = [] \<and> pd_snapshots db = []"

lemma start_inv: "publication_start db \<Longrightarrow> pub_inv db"
  by (simp add: publication_start_def pub_inv_def)

lemmas reached_inv = pub_run.run_keeps [OF _ start_inv]

lemma publicationDigest_eqD: "publicationDigest x = publicationDigest y \<Longrightarrow> x = y \<or> sha_collision x y"
  by (auto simp: publicationDigest_def sha_collision_def)

lemma create_answered:
  assumes "createDataPlanePublication env enabled actor [k] normalized members db = (a, db1)"
  shows "a = Answered p \<Longrightarrow> \<exists>input derive. decode_publication members = Inr input
      \<and> queuePublication env (publicationDigest k) (publicationDigest (normalized input)) actor True derive db = Inr (p, db1)"
    and "(\<And>p. a \<noteq> Answered p) \<Longrightarrow> db1 = db"
proof -
  define r where "r = (\<lambda>input. QueueGatewayPublication env (publicationDigest k) (publicationDigest (normalized input)) actor (pr_IncludeGatewayLimits input) (capture_snapshot env input) db)"
  have "(\<exists>p input. a = Answered p \<and> decode_publication members = Inr input \<and> r input = Inr (p, db1)) \<or> (\<forall>p. a \<noteq> Answered p) \<and> db1 = db"
    using assms unfolding createDataPlanePublication_def by (auto simp: r_def split: if_splits sum.splits publication_error.splits)
  then show "a = Answered p \<Longrightarrow> \<exists>input derive. decode_publication members = Inr input
      \<and> queuePublication env (publicationDigest k) (publicationDigest (normalized input)) actor True derive db = Inr (p, db1)"
    "(\<And>p. a \<noteq> Answered p) \<Longrightarrow> db1 = db" unfolding r_def QueueGatewayPublication_def by blast+
qed

text \<open>Live evidence is shown only for the newest intent, after it was projected.\<close>

lemma observed_evidence_is_newest:
  assumes "pub_inv later" "\<forall>reason. pv_Conditions (observedPublication env observer p db later) \<noteq> UnknownConditions (pub_CreatedAt p) reason"
  shows "\<exists>q. newest later = Some q \<and> pub_OperationID q = pub_OperationID p \<and> pub_Phase q = ''projected''"
proof -
  have "IsLatestDataPlanePublication env p later = Inr True"
    using assms(2) by (auto simp: observedPublication_def publicationJSON_def Let_def split: option.splits sum.splits if_splits)
  then obtain q where q: "q \<in> set (pd_publications later)" "pub_OperationID q = pub_OperationID p" "pub_Phase q = ''projected''"
    "\<forall>r \<in> set (pd_publications later). pub_Sequence r \<le> pub_Sequence q" by (auto simp: IsLatestDataPlanePublication_def bindS_Inr_iff list_ex_iff not_less)
  then have "newest later \<noteq> None" by (auto simp: newest_def find_None_iff list_all_iff)
  then obtain n where n: "newest later = Some n" by blast
  with q newest_Some [OF n] have "n = q" by (intro sequence_unique [OF assms(1)]) (auto intro: order_antisym)
  with n q show ?thesis by blast
qed

subsection \<open>A small deployment\<close>

definition demo_pub_env :: "time \<Rightarrow> string \<Rightarrow> publication_env" where
  "demo_pub_env now u = \<lparr> pe_ok = (\<lambda>_. True), pe_locked = True, pe_now = now, pe_uuid = (\<lambda>_. u), pe_skip = 0,
     pe_catalog = demo_catalog_env, pe_json = (\<lambda>_. ''{}'') \<rparr>"

definition demo_hash :: "char \<Rightarrow> string" where
  "demo_hash c = replicate 64 c"

text \<open>A key that is not the digest of the identifier the invalidation below draws.\<close>

definition demo_key :: string where
  "demo_key = (if publicationDigest ''op-3'' = demo_hash CHR ''a'' then demo_hash CHR ''b'' else demo_hash CHR ''a'')"

definition demo_snapshot :: PublicationSnapshot where
  "demo_snapshot = \<lparr> sn_Revision = ''r1'', sn_ContentHash = demo_hash CHR ''c'', sn_Payload = \<lparr> gs_Revision = ''r1'', gs_Routes = [demo_route], gs_GatewayLimits = None \<rparr> \<rparr>"

definition demo_pub_0 :: publication_db where
  "demo_pub_0 = \<lparr> pd_snapshots = [], pd_publications = [], pd_outbox = [], pd_sequence = 0, pd_signal = None, pd_removals = [], pd_models = [], pd_limits = [], pd_fenced = [], pd_audit = [] \<rparr>"

definition demo_row :: "string \<Rightarrow> int \<Rightarrow> string \<Rightarrow> time \<Rightarrow> DataPlanePublication" where
  "demo_row op n k now = \<lparr> pub_OperationID = op, pub_Sequence = n, pub_IdempotencyKeyHash = k, pub_RequestHash = demo_hash CHR ''d'', pub_Revision = ''r1'', pub_ContentHash = demo_hash CHR ''c'',
     pub_Phase = ''queued'', pub_ErrorCode = None, pub_CreatedAt = now, pub_UpdatedAt = now, pub_IdempotencyExpiresAt = now + 24 * hour \<rparr>"

definition demo_box :: "string \<Rightarrow> time \<Rightarrow> publicationOutbox" where
  "demo_box op now = \<lparr> ob_OperationID = op, ob_ClaimToken = None, ob_LeaseUntil = None, ob_Attempts = 0, ob_NextAttemptAt = now, ob_CompletedAt = None \<rparr>"

definition demo_pub_1 :: publication_db where
  "demo_pub_1 = demo_pub_0 \<lparr> pd_snapshots := [demo_snapshot], pd_publications := [demo_row ''op-1'' 1 demo_key 100], pd_sequence := 1,
     pd_outbox := [demo_box ''op-1'' 100], pd_audit := [(''admin'', ''publish'', ''op-1'')] \<rparr>"

definition demo_pub_2 :: publication_db where
  "demo_pub_2 = demo_pub_1 \<lparr> pd_publications := [demo_row ''op-1'' 1 demo_key 100, demo_row ''op-2'' 2 (demo_hash CHR ''e'') 200], pd_sequence := 2,
     pd_outbox := [demo_box ''op-1'' 100, demo_box ''op-2'' 200], pd_audit := [(''admin'', ''publish'', ''op-1''), (''admin'', ''publish'', ''op-2'')] \<rparr>"

lemmas demo_pub_defs = demo_pub_env_def demo_snapshot_def demo_pub_0_def demo_row_def demo_box_def demo_pub_1_def demo_pub_2_def

lemma rune_count_bounds: "1 \<le> rune_count ''r1''" "rune_count ''r1'' \<le> 200"
  using rune_count_le [of "''r1''"] by (code_simp, simp)

lemma demo_hash_ok [simp]: "hash_ok (demo_hash c) \<longleftrightarrow> is_hex c" "demo_hash c = demo_hash d \<longleftrightarrow> c = d"
  by (simp_all add: hash_ok_def demo_hash_def list_all_iff)

lemma digest_hash_ok [simp]: "hash_ok (publicationDigest x)"
  using length_sha256 [of x] hex_alphabet by (auto simp: hash_ok_def list_all_iff publicationDigest_def)

lemma demo_hex [simp]: "is_hex CHR ''a''" "is_hex CHR ''b''" "is_hex CHR ''c''" "is_hex CHR ''d''" "is_hex CHR ''e''"
  by code_simp+

lemma demo_key_facts [simp]: "hash_ok demo_key" "demo_key \<noteq> demo_hash CHR ''e''" "publicationDigest ''op-3'' \<noteq> demo_key" "demo_key \<noteq> publicationDigest ''op-3''"
  by (auto simp: demo_key_def)

lemma demo_queue_1: "queuePublication (demo_pub_env 100 ''op-1'') demo_key (demo_hash CHR ''d'') ''admin'' True (\<lambda>_ _. Inr demo_snapshot) demo_pub_0 = Inr (demo_row ''op-1'' 1 demo_key 100, demo_pub_1)"
  using rune_count_bounds by (simp add: demo_pub_defs queuePublication_def committed_def by_key_def insertPublication_def bindS_def ensure_def Let_def)

lemma demo_queue_2: "queuePublication (demo_pub_env 200 ''op-2'') (demo_hash CHR ''e'') (demo_hash CHR ''d'') ''admin'' True (\<lambda>_ _. Inr demo_snapshot) demo_pub_1 = Inr (demo_row ''op-2'' 2 (demo_hash CHR ''e'') 200, demo_pub_2)"
  using rune_count_bounds by (simp add: demo_pub_defs queuePublication_def committed_def by_key_def insertPublication_def bindS_def ensure_def Let_def)

lemma demo_start: "publication_start demo_pub_0"
  by (simp add: publication_start_def demo_pub_0_def)

lemma demo_run_1: "(pub_step (\<lambda>_. True))\<^sup>*\<^sup>* demo_pub_0 demo_pub_1"
  by (rule r_into_rtranclp, rule pub_step.queue [OF TrueI demo_queue_1])

lemma demo_run_2: "(pub_step (\<lambda>_. True))\<^sup>*\<^sup>* demo_pub_0 demo_pub_2"
  by (rule rtranclp.rtrancl_into_rtrancl [OF demo_run_1], rule pub_step.queue [OF TrueI demo_queue_2])

lemma demo_claim: "\<exists>item db1. ClaimDataPlanePublication (demo_pub_env 300 ''c2'') demo_pub_1 = Inr (Some item, db1) \<and> pd_ClaimToken item = ''c2'' \<and> pub_OperationID (pd_Publication item) = ''op-1''"
  by (simp add: demo_pub_defs ClaimDataPlanePublication_def committed_def newest_def supersede_def pending_def claimable_def publicationInputs_def snapshot_of_def bindS_def ensure_def Let_def)

definition demo_pub_removed :: publication_db where
  "demo_pub_removed = demo_pub_1 \<lparr> pd_models := [], pd_limits := [], pd_fenced := [], pd_signal := Some (1, 0), pd_removals := [(''m1'', 1)] \<rparr>"

lemma demo_run_removed: "(pub_step (\<lambda>_. True))\<^sup>*\<^sup>* demo_pub_0 demo_pub_removed"
  unfolding demo_pub_removed_def by (rule rtranclp.rtrancl_into_rtrancl [OF demo_run_1], rule pub_step.catalog)

lemma length_publicationDigest: "length (publicationDigest x) = 64"
  using length_sha256 [of x] by (simp add: publicationDigest_def)

lemma reference_revision:
  "1 \<le> rune_count (''gateway-reference-'' @ publicationDigest x)" "rune_count (''gateway-reference-'' @ publicationDigest x) \<le> 200"
proof -
  show "1 \<le> rune_count (''gateway-reference-'' @ publicationDigest x)" by (subst rune_count_def, subst append_Cons, subst runes.simps) (simp add: Let_def)
  show "rune_count (''gateway-reference-'' @ publicationDigest x) \<le> 200"
    using rune_count_le [of "''gateway-reference-'' @ publicationDigest x"] by (simp add: length_publicationDigest)
qed

lemma demo_invalidation: "\<exists>db1. QueueReferenceInvalidations (demo_pub_env 300 ''op-3'') demo_pub_removed = Inr db1"
  using reference_revision
  by (simp add: demo_pub_removed_def demo_pub_defs QueueReferenceInvalidations_def committed_def publish_invalidation_def newest_def latest_snapshot_def snapshot_of_def invalidateSelected_def
      demo_route_def reference_snapshot_def insertPublication_def bindS_def ensure_def Let_def)

definition demo_publication_request :: publicationRequest where
  "demo_publication_request = \<lparr> pr_Revision = Some ''r1'', pr_IncludeGatewayLimits = True \<rparr>"

definition demo_create :: "string \<Rightarrow> publication_db \<Rightarrow> DataPlanePublication answer \<times> publication_db" where
  "demo_create u = createDataPlanePublication (demo_pub_env 100 u) True ''admin'' [''k''] (\<lambda>r. case pr_Revision r of None \<Rightarrow> [] | Some s \<Rightarrow> s) (Some [(''revision'', JsonString ''r1''), (''includeGatewayLimits'', JsonBool True)])"

lemma demo_create_1: "\<exists>p db1. demo_create ''op-1'' demo_pub_0 = (Answered p, db1)"
proof -
  have t: "trim_space ''r1'' = ''r1''" and k: "publicationKey_ok ''k''" and n: "normalizeDataPlaneState (\<lambda>_. None) \<lparr> dw_Revision = ''catalog-'', dw_Routes = [] \<rparr> = Some \<lparr> dw_Revision = ''catalog-'', dw_Routes = [] \<rparr>"
    by code_simp+
  have d: "deriveCatalogState demo_catalog_env [] ''r1'' = Some \<lparr> dw_Revision = ''r1'', dw_Routes = [] \<rparr>"
    using n by (simp add: deriveCatalogState_def demo_catalog_env_def deriveDataPlaneRoutes_def List.map_filter_def)
  have c: "capture_snapshot (demo_pub_env 100 ''op-1'') demo_publication_request [] (Some []) =
      Inr \<lparr> sn_Revision = ''r1'', sn_ContentHash = publicationDigest ''{}'', sn_Payload = \<lparr> gs_Revision = ''r1'', gs_Routes = [], gs_GatewayLimits = Some [] \<rparr> \<rparr>"
    using d by (simp add: capture_snapshot_def demo_publication_request_def demo_pub_env_def Let_def)
  have g: "GatewayLimits True [] = []" by code_simp
  obtain p db1 where "QueueGatewayPublication (demo_pub_env 100 ''op-1'') (publicationDigest ''k'') (publicationDigest ''r1'') ''admin'' True (capture_snapshot (demo_pub_env 100 ''op-1'') demo_publication_request) demo_pub_0 = Inr (p, db1)"
    using c g rune_count_bounds by (simp add: QueueGatewayPublication_def queuePublication_def committed_def by_key_def insertPublication_def demo_pub_0_def demo_pub_env_def bindS_def ensure_def Let_def)
  moreover have "decode_publication (Some [(''revision'', JsonString ''r1''), (''includeGatewayLimits'', JsonBool True)]) = Inr demo_publication_request"
    using t rune_count_bounds(2) by (simp add: decode_publication_def demo_publication_request_def Let_def not_less)
  ultimately show ?thesis using k by (simp add: demo_create_def createDataPlanePublication_def) (simp add: demo_publication_request_def)
qed

section \<open>Properties\<close>

text \<open>
  (C15) Newer intent wins. Once a publication that is not yet projected has been overtaken by a newer one, no
  worker completes it in any later run of requests, workers and catalog changes, with any token, and the
  operation is never reported as projected.
\<close>

theorem overtaken_intent_never_projects:
  assumes "publication_start db0" "(pub_step P)\<^sup>*\<^sup>* db0 db" "overtaken op db" "(pub_step P)\<^sup>*\<^sup>* db db1"
  shows "FinishDataPlanePublication env op token phase code retry db1 \<noteq> Inr db2
    \<and> (getDataPlanePublication env True (Some op) db1 = Answered p \<longrightarrow> pub_Phase p \<noteq> ''projected'')"
proof -
  have inv: "pub_inv db1" "overtaken op db1"
    using overtaken_run.run_keeps [OF assms(4)] reached_inv [OF assms(2,1)] assms(3) by blast+
  have "pub_Phase p \<noteq> ''projected''" if "getDataPlanePublication env True (Some op) db1 = Answered p"
  proof -
    have "GetDataPlanePublication env op db1 = Inr p"
      using that by (auto simp: getDataPlanePublication_def split: sum.splits publication_error.splits)
    then have "find (\<lambda>p. pub_OperationID p = op) (pd_publications db1) = Some p"
      by (auto simp: GetDataPlanePublication_def bindS_Inr_iff split: option.splits)
    from find_SomeD [OF this] show ?thesis using inv(2) operation_unique [OF inv(1)] unfolding overtaken_def by metis
  qed
  with overtaken_not_finished [OF inv] show ?thesis by blast
qed

theorem overtaken_intent_never_projects_witness:
  "FinishDataPlanePublication (demo_pub_env 300 ''c'') ''op-1'' ''c'' ''projected'' [] 0 demo_pub_2 \<noteq> Inr demo_pub_2
   \<and> getDataPlanePublication (demo_pub_env 300 ''c'') True (Some ''op-1'') demo_pub_2 = Answered (demo_row ''op-1'' 1 demo_key 100)
   \<and> pub_Phase (demo_row ''op-1'' 1 demo_key 100) \<noteq> ''projected''"
proof -
  have o: "overtaken ''op-1'' demo_pub_2" by (simp add: overtaken_def demo_pub_defs)
  have g: "getDataPlanePublication (demo_pub_env 300 ''c'') True (Some ''op-1'') demo_pub_2 = Answered (demo_row ''op-1'' 1 demo_key 100)"
    by (simp add: getDataPlanePublication_def GetDataPlanePublication_def bindS_def ensure_def demo_pub_defs)
  from overtaken_intent_never_projects [OF demo_start demo_run_2 o rtranclp.rtrancl_refl, of "demo_pub_env 300 ''c''" "''c''" "''projected''" "[]" 0 demo_pub_2] g show ?thesis by blast
qed

text \<open>
  (C16) An idempotency key names one operation. After a request with a key was answered, whatever happens in
  between, a later request with that key changes no table, and when it is answered it names the same
  operation, sequence and snapshot, and its body was the same up to a collision of SHA-256.
\<close>

theorem idempotency_key_names_one_operation:
  assumes "publication_start db0" "(pub_step P)\<^sup>*\<^sup>* db0 db"
    and "createDataPlanePublication env enabled actor [k] normalized members db = (Answered p, db1)"
    and "(pub_step P)\<^sup>*\<^sup>* db1 db2"
    and "createDataPlanePublication env' enabled' actor' [k] normalized members' db2 = (a, db3)"
  shows "db3 = db2 \<and> (\<forall>q. a = Answered q \<longrightarrow>
     pub_OperationID q = pub_OperationID p \<and> pub_Sequence q = pub_Sequence p \<and> pub_Revision q = pub_Revision p \<and> pub_ContentHash q = pub_ContentHash p
     \<and> (\<exists>input input'. decode_publication members = Inr input \<and> decode_publication members' = Inr input'
          \<and> (normalized input' = normalized input \<or> sha_collision (normalized input') (normalized input))))"
proof -
  obtain input derive where q: "decode_publication members = Inr input" "queuePublication env (publicationDigest k) (publicationDigest (normalized input)) actor True derive db = Inr (p, db1)"
    using create_answered(1) [OF assms(3)] by blast
  have "pub_inv db1" by (rule pub_step_inv [OF pub_step.queue [OF TrueI q(2)] reached_inv [OF assms(2,1)]])
  then have inv: "pub_inv db2" "bound (publicationDigest k) p db2" using bound_run.run_keeps [OF assms(4)] queue_binds(1) [OF q(2)] by blast+
  show ?thesis
  proof (cases "\<exists>q. a = Answered q")
    case False
    then show ?thesis using create_answered(2) [OF assms(5)] by blast
  next
    case True
    then obtain q' where a: "a = Answered q'" by blast
    then obtain input' derive' where q': "decode_publication members' = Inr input'" "queuePublication env' (publicationDigest k) (publicationDigest (normalized input')) actor' True derive' db2 = Inr (q', db3)"
      using create_answered(1) [OF assms(5)] by blast
    note same = queue_bound [OF inv q'(2)]
    then have "publicationDigest (normalized input') = publicationDigest (normalized input)"
      using queue_binds(2) [OF q(2)] by (simp add: same_identity_def)
    with same a q(1) q'(1) publicationDigest_eqD show ?thesis by (auto simp: same_identity_def)
  qed
qed

theorem idempotency_key_names_one_operation_witness:
  "\<exists>p db1 a. demo_create ''op-1'' demo_pub_0 = (Answered p, db1) \<and> demo_create ''op-2'' db1 = (a, db1)
     \<and> (\<forall>q. a = Answered q \<longrightarrow> pub_OperationID q = pub_OperationID p)"
proof -
  obtain p db1 where c: "demo_create ''op-1'' demo_pub_0 = (Answered p, db1)" using demo_create_1 by blast
  obtain a db3 where d: "demo_create ''op-2'' db1 = (a, db3)" by fastforce
  from idempotency_key_names_one_operation [OF demo_start rtranclp.rtrancl_refl c [unfolded demo_create_def] rtranclp.rtrancl_refl d [unfolded demo_create_def]] c d show ?thesis by blast
qed

text \<open>
  (C25) Claims fence. When a worker has claimed an operation, another worker that still holds an older token
  of that operation can never complete it afterwards, as long as no later claim draws the old token again.
\<close>

theorem reclaimed_operation_fences_old_worker:
  assumes "publication_start db0" "(pub_step P)\<^sup>*\<^sup>* db0 db"
    and "ClaimDataPlanePublication env db = Inr (Some item, db1)" "pd_ClaimToken item \<noteq> token"
    and "(pub_step (draws_other_claim token))\<^sup>*\<^sup>* db1 db2"
  shows "FinishDataPlanePublication env' (pub_OperationID (pd_Publication item)) token phase code retry db2 \<noteq> Inr db3"
  by (rule unclaimed_not_finished [OF unclaimed_run.run_keeps [OF assms(5) claimed_by_other [OF reached_inv [OF assms(2,1)] assms(3,4)]]])

theorem reclaimed_operation_fences_old_worker_witness:
  "\<exists>item db1. ClaimDataPlanePublication (demo_pub_env 300 ''c2'') demo_pub_1 = Inr (Some item, db1)
     \<and> FinishDataPlanePublication (demo_pub_env 400 ''x'') (pub_OperationID (pd_Publication item)) ''c1'' ''projected'' [] 0 db1 \<noteq> Inr db1"
proof -
  obtain item db1 where c: "ClaimDataPlanePublication (demo_pub_env 300 ''c2'') demo_pub_1 = Inr (Some item, db1)" "pd_ClaimToken item = ''c2''" using demo_claim by blast
  then have "pd_ClaimToken item \<noteq> ''c1''" by simp
  from reclaimed_operation_fences_old_worker [OF demo_start demo_run_1 c(1) this rtranclp.rtrancl_refl] c(1) show ?thesis by blast
qed

text \<open>
  (C28) A pending reference signal is acknowledged together with a clean newest intent: none of its enabled
  routes names a model that is missing or was removed since the previous intent, and none of its enabled rules
  is at or below the version at which a removed reference disabled it. The newest intent is stored with that
  state, or names it by revision and content hash when a snapshot of that revision existed before.
\<close>

theorem invalidation_leaves_no_removed_reference:
  assumes "publication_start db0" "(pub_step P)\<^sup>*\<^sup>* db0 db" "distinct (map fst (pd_limits db))"
    and "pe_locked env" "pd_signal db = Some (version, acknowledged)" "version > acknowledged" "newest db = Some p"
    and run: "QueueReferenceInvalidations env db = Inr db1"
  shows "pd_signal db1 = Some (version, version) \<and> named_clean env db (pub_Sequence p) db1"
proof -
  have inv: "pub_inv db" by (rule reached_inv [OF assms(2,1)])
  obtain state where s: "latest_snapshot db = Some state"
    using newest_in_snapshot [OF inv newest_Some(1) [OF assms(7)]] assms(7) by (auto simp: latest_snapshot_def)
  obtain db2 where p: "publish_invalidation env state (pub_Sequence p) db = Inr db2" and d: "db1 = db2 \<lparr> pd_signal := Some (version, version) \<rparr>"
    using committed_Inr [OF run [unfolded QueueReferenceInvalidations_def]] assms(4-7) s by (auto simp: bindS_Inr_iff)
  have "same_core db2 db1" by (simp add: d same_core_def)
  from same_core_latest [OF this] publish_invalidation_clean [OF inv assms(3,7) s p] show ?thesis by (simp add: d named_clean_def)
qed

theorem invalidation_leaves_no_removed_reference_witness:
  "\<exists>db1. QueueReferenceInvalidations (demo_pub_env 300 ''op-3'') demo_pub_removed = Inr db1 \<and> pd_signal db1 = Some (1, 1) \<and> named_clean (demo_pub_env 300 ''op-3'') demo_pub_removed 1 db1"
proof -
  obtain db1 where q: "QueueReferenceInvalidations (demo_pub_env 300 ''op-3'') demo_pub_removed = Inr db1" using demo_invalidation by blast
  have n: "newest demo_pub_removed = Some (demo_row ''op-1'' 1 demo_key 100)" by (simp add: newest_def demo_pub_removed_def demo_pub_defs)
  have "distinct (map fst (pd_limits demo_pub_removed))" "pe_locked (demo_pub_env 300 ''op-3'')" "pd_signal demo_pub_removed = Some (1, 0)" by (simp_all add: demo_pub_removed_def demo_pub_defs)
  from invalidation_leaves_no_removed_reference [OF demo_start demo_run_removed this _ n q] q show ?thesis by (auto simp: demo_row_def)
qed

text \<open>
  (C27) Intents are delivered. When the newest intent is pending and due, no reference signal waits, the
  statements succeed, the projector works and the worker finishes within its lease of 30 seconds, one cycle
  projects the newest intent and leaves no intent pending.
\<close>

theorem undisturbed_cycle_projects_newest:
  assumes "publication_start db0" "(pub_step P)\<^sup>*\<^sup>* db0 db"
    and n: "newest db = Some p" "pending (pub_Phase p)"
    and ok: "\<And>q. pe_ok envI q \<and> pe_ok envC q \<and> pe_ok envF q" "pe_locked envC"
    and quiet: "\<And>v a. pd_signal db = Some (v, a) \<Longrightarrow> v \<le> a"
    and due: "o' \<in> set (pd_outbox db)" "claimable (pe_now envC) (pub_OperationID p) o'"
    and works: "\<And>item. project item = ProjectionDone" and fast: "pe_now envF < pe_now envC + 30 * second"
  shows "\<exists>db1. stepRoutes envI envC envF project backoff db = (Inr (), db1)
    \<and> (\<exists>q \<in> set (pd_publications db1). pub_OperationID q = pub_OperationID p \<and> pub_Phase q = ''projected'')
    \<and> (\<forall>q \<in> set (pd_publications db1). \<not> pending (pub_Phase q))"
proof -
  have inv: "pub_inv db" by (rule reached_inv [OF assms(2,1)])
  have i: "QueueReferenceInvalidations envI db = Inr db" by (rule no_signal_no_change) (use ok quiet in blast)+
  obtain item db2 where c: "ClaimDataPlanePublication envC db = Inr (Some item, db2)"
    using claim_succeeds [OF _ ok(2) inv n due] ok(1) by blast
  let ?op = "pub_OperationID p"
  from claim_result [OF inv c n(1), of "pe_now envF"] fast obtain o2 where
    op: "pub_OperationID (pd_Publication item) = ?op" and o2: "o2 \<in> set (pd_outbox db2)" "finishable (pe_now envF) ?op (pd_ClaimToken item) db2 o2"
    and rest: "\<forall>q \<in> set (pd_publications db2). pending (pub_Phase q) \<longrightarrow> pub_OperationID q = ?op" by blast
  obtain db3 where f: "FinishDataPlanePublication envF ?op (pd_ClaimToken item) ''projected'' [] 0 db2 = Inr db3"
    using finish_succeeds [OF _ claim_inv [OF inv c] o2] ok(1) by blast
  have "stepRoutes envI envC envF project backoff db = (Inr (), db3)"
    using i c f op works by (simp add: stepRoutes_def completion_def)
  moreover have w: "pd_publications db3 = map (finish_row ?op ''projected'' [] (pe_now envF)) (pd_publications db2)"
    using finish_cases(3) [OF f] by (simp add: rewritten_def)
  moreover obtain q where "q \<in> set (pd_publications db2)" "pub_OperationID q = ?op" using o2(2) by (auto simp: finishable_def list_ex_iff)
  then have "\<exists>q \<in> set (pd_publications db3). pub_OperationID q = ?op \<and> pub_Phase q = ''projected''"
    unfolding w by (intro bexI [of _ "finish_row ?op ''projected'' [] (pe_now envF) q"]) (simp_all add: finish_row_def)
  moreover have "\<forall>q \<in> set (pd_publications db3). \<not> pending (pub_Phase q)" using rest unfolding w by (auto simp: finish_row_def pending_def)
  ultimately show ?thesis by blast
qed

theorem undisturbed_cycle_projects_newest_witness:
  "\<exists>db1. stepRoutes (demo_pub_env 300 ''u'') (demo_pub_env 301 ''c'') (demo_pub_env 302 ''u'') (\<lambda>_. ProjectionDone) (\<lambda>_. 0) demo_pub_1 = (Inr (), db1)
     \<and> (\<exists>q \<in> set (pd_publications db1). pub_OperationID q = ''op-1'' \<and> pub_Phase q = ''projected'') \<and> (\<forall>q \<in> set (pd_publications db1). \<not> pending (pub_Phase q))"
proof -
  have n: "newest demo_pub_1 = Some (demo_row ''op-1'' 1 demo_key 100)" "pending (pub_Phase (demo_row ''op-1'' 1 demo_key 100))" by (simp_all add: newest_def pending_def demo_pub_defs)
  have d: "demo_box ''op-1'' 100 \<in> set (pd_outbox demo_pub_1)" "claimable (pe_now (demo_pub_env 301 ''c'')) (pub_OperationID (demo_row ''op-1'' 1 demo_key 100)) (demo_box ''op-1'' 100)"
    by (simp_all add: claimable_def demo_pub_defs)
  have "\<exists>db1. stepRoutes (demo_pub_env 300 ''u'') (demo_pub_env 301 ''c'') (demo_pub_env 302 ''u'') (\<lambda>_. ProjectionDone) (\<lambda>_. 0) demo_pub_1 = (Inr (), db1)
    \<and> (\<exists>q \<in> set (pd_publications db1). pub_OperationID q = pub_OperationID (demo_row ''op-1'' 1 demo_key 100) \<and> pub_Phase q = ''projected'')
    \<and> (\<forall>q \<in> set (pd_publications db1). \<not> pending (pub_Phase q))"
    by (rule undisturbed_cycle_projects_newest [OF demo_start demo_run_1 n _ _ _ d]) (auto simp: demo_pub_defs)
  then show ?thesis by (simp add: demo_row_def)
qed

end
