(* ===== verification/Projector.thy ===== *)
theory Projector
  imports Publications "HOL-Library.AList"
begin

text \<open>
  Projection of a claimed publication to custom resources and the evidence read back from them
  (\<^verbatim>\<open>internal/publicationrelay/projector.go\<close>, \<^verbatim>\<open>policies.go\<close>, \<^verbatim>\<open>observer.go\<close> and the
  types of \<^verbatim>\<open>gateway-operator/api/v1alpha1\<close> they use). The Kubernetes API is a parameter: the answers of
  the reads and of the writes of one attempt are its environment, and an attempt yields the writes it issued.
\<close>

section \<open>Custom resources\<close>

record object_meta =
  om_Name :: string
  om_UID :: string
  om_ResourceVersion :: string
  om_Generation :: int
  om_Labels :: "(string \<times> string) list"
  om_Annotations :: "(string \<times> string) list"
  om_Deleting :: bool

record PublicationReference =
  ref_Sequence :: int
  ref_OperationID :: string
  ref_Revision :: string
  ref_ContentHash :: string

record kube_condition =
  kc_Type :: string
  kc_Status :: string
  kc_ObservedGeneration :: int
  kc_LastTransitionTime :: "time option"

record resource_status =
  st_ObservedPublication :: "PublicationReference option"
  st_AppliedSnapshot :: string
  st_ObservedGeneration :: int
  st_Conditions :: "kube_condition list"

record ModelRouteSpec =
  rs_DeploymentRef :: string
  rs_ModelID :: string
  rs_Protocol :: string
  rs_ProviderType :: string
  rs_Endpoint :: string
  rs_Model :: string
  rs_CredentialRef :: "(string \<times> string) option"
  rs_Enabled :: bool
  rs_TenantScope :: "(string list \<times> string list) option"

record ModelRoute =
  mr_Meta :: object_meta
  mr_Spec :: ModelRouteSpec
  mr_Status :: resource_status

record Quota =
  qt_Unit :: string
  qt_Maximum :: int
  qt_IntervalSeconds :: int

record ModelPolicySpec =
  ps_TargetRef :: "string \<times> string"
  ps_Disabled :: bool
  ps_NativeRule :: "(string \<times> int) option"
  ps_Subject :: "(string \<times> string) option"
  ps_RateLimits :: "(int \<times> int) list"
  ps_Quota :: "Quota option"

record ModelPolicy =
  mp_Meta :: object_meta
  mp_Spec :: ModelPolicySpec
  mp_Status :: resource_status

record DataPlaneEvidence =
  ev_Snapshot :: string
  ev_ObservedAt :: "time option"
  ev_GatewayUID :: string
  ev_PodUIDs :: "string list"

record DeploymentConfig =
  dc_Meta :: object_meta
  dc_DeploymentID :: string
  dc_Status :: resource_status
  dc_DataPlane :: "DataPlaneEvidence option"

section \<open>Markers\<close>

datatype project_error = ErrSuperseded | ErrOwnership | ErrSnapshot | ApiInvalid | ApiError

abbreviation ownerLabel :: string where "ownerLabel \<equiv> ''gateway.aep.zhiyuan.io/publication-deployment''"
abbreviation sequenceKey :: string where "sequenceKey \<equiv> ''gateway.aep.zhiyuan.io/publication-sequence''"
abbreviation operationKey :: string where "operationKey \<equiv> ''gateway.aep.zhiyuan.io/publication-operation-id''"
abbreviation hashKey :: string where "hashKey \<equiv> ''gateway.aep.zhiyuan.io/publication-content-hash''"
abbreviation revisionKey :: string where "revisionKey \<equiv> ''gateway.aep.zhiyuan.io/publication-revision''"
abbreviation auditResourceKey :: string where "auditResourceKey \<equiv> ''gateway.aep.zhiyuan.io/audit-resource-id''"

definition field_of :: "(string \<times> string) list \<Rightarrow> string \<Rightarrow> string" where
  "field_of m k = (case map_of m k of None \<Rightarrow> [] | Some v \<Rightarrow> v)"

definition owner :: "string \<Rightarrow> string" where
  "owner deployment = hex (take 16 (sha256 deployment))"

definition markers :: "DataPlanePublication \<Rightarrow> (string \<times> string) list" where
  "markers p = [(sequenceKey, itoa (pub_Sequence p)), (operationKey, pub_OperationID p), (hashKey, pub_ContentHash p),
     (revisionKey, pub_Revision p), (auditResourceKey, pub_OperationID p)]"

definition checkMarker :: "string \<Rightarrow> object_meta \<Rightarrow> DataPlanePublication \<Rightarrow> bool \<Rightarrow> project_error option" where
  "checkMarker deployment obj p required =
     (let label = field_of (om_Labels obj) ownerLabel; ann = field_of (om_Annotations obj) in
      if label = [] \<and> \<not> required \<and> ann sequenceKey = [] then None
      else if label \<noteq> owner deployment \<or> om_Deleting obj then Some ErrOwnership
      else case atoi (ann sequenceKey) of
        None \<Rightarrow> Some ErrOwnership
      | Some sequence \<Rightarrow>
          if sequence < 1 then Some ErrOwnership
          else if sequence > pub_Sequence p then Some ErrSuperseded
          else if sequence = pub_Sequence p \<and> (ann operationKey \<noteq> pub_OperationID p \<or> ann hashKey \<noteq> pub_ContentHash p) then Some ErrOwnership
          else None)"

definition mark :: "string \<Rightarrow> DataPlanePublication \<Rightarrow> object_meta \<Rightarrow> object_meta" where
  "mark deployment p obj =
     obj \<lparr> om_Labels := AList.update ownerLabel (owner deployment) (om_Labels obj),
           om_Annotations := fold (\<lambda>(k, v). AList.update k v) (markers p) (om_Annotations obj) \<rparr>"

section \<open>Desired resources\<close>

text \<open>The environment of one attempt: the deployment that owns the publication, the JSON encoder and the URL parser,
  the answers of the successive reads, the answer of a write, and the order in which a map is visited.\<close>

datatype kube_write =
    CreateRoute ModelRoute
  | UpdateRoute ModelRoute
  | CreatePolicy ModelPolicy
  | UpdatePolicy ModelPolicy
  | UpdateDeployment DeploymentConfig

record projector_env =
  pj_DeploymentID :: string
  pj_json :: "gateway_snapshot \<Rightarrow> string"
  pj_parse :: "string \<Rightarrow> url option"
  pj_deployment :: "nat \<Rightarrow> project_error + DeploymentConfig"
  pj_routes :: "nat \<Rightarrow> project_error + ModelRoute list"
  pj_policies :: "nat \<Rightarrow> project_error + ModelPolicy list"
  pj_write :: "kube_write \<Rightarrow> project_error option"
  pj_order :: "string list \<Rightarrow> string list"

definition routeSpec :: "projector_env \<Rightarrow> dataPlaneRoute \<Rightarrow> project_error + ModelRouteSpec" where
  "routeSpec env route =
     (case pj_parse env (rt_Endpoint route) of
        None \<Rightarrow> Inl ErrSnapshot
      | Some u \<Rightarrow>
          if url_Host u = [] \<or> (url_Scheme u \<noteq> ''http'' \<and> url_Scheme u \<noteq> ''https'') \<or> url_User u \<or> url_RawQuery u \<noteq> [] \<or> url_Fragment u \<noteq> [] then Inl ErrSnapshot
          else if rt_Protocol route \<noteq> ''anthropic'' \<and> rt_Protocol route \<noteq> ''openai-compatible'' then Inl ErrSnapshot
          else
           (let protocol = (if rt_Protocol route = ''anthropic'' then ''anthropic'' else ''openai'');
                provider = (if protocol = ''openai'' \<and> rt_ProviderType route = [] then ''openai'' else rt_ProviderType route) in
            if protocol = ''anthropic'' \<and> provider \<noteq> [] then Inl ErrSnapshot
            else if (case rt_CredentialRef route of None \<Rightarrow> False | Some r \<Rightarrow> ref_Namespace r \<noteq> None) then Inl ErrSnapshot
            else Inr \<lparr> rs_DeploymentRef = ''deployment'', rs_ModelID = rt_ModelID route, rs_Protocol = protocol, rs_ProviderType = provider,
                       rs_Endpoint = rt_Endpoint route, rs_Model = rt_UpstreamModel route,
                       rs_CredentialRef = map_option (\<lambda>r. (ref_Name r, ref_Key r)) (rt_CredentialRef route), rs_Enabled = rt_Enabled route, rs_TenantScope = None \<rparr>))"

fun tombstones :: "projector_env \<Rightarrow> dataPlaneRoute list \<Rightarrow> (string \<times> ModelRouteSpec) list \<Rightarrow> (string \<times> ModelRouteSpec) list" where
  "tombstones env [] desired = desired"
| "tombstones env (route # history) desired =
     (case routeSpec env (route \<lparr> rt_Enabled := False \<rparr>) of
        Inl _ \<Rightarrow> tombstones env history desired
      | Inr spec \<Rightarrow> tombstones env history (AList.update (rt_ModelID route) spec desired))"

fun current_routes :: "projector_env \<Rightarrow> dataPlaneRoute list \<Rightarrow> string list \<Rightarrow> (string \<times> ModelRouteSpec) list \<Rightarrow> project_error + (string \<times> ModelRouteSpec) list" where
  "current_routes env [] seen desired = Inr desired"
| "current_routes env (route # routes) seen desired =
     (if rt_ModelID route \<in> set seen then Inl ErrSnapshot
      else case routeSpec env route of
        Inl e \<Rightarrow> Inl e
      | Inr spec \<Rightarrow> current_routes env routes (rt_ModelID route # seen) (AList.update (rt_ModelID route) spec desired))"

definition desiredRoutes :: "projector_env \<Rightarrow> PublicationDelivery \<Rightarrow> project_error + (string \<times> ModelRouteSpec) list" where
  "desiredRoutes env item =
     (let p = pd_Publication item; current = pd_Payload item in
      if pub_Sequence p < 1 \<or> gs_Revision current \<noteq> pub_Revision p then Inl ErrSnapshot
      else if publicationDigest (pj_json env current) \<noteq> pub_ContentHash p then Inl ErrSnapshot
      else current_routes env (gs_Routes current) [] (tombstones env (pd_HistoricalRoutes item) []))"

definition policy_interval :: "string \<Rightarrow> int" where
  "policy_interval i = (if i = ''second'' then 1 else if i = ''minute'' then 60 else if i = ''hour'' then 3600 else if i = ''day'' then 86400 else 0)"

definition policySpec :: "Limit \<Rightarrow> ModelPolicySpec" where
  "policySpec rule =
     (let c = lim_Configuration rule; model = (if cfg_ScopeType c = ''model'' then cfg_ScopeID c else cfg_ModelID c) in
      \<lparr> ps_TargetRef = (case model of None \<Rightarrow> (''DeploymentConfig'', ''deployment'') | Some m \<Rightarrow> (''ModelRoute'', ''model-'' @ m)),
        ps_Disabled = (\<not> cfg_Enabled c), ps_NativeRule = Some (lim_ID rule, lim_Version rule),
        ps_Subject = Some (cfg_ScopeType c, (case cfg_ScopeID c of None \<Rightarrow> [] | Some i \<Rightarrow> if cfg_ScopeType c \<noteq> ''model'' then i else [])),
        ps_RateLimits = [], ps_Quota = Some \<lparr> qt_Unit = cfg_Kind c, qt_Maximum = cfg_Maximum c, qt_IntervalSeconds = policy_interval (cfg_Interval c) \<rparr> \<rparr>)"

fun policy_rules :: "(string \<times> ModelRouteSpec) list \<Rightarrow> Limit list \<Rightarrow> (string \<times> ModelPolicySpec) list \<Rightarrow> project_error + (string \<times> ModelPolicySpec) list" where
  "policy_rules routes [] desired = Inr desired"
| "policy_rules routes (rule # rules) desired =
     (let c = lim_Configuration rule; name = ''limit-'' @ owner (lim_ID rule);
          model = (if cfg_ScopeType c = ''model'' then cfg_ScopeID c else cfg_ModelID c) in
      if \<not> ValidID (lim_ID rule) \<or> lim_Version rule < 1 \<or> \<not> Configuration_Valid c then Inl ErrSnapshot
      else if map_of desired name \<noteq> None then Inl ErrSnapshot
      else if (case model of None \<Rightarrow> False | Some m \<Rightarrow> map_of routes m = None \<and> cfg_Enabled c) then Inl ErrSnapshot
      else policy_rules routes rules (AList.update name (policySpec rule) desired))"

definition desiredPolicies :: "projector_env \<Rightarrow> PublicationDelivery \<Rightarrow> project_error + (string \<times> ModelPolicySpec) list option" where
  "desiredPolicies env item =
     (case gs_GatewayLimits (pd_Payload item) of
        None \<Rightarrow> Inr None
      | Some limits \<Rightarrow>
         (case desiredRoutes env item of
            Inl e \<Rightarrow> Inl e
          | Inr routes \<Rightarrow> (case policy_rules routes limits [] of Inl e \<Rightarrow> Inl e | Inr desired \<Rightarrow> Inr (Some desired))))"

section \<open>One attempt\<close>

type_synonym attempt = "project_error option \<times> kube_write list"

definition and_then :: "attempt \<Rightarrow> attempt \<Rightarrow> attempt" where
  "and_then a b = (case a of (Some e, ws) \<Rightarrow> (Some e, ws) | (None, ws) \<Rightarrow> (fst b, ws @ snd b))"

definition issue_write :: "projector_env \<Rightarrow> kube_write \<Rightarrow> attempt" where
  "issue_write env w = (pj_write env w, [w])"

definition fresh_meta :: "string \<Rightarrow> object_meta" where
  "fresh_meta name = \<lparr> om_Name = name, om_UID = [], om_ResourceVersion = [], om_Generation = 0, om_Labels = [], om_Annotations = [], om_Deleting = False \<rparr>"

definition no_status :: resource_status where
  "no_status = \<lparr> st_ObservedPublication = None, st_AppliedSnapshot = [], st_ObservedGeneration = 0, st_Conditions = [] \<rparr>"

definition indexRoutes :: "ModelRoute list \<Rightarrow> string \<Rightarrow> ModelRoute option" where
  "indexRoutes routes = map_of (rev (map (\<lambda>r. (om_Name (mr_Meta r), r)) routes))"

definition writeRoute :: "projector_env \<Rightarrow> PublicationDelivery \<Rightarrow> string \<Rightarrow> ModelRouteSpec \<Rightarrow> ModelRoute option \<Rightarrow> attempt" where
  "writeRoute env item i spec live =
     (let p = pd_Publication item; dep = pj_DeploymentID env in
      case live of
        None \<Rightarrow> issue_write env (CreateRoute \<lparr> mr_Meta = mark dep p (fresh_meta (''model-'' @ i)), mr_Spec = spec, mr_Status = no_status \<rparr>)
      | Some obj \<Rightarrow>
         (case checkMarker dep (mr_Meta obj) p True of
            Some e \<Rightarrow> (Some e, [])
          | None \<Rightarrow>
             (let marked = mark dep p (mr_Meta obj) in
              if mr_Spec obj = spec \<and> mr_Meta obj = marked then (None, [])
              else issue_write env (UpdateRoute (obj \<lparr> mr_Spec := spec, mr_Meta := marked \<rparr>)))))"

fun writeRoutes :: "projector_env \<Rightarrow> PublicationDelivery \<Rightarrow> (string \<times> ModelRouteSpec) list \<Rightarrow> (string \<Rightarrow> ModelRoute option) \<Rightarrow> string list \<Rightarrow> attempt" where
  "writeRoutes env item desired live [] = (None, [])"
| "writeRoutes env item desired live (i # ids) =
     and_then (case map_of desired i of None \<Rightarrow> (None, []) | Some spec \<Rightarrow> writeRoute env item i spec (live (''model-'' @ i)))
       (writeRoutes env item desired live ids)"

fun verifyRoutes :: "projector_env \<Rightarrow> PublicationDelivery \<Rightarrow> (string \<times> ModelRouteSpec) list \<Rightarrow> (string \<Rightarrow> ModelRoute option) \<Rightarrow> string list \<Rightarrow> project_error option" where
  "verifyRoutes env item desired live [] = None"
| "verifyRoutes env item desired live (i # ids) =
     (case live (''model-'' @ i) of
        None \<Rightarrow> Some ApiError
      | Some obj \<Rightarrow>
         (case checkMarker (pj_DeploymentID env) (mr_Meta obj) (pd_Publication item) True of
            Some e \<Rightarrow> Some e
          | None \<Rightarrow>
              if field_of (om_Annotations (mr_Meta obj)) sequenceKey \<noteq> itoa (pub_Sequence (pd_Publication item)) \<or> map_of desired i \<noteq> Some (mr_Spec obj)
              then Some ErrOwnership else verifyRoutes env item desired live ids))"

definition writePolicy :: "projector_env \<Rightarrow> PublicationDelivery \<Rightarrow> string \<Rightarrow> ModelPolicySpec \<Rightarrow> ModelPolicy option \<Rightarrow> attempt" where
  "writePolicy env item name spec live =
     (let p = pd_Publication item; dep = pj_DeploymentID env in
      case live of
        None \<Rightarrow> issue_write env (CreatePolicy \<lparr> mp_Meta = mark dep p (fresh_meta name), mp_Spec = spec, mp_Status = no_status \<rparr>)
      | Some obj \<Rightarrow>
         (case checkMarker dep (mp_Meta obj) p True of
            Some e \<Rightarrow> (Some e, [])
          | None \<Rightarrow>
             (let marked = mark dep p (mp_Meta obj) in
              if mp_Spec obj = spec \<and> mp_Meta obj = marked then (None, [])
              else issue_write env (UpdatePolicy (obj \<lparr> mp_Spec := spec, mp_Meta := marked \<rparr>)))))"

fun writePolicies :: "projector_env \<Rightarrow> PublicationDelivery \<Rightarrow> (string \<times> ModelPolicySpec) list \<Rightarrow> (string \<Rightarrow> ModelPolicy option) \<Rightarrow> string list \<Rightarrow> attempt" where
  "writePolicies env item desired live [] = (None, [])"
| "writePolicies env item desired live (n # names) =
     and_then (case map_of desired n of None \<Rightarrow> (None, []) | Some spec \<Rightarrow> writePolicy env item n spec (live n))
       (writePolicies env item desired live names)"

fun verify_policy_items :: "projector_env \<Rightarrow> PublicationDelivery \<Rightarrow> (string \<times> ModelPolicySpec) list \<Rightarrow> ModelPolicy list \<Rightarrow> project_error option" where
  "verify_policy_items env item desired [] = None"
| "verify_policy_items env item desired (obj # objs) =
     (case map_of desired (om_Name (mp_Meta obj)) of
        None \<Rightarrow> Some ErrOwnership
      | Some spec \<Rightarrow>
         (case checkMarker (pj_DeploymentID env) (mp_Meta obj) (pd_Publication item) True of
            Some e \<Rightarrow> Some e
          | None \<Rightarrow>
              if field_of (om_Annotations (mp_Meta obj)) sequenceKey \<noteq> itoa (pub_Sequence (pd_Publication item)) \<or> mp_Spec obj \<noteq> spec
              then Some ErrOwnership else verify_policy_items env item desired objs))"

definition verifyPolicies :: "projector_env \<Rightarrow> PublicationDelivery \<Rightarrow> (string \<times> ModelPolicySpec) list \<Rightarrow> ModelPolicy list \<Rightarrow> project_error option" where
  "verifyPolicies env item desired items =
     (if length items \<noteq> length desired then Some ErrOwnership else verify_policy_items env item desired items)"

definition projectPolicies :: "projector_env \<Rightarrow> PublicationDelivery \<Rightarrow> attempt" where
  "projectPolicies env item =
     (case desiredPolicies env item of
        Inl e \<Rightarrow> (Some e, [])
      | Inr None \<Rightarrow> (None, [])
      | Inr (Some desired) \<Rightarrow>
         (case pj_policies env 0 of
            Inl e \<Rightarrow> (Some e, [])
          | Inr items \<Rightarrow>
              if list_ex (\<lambda>obj. map_of desired (om_Name (mp_Meta obj)) = None) items then (Some ErrOwnership, [])
              else and_then (writePolicies env item desired (map_of (rev (map (\<lambda>obj. (om_Name (mp_Meta obj), obj)) items))) (pj_order env (map fst desired)))
                (case pj_policies env 1 of Inl e \<Rightarrow> (Some e, []) | Inr items1 \<Rightarrow> (verifyPolicies env item desired items1, []))))"

definition confirm_deployment :: "projector_env \<Rightarrow> PublicationDelivery \<Rightarrow> attempt" where
  "confirm_deployment env item =
     (case pj_deployment env 2 of
        Inl e \<Rightarrow> (Some e, [])
      | Inr confirmed \<Rightarrow>
         (case checkMarker (pj_DeploymentID env) (dc_Meta confirmed) (pd_Publication item) True of
            Some e \<Rightarrow> (Some e, [])
          | None \<Rightarrow> (if field_of (om_Annotations (dc_Meta confirmed)) sequenceKey \<noteq> itoa (pub_Sequence (pd_Publication item)) then Some ErrOwnership else None, [])))"

definition stamp_deployment :: "projector_env \<Rightarrow> PublicationDelivery \<Rightarrow> attempt" where
  "stamp_deployment env item =
     (case pj_deployment env 1 of
        Inl e \<Rightarrow> (Some e, [])
      | Inr deployment \<Rightarrow>
          if dc_DeploymentID deployment \<noteq> pj_DeploymentID env then (Some ErrOwnership, [])
          else (case checkMarker (pj_DeploymentID env) (dc_Meta deployment) (pd_Publication item) False of
             Some e \<Rightarrow> (Some e, [])
           | None \<Rightarrow>
              (let marked = mark (pj_DeploymentID env) (pd_Publication item) (dc_Meta deployment) in
               and_then (if dc_Meta deployment = marked then (None, []) else issue_write env (UpdateDeployment (deployment \<lparr> dc_Meta := marked \<rparr>)))
                 (confirm_deployment env item))))"

definition Project :: "projector_env \<Rightarrow> PublicationDelivery \<Rightarrow> attempt" where
  "Project env item =
     (case desiredRoutes env item of
        Inl e \<Rightarrow> (Some e, [])
      | Inr desired \<Rightarrow>
         (case desiredPolicies env item of
            Inl e \<Rightarrow> (Some e, [])
          | Inr _ \<Rightarrow>
             (case pj_deployment env 0 of
                Inl e \<Rightarrow> (Some e, [])
              | Inr deployment \<Rightarrow>
                  if dc_DeploymentID deployment \<noteq> pj_DeploymentID env \<or> om_Deleting (dc_Meta deployment) then (Some ErrOwnership, [])
                  else (case checkMarker (pj_DeploymentID env) (dc_Meta deployment) (pd_Publication item) False of
                     Some e \<Rightarrow> (Some e, [])
                   | None \<Rightarrow>
                      (case pj_routes env 0 of
                         Inl e \<Rightarrow> (Some e, [])
                       | Inr items \<Rightarrow>
                          (let ids = sort (map fst desired) in
                           and_then (writeRoutes env item desired (indexRoutes items) ids)
                             (case pj_routes env 1 of
                                Inl e \<Rightarrow> (Some e, [])
                              | Inr items1 \<Rightarrow>
                                 (case verifyRoutes env item desired (indexRoutes items1) ids of
                                    Some e \<Rightarrow> (Some e, [])
                                  | None \<Rightarrow> and_then (projectPolicies env item) (stamp_deployment env item)))))))))"

text \<open>How the worker classifies the error of an attempt.\<close>

definition projection_of :: "project_error option \<Rightarrow> projection" where
  "projection_of r =
     (case r of
        None \<Rightarrow> ProjectionDone
      | Some ErrSuperseded \<Rightarrow> ProjectionSuperseded
      | Some ErrSnapshot \<Rightarrow> ProjectionSnapshot
      | Some ApiInvalid \<Rightarrow> ProjectionSnapshot
      | Some ErrOwnership \<Rightarrow> ProjectionOwnership
      | Some ApiError \<Rightarrow> ProjectionRetry)"

section \<open>Evidence\<close>

definition publicationRef :: "DataPlanePublication \<Rightarrow> PublicationReference" where
  "publicationRef p = \<lparr> ref_Sequence = pub_Sequence p, ref_OperationID = pub_OperationID p, ref_Revision = pub_Revision p, ref_ContentHash = pub_ContentHash p \<rparr>"

record observedObject =
  oo_object :: object_meta
  oo_status :: resource_status

definition matchingObject :: "string \<Rightarrow> observedObject \<Rightarrow> DataPlanePublication \<Rightarrow> bool" where
  "matchingObject deployment o' p \<longleftrightarrow>
     (let obj = oo_object o'; generation = st_ObservedGeneration (oo_status o') in
      om_UID obj \<noteq> [] \<and> \<not> generation < 1 \<and> generation = om_Generation obj \<and> st_ObservedPublication (oo_status o') = Some (publicationRef p)
      \<and> checkMarker deployment obj p True = None \<and> list_all (\<lambda>(k, v). field_of (om_Annotations obj) k = v) (markers p))"

definition FindStatusCondition :: "kube_condition list \<Rightarrow> string \<Rightarrow> kube_condition option" where
  "FindStatusCondition conditions kind = find (\<lambda>c. kc_Type c = kind) conditions"

fun observe_kind :: "string \<Rightarrow> string \<Rightarrow> DataPlanePublication \<Rightarrow> string \<Rightarrow> string \<Rightarrow> time \<Rightarrow> observedObject list \<Rightarrow> string \<times> time" where
  "observe_kind deployment applied p kind status since [] = (status, since)"
| "observe_kind deployment applied p kind status since (o' # os) =
     (case FindStatusCondition (st_Conditions (oo_status o')) kind of
        None \<Rightarrow> (''Unknown'', since)
      | Some c \<Rightarrow>
         (case kc_LastTransitionTime c of
            None \<Rightarrow> (''Unknown'', since)
          | Some t \<Rightarrow>
              if \<not> matchingObject deployment o' p \<or> kc_ObservedGeneration c \<noteq> om_Generation (oo_object o') \<or> (kc_Status c \<noteq> ''True'' \<and> kc_Status c \<noteq> ''False'')
              then (''Unknown'', since)
              else if kind = ''Applied'' \<and> kc_Status c = ''True'' \<and> (applied = [] \<or> st_AppliedSnapshot (oo_status o') \<noteq> applied) then (''Unknown'', since)
              else observe_kind deployment applied p kind (if kc_Status c = ''False'' then ''False'' else status) (if t > since then t else since) os))"

fun all_ready :: "time \<Rightarrow> observedObject list \<Rightarrow> time option" where
  "all_ready since [] = Some since"
| "all_ready since (o' # os) =
     (case FindStatusCondition (st_Conditions (oo_status o')) ''Ready'' of
        None \<Rightarrow> None
      | Some c \<Rightarrow>
         (case kc_LastTransitionTime c of
            None \<Rightarrow> None
          | Some t \<Rightarrow>
              if kc_Status c \<noteq> ''True'' \<or> kc_ObservedGeneration c \<noteq> st_ObservedGeneration (oo_status o') then None
              else all_ready (if t > since then t else since) os))"

definition Fresh :: "DataPlaneEvidence option \<Rightarrow> string \<Rightarrow> time \<Rightarrow> bool" where
  "Fresh evidence hash now =
     (case evidence of
        None \<Rightarrow> False
      | Some e \<Rightarrow>
         (case ev_ObservedAt e of
            None \<Rightarrow> False
          | Some t \<Rightarrow> length hash = 64 \<and> ev_Snapshot e = hash \<and> ev_GatewayUID e \<noteq> [] \<and> ev_PodUIDs e \<noteq> [] \<and> length (ev_PodUIDs e) \<le> 64
              \<and> t \<le> now \<and> now - t \<le> 90 * second \<and> list_all (\<lambda>u. u \<noteq> []) (ev_PodUIDs e) \<and> distinct (ev_PodUIDs e)))"

definition kind_condition :: "DataPlanePublication \<Rightarrow> string \<Rightarrow> string \<times> time \<Rightarrow> Condition" where
  "kind_condition p kind r =
     (case r of (status, since) \<Rightarrow>
        if status = ''Unknown'' then \<lparr> co_Type = kind, co_Status = ''Unknown'', co_ObservedRevision = None, co_Reason = ''RevisionNotObserved'', co_LastTransitionTime = pub_CreatedAt p \<rparr>
        else \<lparr> co_Type = kind, co_Status = status, co_ObservedRevision = Some (pub_Revision p),
               co_Reason = (if status = ''False'' then ''OperatorRejected'' else ''OperatorConfirmed''), co_LastTransitionTime = since \<rparr>)"

definition conclude :: "string \<Rightarrow> time \<Rightarrow> DeploymentConfig \<Rightarrow> DataPlanePublication \<Rightarrow> observedObject list \<Rightarrow> Condition list" where
  "conclude dep now deployment p objects =
     (let applied = st_AppliedSnapshot (dc_Status deployment);
          accepted = kind_condition p ''Accepted'' (observe_kind dep applied p ''Accepted'' ''True'' (pub_CreatedAt p) objects);
          writes = kind_condition p ''Applied'' (observe_kind dep applied p ''Applied'' ''True'' (pub_CreatedAt p) objects);
          unobserved = \<lparr> co_Type = ''Ready'', co_Status = ''Unknown'', co_ObservedRevision = None, co_Reason = ''DataPlaneNotObserved'', co_LastTransitionTime = pub_CreatedAt p \<rparr> in
      [accepted, writes,
       if co_Status accepted = ''True'' \<and> co_Status writes = ''True'' \<and> Fresh (dc_DataPlane deployment) applied now
       then (case all_ready (pub_CreatedAt p) objects of
               None \<Rightarrow> unobserved
             | Some t \<Rightarrow> \<lparr> co_Type = ''Ready'', co_Status = ''True'', co_ObservedRevision = Some (pub_Revision p), co_Reason = ''EnvoyConfigurationObserved'', co_LastTransitionTime = t \<rparr>)
       else unobserved])"

definition Observe :: "projector_env \<Rightarrow> time \<Rightarrow> PublicationDelivery \<Rightarrow> Condition list option" where
  "Observe env now item =
     (let p = pd_Publication item; dep = pj_DeploymentID env; unknown = Some (UnknownConditions (pub_CreatedAt p) ''RevisionNotObserved'') in
      case desiredRoutes env item of
        Inl _ \<Rightarrow> None
      | Inr desired \<Rightarrow>
         (case pj_deployment env 0 of
            Inl _ \<Rightarrow> None
          | Inr deployment \<Rightarrow>
              if dc_DeploymentID deployment \<noteq> dep then unknown
              else (case pj_routes env 0 of
                 Inl _ \<Rightarrow> None
               | Inr items \<Rightarrow>
                   if length items \<noteq> length desired then unknown
                   else if list_ex (\<lambda>(i, spec). case indexRoutes items (''model-'' @ i) of None \<Rightarrow> True | Some r \<Rightarrow> mr_Spec r \<noteq> spec) desired then unknown
                   else
                    (let routes = map (\<lambda>(i, _). case indexRoutes items (''model-'' @ i) of
                                         None \<Rightarrow> \<lparr> oo_object = fresh_meta [], oo_status = no_status \<rparr>
                                       | Some r \<Rightarrow> \<lparr> oo_object = mr_Meta r, oo_status = mr_Status r \<rparr>) desired;
                         finish = (\<lambda>objects. case pj_deployment env 1 of
                            Inl _ \<Rightarrow> None
                          | Inr confirmed \<Rightarrow>
                              if om_UID (dc_Meta confirmed) \<noteq> om_UID (dc_Meta deployment) \<or> om_ResourceVersion (dc_Meta confirmed) \<noteq> om_ResourceVersion (dc_Meta deployment)
                              then unknown else Some (conclude dep now deployment p objects));
                         base = \<lparr> oo_object = dc_Meta deployment, oo_status = dc_Status deployment \<rparr> # routes in
                     case desiredPolicies env item of
                       Inl _ \<Rightarrow> None
                     | Inr None \<Rightarrow> finish base
                     | Inr (Some policies) \<Rightarrow>
                        (case pj_policies env 0 of
                           Inl _ \<Rightarrow> None
                         | Inr live \<Rightarrow>
                             if verifyPolicies env item policies live \<noteq> None then unknown
                             else finish (base @ map (\<lambda>o'. \<lparr> oo_object = mp_Meta o', oo_status = mp_Status o' \<rparr>) live))))))"

section \<open>Markers\<close>

lemma show_nat_first: "\<exists>c r. show_nat n = c # r \<and> is_digit c"
  using show_nat_nonempty [of n] show_nat_digits [of _ n] by (cases "show_nat n") auto

lemma atoi_itoa: "0 \<le> n \<Longrightarrow> n < 2 ^ 63 \<Longrightarrow> atoi (itoa n) = Some n"
  and atoi_itoa_eq: "0 \<le> n \<Longrightarrow> atoi (itoa n) = Some v \<Longrightarrow> v = n"
proof -
  obtain c r where s: "show_nat (nat n) = c # r" "is_digit c" using show_nat_first by blast
  then have c: "c \<noteq> CHR ''-''" "c \<noteq> CHR ''+''" by (auto simp: is_digit_def byte_def)
  have d: "list_all is_digit (c # r)" "decimal_value (c # r) = nat n"
    using show_nat_digits [of _ "nat n"] decimal_value_show [of "nat n"] s by (auto simp: list_all_iff)
  show "atoi (itoa n) = Some n" if "0 \<le> n" "n < 2 ^ 63" using that s c d by (simp add: atoi_def itoa_def)
  show "v = n" if "0 \<le> n" "atoi (itoa n) = Some v" using that s c d by (simp add: atoi_def itoa_def split: if_splits)
qed

lemma atoi_empty [simp]: "atoi [] = None"
  by (simp add: atoi_def)

text \<open>An object that carries the marker of a publication.\<close>

definition carries :: "string \<Rightarrow> DataPlanePublication \<Rightarrow> object_meta \<Rightarrow> bool" where
  "carries deployment p obj \<longleftrightarrow> field_of (om_Labels obj) ownerLabel = owner deployment \<and> \<not> om_Deleting obj
     \<and> field_of (om_Annotations obj) sequenceKey = itoa (pub_Sequence p)
     \<and> field_of (om_Annotations obj) operationKey = pub_OperationID p \<and> field_of (om_Annotations obj) hashKey = pub_ContentHash p"

lemma checkMarker_carries:
  assumes "checkMarker deployment obj p True = None" "field_of (om_Annotations obj) sequenceKey = itoa (pub_Sequence p)" "0 \<le> pub_Sequence p"
  shows "carries deployment p obj"
  using assms atoi_itoa_eq [OF assms(3)] unfolding checkMarker_def carries_def
  by (auto simp: Let_def split: if_splits option.splits)

lemma checkMarker_older:
  assumes "checkMarker deployment obj p required = None" "atoi (field_of (om_Annotations obj) sequenceKey) = Some n"
  shows "n \<le> pub_Sequence p"
  using assms unfolding checkMarker_def by (auto simp: Let_def split: if_splits)

lemma field_of_update: "field_of (AList.update k v m) k' = (if k = k' then v else field_of m k')"
  by (simp add: field_of_def update_conv)

lemma mark_carries: "om_Deleting obj = False \<Longrightarrow> carries deployment p (mark deployment p obj)"
  by (simp add: carries_def mark_def markers_def field_of_update)

lemma mark_sequence [simp]: "field_of (om_Annotations (mark deployment p obj)) sequenceKey = itoa (pub_Sequence p)"
  by (simp add: mark_def markers_def field_of_update)

lemma mark_fields [simp]: "om_Name (mark deployment p obj) = om_Name obj" "om_ResourceVersion (mark deployment p obj) = om_ResourceVersion obj"
  by (simp_all add: mark_def)

section \<open>Desired routes\<close>

lemma routeSpec_fields:
  assumes "routeSpec env r = Inr spec"
  shows "rs_ModelID spec = rt_ModelID r" "rs_Enabled spec = rt_Enabled r" "rs_Endpoint spec = rt_Endpoint r" "rs_Model spec = rt_UpstreamModel r"
    "rs_CredentialRef spec = map_option (\<lambda>c. (ref_Name c, ref_Key c)) (rt_CredentialRef r)"
  using assms by (auto simp: routeSpec_def Let_def split: option.splits if_splits)

lemma tombstones_disabled:
  assumes "map_of (tombstones env history desired) i = Some spec" "\<And>i spec. map_of desired i = Some spec \<Longrightarrow> \<not> rs_Enabled spec"
  shows "\<not> rs_Enabled spec"
  using assms
proof (induction env history desired rule: tombstones.induct)
  case (2 env route history desired)
  show ?case
  proof (cases "routeSpec env (route \<lparr> rt_Enabled := False \<rparr>)")
    case (Inl e)
    with 2 show ?thesis by simp
  next
    case (Inr s)
    have s: "\<not> rs_Enabled s" using routeSpec_fields(2) [OF Inr] by simp
    show ?thesis
    proof (rule "2.IH"(2) [OF Inr])
      show "\<not> rs_Enabled x" if "map_of (AList.update (rt_ModelID route) s desired) k = Some x" for k x
        using that s "2.prems"(2) [of k x] by (auto simp: update_conv' split: if_splits)
    qed (use "2.prems"(1) Inr in simp)
  qed
qed simp

lemma tombstones_keep: "map_of desired i \<noteq> None \<Longrightarrow> map_of (tombstones env history desired) i \<noteq> None"
  by (induction env history desired rule: tombstones.induct) (auto simp: update_conv' split: sum.splits)

lemma tombstones_cover:
  "r \<in> set history \<Longrightarrow> routeSpec env (r \<lparr> rt_Enabled := False \<rparr>) = Inr spec \<Longrightarrow> map_of (tombstones env history desired) (rt_ModelID r) \<noteq> None"
proof (induction history arbitrary: desired)
  case (Cons a history)
  then show ?case using tombstones_keep [of "AList.update (rt_ModelID r) spec desired" "rt_ModelID r" env history]
    by (auto simp: update_conv' simp del: not_None_eq split: sum.splits)
qed simp

lemma current_routes_spec:
  assumes "current_routes env routes seen desired = Inr result"
  shows "\<forall>r \<in> set routes. rt_ModelID r \<notin> set seen \<and> (\<exists>spec. routeSpec env r = Inr spec \<and> map_of result (rt_ModelID r) = Some spec)"
    and "i \<notin> rt_ModelID ` set routes \<Longrightarrow> map_of result i = map_of desired i"
proof -
  have "(\<forall>r \<in> set routes. rt_ModelID r \<notin> set seen \<and> (\<exists>spec. routeSpec env r = Inr spec \<and> map_of result (rt_ModelID r) = Some spec))
      \<and> (\<forall>i. i \<notin> rt_ModelID ` set routes \<longrightarrow> map_of result i = map_of desired i)"
    using assms
  proof (induction env routes seen desired arbitrary: result rule: current_routes.induct)
    case (2 env route routes seen desired)
    then obtain spec where s: "routeSpec env route = Inr spec" "rt_ModelID route \<notin> set seen"
      "current_routes env routes (rt_ModelID route # seen) (AList.update (rt_ModelID route) spec desired) = Inr result"
      by (auto split: if_splits sum.splits)
    from "2.IH" [OF s(2,1,3)] have IH: "\<forall>r \<in> set routes. rt_ModelID r \<notin> set (rt_ModelID route # seen) \<and> (\<exists>spec. routeSpec env r = Inr spec \<and> map_of result (rt_ModelID r) = Some spec)"
      "\<forall>i. i \<notin> rt_ModelID ` set routes \<longrightarrow> map_of result i = map_of (AList.update (rt_ModelID route) spec desired) i" by blast+
    have "rt_ModelID route \<notin> rt_ModelID ` set routes" using IH(1) by auto
    with IH s show ?case by (auto simp: update_conv')
  qed simp
  then show "\<forall>r \<in> set routes. rt_ModelID r \<notin> set seen \<and> (\<exists>spec. routeSpec env r = Inr spec \<and> map_of result (rt_ModelID r) = Some spec)"
    "i \<notin> rt_ModelID ` set routes \<Longrightarrow> map_of result i = map_of desired i" by blast+
qed

lemma desiredRoutes_spec:
  assumes "desiredRoutes env item = Inr desired"
  shows "1 \<le> pub_Sequence (pd_Publication item)" "pub_ContentHash (pd_Publication item) = publicationDigest (pj_json env (pd_Payload item))"
    "r \<in> set (gs_Routes (pd_Payload item)) \<Longrightarrow> \<exists>spec. routeSpec env r = Inr spec \<and> map_of desired (rt_ModelID r) = Some spec"
    "i \<notin> rt_ModelID ` set (gs_Routes (pd_Payload item)) \<Longrightarrow> map_of desired i = Some spec \<Longrightarrow> \<not> rs_Enabled spec"
    "h \<in> set (pd_HistoricalRoutes item) \<Longrightarrow> routeSpec env (h \<lparr> rt_Enabled := False \<rparr>) = Inr hspec \<Longrightarrow> map_of desired (rt_ModelID h) \<noteq> None"
proof -
  let ?routes = "gs_Routes (pd_Payload item)" and ?t = "tombstones env (pd_HistoricalRoutes item) []"
  show "1 \<le> pub_Sequence (pd_Publication item)" "pub_ContentHash (pd_Publication item) = publicationDigest (pj_json env (pd_Payload item))"
    using assms by (auto simp: desiredRoutes_def Let_def split: if_splits)
  have c: "current_routes env ?routes [] ?t = Inr desired" using assms by (auto simp: desiredRoutes_def Let_def split: if_splits)
  show "\<exists>spec. routeSpec env r = Inr spec \<and> map_of desired (rt_ModelID r) = Some spec" if "r \<in> set ?routes" using current_routes_spec(1) [OF c] that by blast
  show "\<not> rs_Enabled spec" if "i \<notin> rt_ModelID ` set ?routes" "map_of desired i = Some spec"
    using current_routes_spec(2) [OF c that(1)] that(2) tombstones_disabled [of env "pd_HistoricalRoutes item" "[]" i spec] by simp
  show "map_of desired (rt_ModelID h) \<noteq> None" if "h \<in> set (pd_HistoricalRoutes item)" "routeSpec env (h \<lparr> rt_Enabled := False \<rparr>) = Inr hspec"
  proof (cases "rt_ModelID h \<in> rt_ModelID ` set ?routes")
    case True
    then obtain r where "r \<in> set ?routes" "rt_ModelID r = rt_ModelID h" by auto
    with current_routes_spec(1) [OF c] show ?thesis by force
  next
    case False
    with current_routes_spec(2) [OF c False] tombstones_cover [OF that] show ?thesis by simp
  qed
qed

section \<open>What an attempt that succeeds has confirmed\<close>

lemma and_then_None: "and_then a b = (None, ws) \<longleftrightarrow> fst a = None \<and> fst b = None \<and> ws = snd a @ snd b"
  by (cases a) (auto simp: and_then_def split: option.splits)

lemma fst_and_then [simp]: "fst (and_then a b) = None \<longleftrightarrow> fst a = None \<and> fst b = None"
  by (cases a) (auto simp: and_then_def split: option.splits)

lemma verifyRoutes_None:
  "verifyRoutes env item desired live ids = None \<Longrightarrow> i \<in> set ids \<Longrightarrow>
     \<exists>obj. live (''model-'' @ i) = Some obj \<and> checkMarker (pj_DeploymentID env) (mr_Meta obj) (pd_Publication item) True = None
       \<and> field_of (om_Annotations (mr_Meta obj)) sequenceKey = itoa (pub_Sequence (pd_Publication item)) \<and> map_of desired i = Some (mr_Spec obj)"
  by (induction env item desired live ids rule: verifyRoutes.induct) (auto split: option.splits if_splits)

lemma indexRoutes_Some: "indexRoutes items n = Some r \<Longrightarrow> r \<in> set items \<and> om_Name (mr_Meta r) = n"
  unfolding indexRoutes_def by (auto dest!: map_of_SomeD)

lemma verify_policy_items_None:
  "verify_policy_items env item desired objs = None \<Longrightarrow> obj \<in> set objs \<Longrightarrow>
     map_of desired (om_Name (mp_Meta obj)) = Some (mp_Spec obj) \<and> checkMarker (pj_DeploymentID env) (mp_Meta obj) (pd_Publication item) True = None
       \<and> field_of (om_Annotations (mp_Meta obj)) sequenceKey = itoa (pub_Sequence (pd_Publication item))"
  by (induction env item desired objs rule: verify_policy_items.induct) (auto split: option.splits if_splits)

lemma policy_rules_step:
  assumes "policy_rules routes (rule # rules) desired = Inr result"
  shows "map_of desired (''limit-'' @ owner (lim_ID rule)) = None"
    "policy_rules routes rules (AList.update (''limit-'' @ owner (lim_ID rule)) (policySpec rule) desired) = Inr result"
  using assms by (simp_all add: Let_def split: if_splits)

lemma policy_rules_spec:
  assumes "policy_rules routes rules desired = Inr result" "distinct (map fst desired)"
  shows "distinct (map fst result) \<and> (\<forall>i spec. map_of desired i = Some spec \<longrightarrow> map_of result i = Some spec)
    \<and> (\<forall>rule \<in> set rules. map_of result (''limit-'' @ owner (lim_ID rule)) = Some (policySpec rule))"
  using assms
proof (induction rules arbitrary: desired)
  case (Cons rule rules)
  let ?n = "''limit-'' @ owner (lim_ID rule)"
  note step = policy_rules_step [OF Cons.prems(1)]
  from Cons.IH [OF step(2)] Cons.prems(2) have IH: "distinct (map fst result)"
    "\<And>i spec. map_of (AList.update ?n (policySpec rule) desired) i = Some spec \<Longrightarrow> map_of result i = Some spec"
    "\<forall>r \<in> set rules. map_of result (''limit-'' @ owner (lim_ID r)) = Some (policySpec r)" by (auto simp: distinct_update simp del: append_Cons)
  have "map_of result i = Some spec" if "map_of desired i = Some spec" for i spec
  proof (rule IH(2))
    show "map_of (AList.update ?n (policySpec rule) desired) i = Some spec"
      using that step(1) by (cases "i = ?n") (auto simp: update_conv' simp del: append_Cons)
  qed
  moreover have "map_of result ?n = Some (policySpec rule)" by (rule IH(2)) (simp add: update_conv' del: append_Cons)
  ultimately show ?case using IH(1,3) by (simp del: append_Cons)
qed simp

lemma verifyPolicies_cover:
  assumes v: "verifyPolicies env item desired items = None" and "distinct (map fst desired)" "distinct (map (\<lambda>o'. om_Name (mp_Meta o')) items)"
    and n: "map_of desired n = Some spec"
  shows "\<exists>obj \<in> set items. om_Name (mp_Meta obj) = n \<and> mp_Spec obj = spec \<and> checkMarker (pj_DeploymentID env) (mp_Meta obj) (pd_Publication item) True = None
       \<and> field_of (om_Annotations (mp_Meta obj)) sequenceKey = itoa (pub_Sequence (pd_Publication item))"
proof -
  let ?names = "(\<lambda>o'. om_Name (mp_Meta o')) ` set items" and ?keys = "fst ` set desired"
  have each: "verify_policy_items env item desired items = None" "length items = length desired" using v by (auto simp: verifyPolicies_def split: if_splits)
  have "?names \<subseteq> ?keys" using verify_policy_items_None [OF each(1)] by (force dest: map_of_SomeD)
  moreover have "card ?names = card ?keys"
    using assms(2,3) each(2) distinct_card [of "map fst desired"] distinct_card [of "map (\<lambda>o'. om_Name (mp_Meta o')) items"] by simp
  ultimately have "?names = ?keys" by (intro card_subset_eq) auto
  moreover have "n \<in> ?keys" using map_of_SomeD [OF n] by force
  ultimately have "n \<in> ?names" by simp
  then obtain obj where "obj \<in> set items" "om_Name (mp_Meta obj) = n" by auto
  with verify_policy_items_None [OF each(1)] n show ?thesis by force
qed

lemma Project_None:
  assumes "Project env item = (None, ws)"
  obtains desired items where "desiredRoutes env item = Inr desired" "pj_routes env 1 = Inr items"
    "verifyRoutes env item desired (indexRoutes items) (sort (map fst desired)) = None"
    "fst (projectPolicies env item) = None" "fst (stamp_deployment env item) = None"
  using assms unfolding Project_def Let_def
  by (auto simp: and_then_None split: sum.splits if_splits option.splits)

lemma projectPolicies_None:
  assumes "fst (projectPolicies env item) = None" "gs_GatewayLimits (pd_Payload item) = Some limits" "desiredRoutes env item = Inr routes"
  obtains desired items where "policy_rules routes limits [] = Inr desired" "pj_policies env 1 = Inr items" "verifyPolicies env item desired items = None"
proof -
  obtain desired where d: "policy_rules routes limits [] = Inr desired" "desiredPolicies env item = Inr (Some desired)"
    using assms unfolding projectPolicies_def by (auto simp: desiredPolicies_def split: sum.splits)
  moreover obtain items where "pj_policies env 1 = Inr items" "verifyPolicies env item desired items = None"
    using assms(1) d(2) unfolding projectPolicies_def and_then_def by (auto split: sum.splits if_splits option.splits prod.splits)
  ultimately show thesis using that by blast
qed

lemma stamp_deployment_None:
  assumes "fst (stamp_deployment env item) = None"
  obtains confirmed where "pj_deployment env 2 = Inr confirmed" "checkMarker (pj_DeploymentID env) (dc_Meta confirmed) (pd_Publication item) True = None"
    "field_of (om_Annotations (dc_Meta confirmed)) sequenceKey = itoa (pub_Sequence (pd_Publication item))"
proof -
  have "fst (confirm_deployment env item) = None"
    using assms unfolding stamp_deployment_def Let_def and_then_def by (auto split: sum.splits if_splits option.splits prod.splits)
  then show thesis using that unfolding confirm_deployment_def by (auto split: sum.splits option.splits if_splits)
qed

text \<open>Reads after the writes show the publication: its routes as they are, disabled tombstones for the other models of its history, one
  policy per rule (names are unique in a namespace), and the marker of the deployment.\<close>

definition confirmed_by_reads :: "projector_env \<Rightarrow> PublicationDelivery \<Rightarrow> bool" where
  "confirmed_by_reads env item \<longleftrightarrow> (\<exists>items confirmed. pj_routes env 1 = Inr items \<and> pj_deployment env 2 = Inr confirmed \<and> carries (pj_DeploymentID env) (pd_Publication item) (dc_Meta confirmed)
     \<and> (\<forall>r \<in> set (gs_Routes (pd_Payload item)). \<exists>obj \<in> set items. om_Name (mr_Meta obj) = ''model-'' @ rt_ModelID r
          \<and> carries (pj_DeploymentID env) (pd_Publication item) (mr_Meta obj) \<and> routeSpec env r = Inr (mr_Spec obj))
     \<and> (\<forall>h \<in> set (pd_HistoricalRoutes item). rt_ModelID h \<notin> rt_ModelID ` set (gs_Routes (pd_Payload item)) \<longrightarrow> (\<exists>s. routeSpec env (h \<lparr> rt_Enabled := False \<rparr>) = Inr s) \<longrightarrow>
          (\<exists>obj \<in> set items. om_Name (mr_Meta obj) = ''model-'' @ rt_ModelID h \<and> carries (pj_DeploymentID env) (pd_Publication item) (mr_Meta obj) \<and> \<not> rs_Enabled (mr_Spec obj)))
     \<and> (\<forall>limits policies. gs_GatewayLimits (pd_Payload item) = Some limits \<longrightarrow> pj_policies env 1 = Inr policies \<longrightarrow> distinct (map (\<lambda>o'. om_Name (mp_Meta o')) policies) \<longrightarrow>
          (\<forall>rule \<in> set limits. \<exists>obj \<in> set policies. om_Name (mp_Meta obj) = ''limit-'' @ owner (lim_ID rule)
             \<and> carries (pj_DeploymentID env) (pd_Publication item) (mp_Meta obj) \<and> mp_Spec obj = policySpec rule)))"

lemma projection_is_confirmed:
  assumes "Project env item = (None, ws)"
  shows "confirmed_by_reads env item"
proof -
  let ?p = "pd_Publication item" and ?dep = "pj_DeploymentID env" and ?routes = "gs_Routes (pd_Payload item)"
  obtain desired items where d: "desiredRoutes env item = Inr desired" "pj_routes env 1 = Inr items"
    "verifyRoutes env item desired (indexRoutes items) (sort (map fst desired)) = None" "fst (projectPolicies env item) = None" "fst (stamp_deployment env item) = None"
    using Project_None [OF assms] .
  note spec = desiredRoutes_spec [OF d(1)]
  have seq: "0 \<le> pub_Sequence ?p" using spec(1) by simp
  obtain confirmed where c: "pj_deployment env 2 = Inr confirmed" "carries ?dep ?p (dc_Meta confirmed)"
    using stamp_deployment_None [OF d(5)] checkMarker_carries [OF _ _ seq] by metis
  have live: "\<exists>obj \<in> set items. om_Name (mr_Meta obj) = ''model-'' @ i \<and> carries ?dep ?p (mr_Meta obj) \<and> mr_Spec obj = s" if "map_of desired i = Some s" for i s
  proof -
    have "i \<in> set (sort (map fst desired))" using map_of_SomeD [OF that] by force
    from verifyRoutes_None [OF d(3) this] obtain obj where o': "indexRoutes items (''model-'' @ i) = Some obj" "checkMarker ?dep (mr_Meta obj) ?p True = None"
      "field_of (om_Annotations (mr_Meta obj)) sequenceKey = itoa (pub_Sequence ?p)" "map_of desired i = Some (mr_Spec obj)" by blast
    with indexRoutes_Some [OF o'(1)] checkMarker_carries [OF o'(2,3) seq] that show ?thesis by auto
  qed
  have "\<exists>obj \<in> set items. om_Name (mr_Meta obj) = ''model-'' @ rt_ModelID r \<and> carries ?dep ?p (mr_Meta obj) \<and> routeSpec env r = Inr (mr_Spec obj)" if "r \<in> set ?routes" for r
    using spec(3) [OF that] live by fastforce
  moreover have "\<exists>obj \<in> set items. om_Name (mr_Meta obj) = ''model-'' @ rt_ModelID h \<and> carries ?dep ?p (mr_Meta obj) \<and> \<not> rs_Enabled (mr_Spec obj)"
    if old: "h \<in> set (pd_HistoricalRoutes item)" "rt_ModelID h \<notin> rt_ModelID ` set ?routes" "\<exists>s. routeSpec env (h \<lparr> rt_Enabled := False \<rparr>) = Inr s" for h
  proof -
    obtain s where s: "map_of desired (rt_ModelID h) = Some s" using old(3) spec(5) [OF old(1)] by blast
    from live [OF this] spec(4) [OF old(2) s] show ?thesis by blast
  qed
  moreover have "\<exists>obj \<in> set policies. om_Name (mp_Meta obj) = ''limit-'' @ owner (lim_ID rule) \<and> carries ?dep ?p (mp_Meta obj) \<and> mp_Spec obj = policySpec rule"
    if l: "gs_GatewayLimits (pd_Payload item) = Some limits" and p: "pj_policies env 1 = Inr policies" and u: "distinct (map (\<lambda>o'. om_Name (mp_Meta o')) policies)" and r: "rule \<in> set limits" for limits policies rule
  proof -
    obtain rules where v: "policy_rules desired limits [] = Inr rules" "verifyPolicies env item rules policies = None"
      using projectPolicies_None [OF d(4) l d(1)] p by auto
    from policy_rules_spec [OF v(1)] r have "distinct (map fst rules)" "map_of rules (''limit-'' @ owner (lim_ID rule)) = Some (policySpec rule)" by auto
    from verifyPolicies_cover [OF v(2) this(1) u this(2)] checkMarker_carries [OF _ _ seq] show ?thesis by blast
  qed
  ultimately show ?thesis unfolding confirmed_by_reads_def using d(2) c by blast
qed

section \<open>Delayed attempts\<close>

text \<open>The object a write addresses, and the objects an attempt has read before it writes.\<close>

definition kube_key :: "kube_write \<Rightarrow> string \<times> string" where
  "kube_key w =
     (case w of
        CreateRoute r \<Rightarrow> (''ModelRoute'', om_Name (mr_Meta r))
      | UpdateRoute r \<Rightarrow> (''ModelRoute'', om_Name (mr_Meta r))
      | CreatePolicy q \<Rightarrow> (''ModelPolicy'', om_Name (mp_Meta q))
      | UpdatePolicy q \<Rightarrow> (''ModelPolicy'', om_Name (mp_Meta q))
      | UpdateDeployment d \<Rightarrow> (''DeploymentConfig'', om_Name (dc_Meta d)))"

definition meta_of :: "kube_write \<Rightarrow> object_meta" where
  "meta_of w = (case w of CreateRoute r \<Rightarrow> mr_Meta r | UpdateRoute r \<Rightarrow> mr_Meta r | CreatePolicy q \<Rightarrow> mp_Meta q | UpdatePolicy q \<Rightarrow> mp_Meta q | UpdateDeployment d \<Rightarrow> dc_Meta d)"

definition creates :: "kube_write \<Rightarrow> bool" where
  "creates w \<longleftrightarrow> (case w of CreateRoute _ \<Rightarrow> True | CreatePolicy _ \<Rightarrow> True | _ \<Rightarrow> False)"

definition base_reads :: "projector_env \<Rightarrow> ((string \<times> string) \<times> object_meta) list" where
  "base_reads env =
     (case pj_routes env 0 of Inl _ \<Rightarrow> [] | Inr rs \<Rightarrow> map (\<lambda>r. ((''ModelRoute'', om_Name (mr_Meta r)), mr_Meta r)) rs)
   @ (case pj_policies env 0 of Inl _ \<Rightarrow> [] | Inr ps \<Rightarrow> map (\<lambda>q. ((''ModelPolicy'', om_Name (mp_Meta q)), mp_Meta q)) ps)
   @ (case pj_deployment env 1 of Inl _ \<Rightarrow> [] | Inr d \<Rightarrow> [((''DeploymentConfig'', om_Name (dc_Meta d)), dc_Meta d)])"

text \<open>A write is fenced when it stamps the sequence of its publication and replaces only a version it has read and
  found not newer.\<close>

definition fenced :: "projector_env \<Rightarrow> DataPlanePublication \<Rightarrow> kube_write \<Rightarrow> bool" where
  "fenced env p w \<longleftrightarrow> field_of (om_Annotations (meta_of w)) sequenceKey = itoa (pub_Sequence p)
     \<and> (creates w \<or> (\<exists>m required. (kube_key w, m) \<in> set (base_reads env) \<and> om_ResourceVersion m = om_ResourceVersion (meta_of w)
                        \<and> checkMarker (pj_DeploymentID env) m p required = None))"

lemma and_then_writes: "set (snd (and_then a b)) \<subseteq> set (snd a) \<union> set (snd b)"
  by (cases a) (auto simp: and_then_def split: option.splits)

lemma issue_write_writes [simp]: "snd (issue_write env w) = [w]"
  by (simp add: issue_write_def)

lemma writeRoute_fenced:
  assumes "w \<in> set (snd (writeRoute env item i spec live))" "pj_routes env 0 = Inr items" "\<And>obj. live = Some obj \<Longrightarrow> obj \<in> set items"
  shows "fenced env (pd_Publication item) w"
proof (cases live)
  case None
  with assms(1) show ?thesis by (simp add: writeRoute_def fenced_def creates_def meta_of_def Let_def)
next
  case (Some obj)
  then have c: "checkMarker (pj_DeploymentID env) (mr_Meta obj) (pd_Publication item) True = None"
    and w: "w = UpdateRoute (obj \<lparr> mr_Spec := spec, mr_Meta := mark (pj_DeploymentID env) (pd_Publication item) (mr_Meta obj) \<rparr>)"
    using assms(1) by (auto simp: writeRoute_def Let_def split: option.splits if_splits)
  have "(kube_key w, mr_Meta obj) \<in> set (base_reads env)" using assms(2,3) Some by (auto simp: w base_reads_def kube_key_def)
  with c show ?thesis by (auto simp: w fenced_def meta_of_def)
qed

lemma writePolicy_fenced:
  assumes "w \<in> set (snd (writePolicy env item n spec live))" "pj_policies env 0 = Inr items" "\<And>obj. live = Some obj \<Longrightarrow> obj \<in> set items"
  shows "fenced env (pd_Publication item) w"
proof (cases live)
  case None
  with assms(1) show ?thesis by (simp add: writePolicy_def fenced_def creates_def meta_of_def Let_def)
next
  case (Some obj)
  then have c: "checkMarker (pj_DeploymentID env) (mp_Meta obj) (pd_Publication item) True = None"
    and w: "w = UpdatePolicy (obj \<lparr> mp_Spec := spec, mp_Meta := mark (pj_DeploymentID env) (pd_Publication item) (mp_Meta obj) \<rparr>)"
    using assms(1) by (auto simp: writePolicy_def Let_def split: option.splits if_splits)
  have "(kube_key w, mp_Meta obj) \<in> set (base_reads env)" using assms(2,3) Some by (auto simp: w base_reads_def kube_key_def)
  with c show ?thesis by (auto simp: w fenced_def meta_of_def)
qed

lemma writeRoutes_fenced:
  assumes "pj_routes env 0 = Inr items" "w \<in> set (snd (writeRoutes env item desired (indexRoutes items) ids))"
  shows "fenced env (pd_Publication item) w"
  using assms(2)
proof (induction ids)
  case (Cons i ids)
  then consider "w \<in> set (snd (case map_of desired i of None \<Rightarrow> (None, []) | Some spec \<Rightarrow> writeRoute env item i spec (indexRoutes items (''model-'' @ i))))"
    | "w \<in> set (snd (writeRoutes env item desired (indexRoutes items) ids))"
    using and_then_writes by (fastforce simp del: append_Cons)
  then show ?case
  proof cases
    case 1
    then obtain spec where "w \<in> set (snd (writeRoute env item i spec (indexRoutes items (''model-'' @ i))))" by (auto split: option.splits)
    then show ?thesis by (rule writeRoute_fenced [OF _ assms(1)]) (use indexRoutes_Some in blast)
  qed (rule Cons.IH)
qed simp

lemma writePolicies_fenced:
  assumes "pj_policies env 0 = Inr items" "w \<in> set (snd (writePolicies env item desired (map_of (rev (map (\<lambda>obj. (om_Name (mp_Meta obj), obj)) items))) names))"
  shows "fenced env (pd_Publication item) w"
  using assms(2)
proof (induction names)
  case (Cons n names)
  let ?live = "map_of (rev (map (\<lambda>obj. (om_Name (mp_Meta obj), obj)) items))"
  from Cons.prems consider "w \<in> set (snd (case map_of desired n of None \<Rightarrow> (None, []) | Some spec \<Rightarrow> writePolicy env item n spec (?live n)))"
    | "w \<in> set (snd (writePolicies env item desired ?live names))"
    using and_then_writes by fastforce
  then show ?case
  proof cases
    case 1
    then obtain spec where "w \<in> set (snd (writePolicy env item n spec (?live n)))" by (auto split: option.splits)
    then show ?thesis by (rule writePolicy_fenced [OF _ assms(1)]) (auto dest: map_of_SomeD)
  qed (rule Cons.IH)
qed simp

lemma stamp_fenced:
  assumes "w \<in> set (snd (stamp_deployment env item))"
  shows "fenced env (pd_Publication item) w"
proof -
  have none: "snd (confirm_deployment env item) = []" by (auto simp: confirm_deployment_def split: sum.splits option.splits)
  let ?marked = "\<lambda>d. mark (pj_DeploymentID env) (pd_Publication item) (dc_Meta d)"
  obtain d where d: "pj_deployment env 1 = Inr d" "checkMarker (pj_DeploymentID env) (dc_Meta d) (pd_Publication item) False = None" "w = UpdateDeployment (d \<lparr> dc_Meta := ?marked d \<rparr>)"
    using assms none unfolding stamp_deployment_def Let_def by (auto dest!: subsetD [OF and_then_writes] split: sum.splits if_splits option.splits)
  have "(kube_key w, dc_Meta d) \<in> set (base_reads env)" using d by (simp add: base_reads_def kube_key_def)
  with d show ?thesis by (auto simp: fenced_def meta_of_def)
qed

lemma projectPolicies_fenced:
  assumes "w \<in> set (snd (projectPolicies env item))"
  shows "fenced env (pd_Publication item) w"
proof -
  obtain desired items where "pj_policies env 0 = Inr items"
    "w \<in> set (snd (writePolicies env item desired (map_of (rev (map (\<lambda>obj. (om_Name (mp_Meta obj), obj)) items))) (pj_order env (map fst desired))))"
    using assms unfolding projectPolicies_def by (auto dest!: subsetD [OF and_then_writes] split: sum.splits if_splits option.splits)
  then show ?thesis by (rule writePolicies_fenced)
qed

lemma Project_fenced:
  assumes "w \<in> set (snd (Project env item))"
  shows "fenced env (pd_Publication item) w" "1 \<le> pub_Sequence (pd_Publication item)"
proof -
  obtain desired where d: "desiredRoutes env item = Inr desired" using assms by (auto simp: Project_def split: sum.splits)
  from desiredRoutes_spec(1) [OF d] show "1 \<le> pub_Sequence (pd_Publication item)" .
  obtain items where i: "pj_routes env 0 = Inr items" using assms by (auto simp: Project_def split: sum.splits if_splits option.splits)
  have "w \<in> set (snd (writeRoutes env item desired (indexRoutes items) (sort (map fst desired)))) \<or> w \<in> set (snd (projectPolicies env item)) \<or> w \<in> set (snd (stamp_deployment env item))"
    using assms d i unfolding Project_def Let_def by (auto dest!: subsetD [OF and_then_writes] split: sum.splits if_splits option.splits)
  then show "fenced env (pd_Publication item) w" using writeRoutes_fenced [OF i] projectPolicies_fenced stamp_fenced by blast
qed

text \<open>Documented behaviour of the Kubernetes API server the relay relies on, over its state: \<open>objects\<close> are the stored objects and
  \<open>versions\<close> the versions ever stored. A version is identified by its \<^verbatim>\<open>resourceVersion\<close>; a create finds no
  object of that name, an update only replaces the version it names, and both store the metadata they carry.\<close>

definition optimistic_api ::
  "(kube_write \<Rightarrow> 's \<Rightarrow> 's option) \<Rightarrow> ('s \<Rightarrow> (string \<times> string) \<Rightarrow> object_meta option) \<Rightarrow> ('s \<Rightarrow> ((string \<times> string) \<times> object_meta) set) \<Rightarrow> ('s \<Rightarrow> bool) \<Rightarrow> bool" where
  "optimistic_api api objects versions valid \<longleftrightarrow>
     (\<forall>s k m. valid s \<longrightarrow> objects s k = Some m \<longrightarrow> (k, m) \<in> versions s)
   \<and> (\<forall>s k m m'. valid s \<longrightarrow> (k, m) \<in> versions s \<longrightarrow> (k, m') \<in> versions s \<longrightarrow> om_ResourceVersion m = om_ResourceVersion m' \<longrightarrow> m = m')
   \<and> (\<forall>w s s'. valid s \<longrightarrow> api w s = Some s' \<longrightarrow> valid s'
        \<and> (if creates w then objects s (kube_key w) = None
           else (\<exists>old. objects s (kube_key w) = Some old \<and> om_ResourceVersion old = om_ResourceVersion (meta_of w)))
        \<and> (\<exists>new. objects s' = (objects s)(kube_key w \<mapsto> new) \<and> om_Annotations new = om_Annotations (meta_of w)))"

text \<open>The cluster while relays work: a write of any attempt reaches the server at any time after the reads it rests on, from any
  worker; other controllers keep the objects and their annotations.\<close>

inductive relay_step ::
  "(kube_write \<Rightarrow> 's \<Rightarrow> 's option) \<Rightarrow> ('s \<Rightarrow> (string \<times> string) \<Rightarrow> object_meta option) \<Rightarrow> ('s \<Rightarrow> ((string \<times> string) \<times> object_meta) set) \<Rightarrow> ('s \<Rightarrow> bool) \<Rightarrow> 's \<Rightarrow> 's \<Rightarrow> bool"
  for api objects versions valid where
  relay: "w \<in> set (snd (Project env item)) \<Longrightarrow> pub_Sequence (pd_Publication item) < 2 ^ 63 \<Longrightarrow>
     (\<And>k m. (k, m) \<in> set (base_reads env) \<Longrightarrow> k = kube_key w \<Longrightarrow> om_ResourceVersion m = om_ResourceVersion (meta_of w) \<Longrightarrow> (k, m) \<in> versions s) \<Longrightarrow>
     api w s = Some s' \<Longrightarrow> relay_step api objects versions valid s s'"
| other: "valid s' \<Longrightarrow> (\<And>k m. objects s k = Some m \<Longrightarrow> \<exists>m'. objects s' k = Some m' \<and> om_Annotations m' = om_Annotations m) \<Longrightarrow>
     relay_step api objects versions valid s s'"

definition stored_sequence :: "('s \<Rightarrow> (string \<times> string) \<Rightarrow> object_meta option) \<Rightarrow> 's \<Rightarrow> (string \<times> string) \<Rightarrow> int option" where
  "stored_sequence objects s k = Option.bind (objects s k) (\<lambda>m. atoi (field_of (om_Annotations m) sequenceKey))"

lemma relay_step_monotone:
  assumes api: "optimistic_api api objects versions valid" and step: "relay_step api objects versions valid s s'" and v: "valid s"
    and n: "stored_sequence objects s k = Some n"
  shows "valid s' \<and> (\<exists>n'. stored_sequence objects s' k = Some n' \<and> n \<le> n')"
  using step
proof cases
  case (relay w env item)
  let ?p = "pd_Publication item"
  have "valid s'" and pre: "if creates w then objects s (kube_key w) = None else (\<exists>old. objects s (kube_key w) = Some old \<and> om_ResourceVersion old = om_ResourceVersion (meta_of w))"
    and post: "\<exists>new. objects s' = (objects s)(kube_key w \<mapsto> new) \<and> om_Annotations new = om_Annotations (meta_of w)"
    using api v relay(4) unfolding optimistic_api_def by blast+
  note f = Project_fenced [OF relay(1)]
  show ?thesis
  proof (cases "k = kube_key w")
    case False
    with post n \<open>valid s'\<close> show ?thesis by (auto simp: stored_sequence_def)
  next
    case True
    have new: "stored_sequence objects s' k = Some (pub_Sequence ?p)"
      using post f(1,2) relay(2) True atoi_itoa [of "pub_Sequence ?p"] by (auto simp: stored_sequence_def fenced_def)
    obtain old where old: "objects s k = Some old" "atoi (field_of (om_Annotations old) sequenceKey) = Some n"
      using n by (auto simp: stored_sequence_def bind_eq_Some_conv)
    then have "\<not> creates w" and rv: "om_ResourceVersion old = om_ResourceVersion (meta_of w)" using pre True by (auto split: if_splits)
    with f(1) obtain m required where m: "(kube_key w, m) \<in> set (base_reads env)" "om_ResourceVersion m = om_ResourceVersion (meta_of w)"
      "checkMarker (pj_DeploymentID env) m ?p required = None" by (auto simp: fenced_def)
    have "(k, m) \<in> versions s" using relay(3) [OF m(1) refl m(2)] True by simp
    moreover have "(k, old) \<in> versions s" using api v old(1) unfolding optimistic_api_def by blast
    ultimately have "m = old" using api v rv m(2) unfolding optimistic_api_def by metis
    with checkMarker_older [OF m(3)] old(2) new \<open>valid s'\<close> show ?thesis by auto
  qed
next
  case other
  then show ?thesis using n by (fastforce simp: stored_sequence_def bind_eq_Some_conv)
qed

subsection \<open>With the worker\<close>

lemma finish_new_phase:
  assumes "FinishDataPlanePublication env op token phase code retry db = Inr db1" "q \<in> set (pd_publications db1)" "pub_Phase q = ''projected''"
    "\<forall>p \<in> set (pd_publications db). pub_OperationID p = pub_OperationID q \<longrightarrow> pub_Phase p \<noteq> ''projected''"
  shows "op = pub_OperationID q \<and> phase = ''projected''"
proof -
  obtain p where p: "p \<in> set (pd_publications db)" "q = finish_row op phase code (pe_now env) p"
    using finish_cases(3) [OF assms(1)] assms(2) by (auto simp: rewritten_def)
  with assms(3,4) finish_cases(1) [OF assms(1)] show ?thesis by (auto simp: finish_row_def split: if_splits)
qed

lemma unprojected_claim:
  assumes "ClaimDataPlanePublication env db = Inr (item, db1)" "\<forall>p \<in> set (pd_publications db). pub_OperationID p = op \<longrightarrow> pub_Phase p \<noteq> ''projected''"
  shows "\<forall>p \<in> set (pd_publications db1). pub_OperationID p = op \<longrightarrow> pub_Phase p \<noteq> ''projected''"
  using assms(1)
proof (cases rule: claim_cases)
  case (2 latest)
  with assms(2) supersede_rewritten [of "pe_now env" "pub_Sequence latest" db] show ?thesis by (auto simp: rewritten_def supersede_row_def)
next
  case (3 latest)
  from 3(5) have "pd_publications db1 = map (projecting_row (pe_now env) (pub_OperationID latest)) (map (supersede_row (pe_now env) (pub_Sequence latest)) (pd_publications db))"
    using supersede_rewritten [of "pe_now env" "pub_Sequence latest" db] by (simp add: rewritten_def)
  with assms(2) show ?thesis by (auto simp: projecting_row_def supersede_row_def)
qed (use assms(2) in simp)

lemma unprojected_invalidate:
  assumes "QueueReferenceInvalidations env db = Inr db1" "\<forall>p \<in> set (pd_publications db). pub_OperationID p = op \<longrightarrow> pub_Phase p \<noteq> ''projected''"
  shows "\<forall>p \<in> set (pd_publications db1). pub_OperationID p = op \<longrightarrow> pub_Phase p \<noteq> ''projected''"
  using invalidate_cases [OF assms(1)] assms(2) by (auto simp: same_core_def appended_def)

subsection \<open>A small cluster\<close>

definition demo_intent :: DataPlanePublication where
  "demo_intent = \<lparr> pub_OperationID = ''op-1'', pub_Sequence = 1, pub_IdempotencyKeyHash = demo_key, pub_RequestHash = demo_key, pub_Revision = ''r1'',
     pub_ContentHash = publicationDigest ''{}'', pub_Phase = ''queued'', pub_ErrorCode = None, pub_CreatedAt = 100, pub_UpdatedAt = 100, pub_IdempotencyExpiresAt = 100 + 24 * hour \<rparr>"

definition demo_payload :: gateway_snapshot where
  "demo_payload = \<lparr> gs_Revision = ''r1'', gs_Routes = [demo_route], gs_GatewayLimits = None \<rparr>"

definition demo_relay_db :: publication_db where
  "demo_relay_db = demo_pub_1 \<lparr> pd_snapshots := [\<lparr> sn_Revision = ''r1'', sn_ContentHash = publicationDigest ''{}'', sn_Payload = demo_payload \<rparr>], pd_publications := [demo_intent] \<rparr>"

definition demo_delivery :: PublicationDelivery where
  "demo_delivery = \<lparr> pd_Publication = demo_intent \<lparr> pub_Phase := ''projecting'' \<rparr>, pd_ClaimToken = ''c'', pd_Payload = demo_payload, pd_HistoricalRoutes = [demo_route] \<rparr>"

definition demo_route_spec :: ModelRouteSpec where
  "demo_route_spec = \<lparr> rs_DeploymentRef = ''deployment'', rs_ModelID = ''m1'', rs_Protocol = ''openai'', rs_ProviderType = ''openai'', rs_Endpoint = ''u'', rs_Model = ''g'',
     rs_CredentialRef = Some (''aep-credential-c'', ''api-key''), rs_Enabled = True, rs_TenantScope = None \<rparr>"

definition demo_route_object :: ModelRoute where
  "demo_route_object = \<lparr> mr_Meta = mark ''acme'' (pd_Publication demo_delivery) (fresh_meta ''model-m1''), mr_Spec = demo_route_spec, mr_Status = no_status \<rparr>"

definition demo_deployment_config :: DeploymentConfig where
  "demo_deployment_config = \<lparr> dc_Meta = (fresh_meta ''deployment'') \<lparr> om_ResourceVersion := show_nat 0 \<rparr>, dc_DeploymentID = ''acme'', dc_Status = no_status, dc_DataPlane = None \<rparr>"

definition demo_marked :: DeploymentConfig where
  "demo_marked = demo_deployment_config \<lparr> dc_Meta := mark ''acme'' (pd_Publication demo_delivery) (dc_Meta demo_deployment_config) \<rparr>"

definition demo_relay_env :: projector_env where
  "demo_relay_env = \<lparr> pj_DeploymentID = ''acme'', pj_json = (\<lambda>_. ''{}''),
     pj_parse = (\<lambda>_. Some \<lparr> url_Scheme = ''https'', url_Host = ''h'', url_User = False, url_RawQuery = [], url_Fragment = [] \<rparr>),
     pj_deployment = (\<lambda>n. Inr (if n = 2 then demo_marked else demo_deployment_config)), pj_routes = (\<lambda>n. Inr (if n = 0 then [] else [demo_route_object])),
     pj_policies = (\<lambda>_. Inr []), pj_write = (\<lambda>_. None), pj_order = (\<lambda>ns. ns) \<rparr>"

lemma demo_sequence: "pub_Sequence (pd_Publication demo_delivery) = 1"
  by (simp add: demo_delivery_def demo_intent_def)

lemma demo_spec: "routeSpec demo_relay_env demo_route = Inr demo_route_spec"
  by (simp add: routeSpec_def demo_relay_env_def demo_route_def demo_route_spec_def Let_def)

lemma demo_desired: "desiredRoutes demo_relay_env demo_delivery = Inr [(''m1'', demo_route_spec)]"
proof -
  have "rt_ModelID demo_route = ''m1''" by (simp add: demo_route_def)
  moreover obtain s where "routeSpec demo_relay_env (demo_route \<lparr> rt_Enabled := False \<rparr>) = Inr s" by (simp add: routeSpec_def demo_relay_env_def demo_route_def Let_def)
  ultimately show ?thesis using demo_spec
    by (simp add: desiredRoutes_def demo_delivery_def demo_payload_def demo_intent_def Let_def) (simp add: demo_relay_env_def)
qed

lemma carries_checkMarker: "carries dep p m \<Longrightarrow> 1 \<le> pub_Sequence p \<Longrightarrow> pub_Sequence p < 2 ^ 63 \<Longrightarrow> checkMarker dep m p True = None"
  by (simp add: checkMarker_def carries_def atoi_itoa Let_def)

lemma demo_project: "Project demo_relay_env demo_delivery = (None, [CreateRoute demo_route_object, UpdateDeployment demo_marked])"
proof -
  let ?p = "pd_Publication demo_delivery"
  have r: "checkMarker ''acme'' (mr_Meta demo_route_object) ?p True = None" "field_of (om_Annotations (mr_Meta demo_route_object)) sequenceKey = itoa (pub_Sequence ?p)"
    using carries_checkMarker [OF mark_carries] demo_sequence by (simp_all add: demo_route_object_def fresh_meta_def)
  have c: "checkMarker ''acme'' (dc_Meta demo_marked) ?p True = None" "field_of (om_Annotations (dc_Meta demo_marked)) sequenceKey = itoa (pub_Sequence ?p)"
    using carries_checkMarker [OF mark_carries] demo_sequence by (simp_all add: demo_marked_def demo_deployment_config_def fresh_meta_def)
  have u: "checkMarker ''acme'' (dc_Meta demo_deployment_config) ?p False = None" by (simp add: demo_deployment_config_def fresh_meta_def checkMarker_def field_of_def)
  have d: "dc_Meta demo_deployment_config \<noteq> mark ''acme'' ?p (dc_Meta demo_deployment_config)" by (simp add: demo_deployment_config_def fresh_meta_def mark_def)
  have n: "desiredPolicies demo_relay_env demo_delivery = Inr None" by (simp add: desiredPolicies_def demo_delivery_def demo_payload_def)
  have e: "pj_DeploymentID demo_relay_env = ''acme''" "pj_deployment demo_relay_env 0 = Inr demo_deployment_config" "pj_deployment demo_relay_env 1 = Inr demo_deployment_config" "pj_deployment demo_relay_env 2 = Inr demo_marked"
    "pj_routes demo_relay_env 0 = Inr []" "pj_routes demo_relay_env 1 = Inr [demo_route_object]" "pj_write demo_relay_env w = None" for w by (simp_all add: demo_relay_env_def)
  have f: "dc_DeploymentID demo_deployment_config = ''acme''" "\<not> om_Deleting (dc_Meta demo_deployment_config)" "om_Name (mr_Meta demo_route_object) = ''model-m1''" "mr_Spec demo_route_object = demo_route_spec"
    by (simp_all add: demo_deployment_config_def fresh_meta_def demo_route_object_def)
  have w: "writeRoutes demo_relay_env demo_delivery [(''m1'', demo_route_spec)] (indexRoutes []) [''m1''] = (None, [CreateRoute demo_route_object])"
    by (simp add: writeRoute_def issue_write_def e indexRoutes_def and_then_def demo_route_object_def)
  have v: "verifyRoutes demo_relay_env demo_delivery [(''m1'', demo_route_spec)] (indexRoutes [demo_route_object]) [''m1''] = None"
    using r by (simp add: e f indexRoutes_def)
  have s: "stamp_deployment demo_relay_env demo_delivery = (None, [UpdateDeployment demo_marked])"
    using c d u unfolding stamp_deployment_def confirm_deployment_def e by (simp add: f issue_write_def e and_then_def demo_marked_def)
  have p: "projectPolicies demo_relay_env demo_delivery = (None, [])" by (simp add: projectPolicies_def n)
  show ?thesis unfolding Project_def demo_desired n e sum.case using u w v s p by (simp add: f and_then_def)
qed

definition demo_claimed_db :: publication_db where
  "demo_claimed_db = demo_relay_db \<lparr> pd_publications := [demo_intent \<lparr> pub_Phase := ''projecting'', pub_UpdatedAt := 301 \<rparr>],
     pd_outbox := [(demo_box ''op-1'' 100) \<lparr> ob_ClaimToken := Some ''c'', ob_LeaseUntil := Some (301 + 30 * second), ob_Attempts := 1 \<rparr>] \<rparr>"

lemma demo_relay_claim: "ClaimDataPlanePublication (demo_pub_env 301 ''c'') demo_relay_db = Inr (Some demo_delivery, demo_claimed_db)"
  by (simp add: ClaimDataPlanePublication_def committed_def newest_def supersede_def pending_def claimable_def publicationInputs_def snapshot_of_def historical_routes_def route_history_def
      demo_relay_db_def demo_intent_def demo_payload_def demo_delivery_def demo_claimed_db_def demo_pub_1_def demo_pub_0_def demo_pub_env_def demo_box_def bindS_def ensure_def Let_def)

lemma demo_relay_finish: "\<exists>db1. FinishDataPlanePublication (demo_pub_env 302 ''u'') ''op-1'' ''c'' ''projected'' [] 0 demo_claimed_db = Inr db1
    \<and> pd_publications db1 = [demo_intent \<lparr> pub_Phase := ''projected'', pub_ErrorCode := None, pub_UpdatedAt := 302 \<rparr>]"
  by (simp add: FinishDataPlanePublication_def committed_def finishable_def demo_claimed_db_def demo_relay_db_def demo_intent_def demo_pub_1_def demo_pub_env_def demo_box_def bindS_def ensure_def Let_def)

text \<open>A server with a log of its versions.\<close>

record demo_server =
  ds_objects :: "(string \<times> string) \<Rightarrow> object_meta option"
  ds_log :: "((string \<times> string) \<times> object_meta) list"

definition demo_kube_api :: "kube_write \<Rightarrow> demo_server \<Rightarrow> demo_server option" where
  "demo_kube_api w s =
     (let new = (meta_of w) \<lparr> om_ResourceVersion := show_nat (length (ds_log s)) \<rparr> in
      if (case ds_objects s (kube_key w) of None \<Rightarrow> creates w | Some old \<Rightarrow> \<not> creates w \<and> om_ResourceVersion old = om_ResourceVersion (meta_of w))
      then Some \<lparr> ds_objects = (ds_objects s)(kube_key w \<mapsto> new), ds_log = ds_log s @ [(kube_key w, new)] \<rparr> else None)"

definition demo_valid :: "demo_server \<Rightarrow> bool" where
  "demo_valid s \<longleftrightarrow> (\<forall>k m. ds_objects s k = Some m \<longrightarrow> (k, m) \<in> set (ds_log s)) \<and> map (\<lambda>e. om_ResourceVersion (snd e)) (ds_log s) = map show_nat [0..<length (ds_log s)]"

lemma demo_optimistic: "optimistic_api demo_kube_api ds_objects (\<lambda>s. set (ds_log s)) demo_valid"
proof -
  have u: "m = m'" if "demo_valid s" "(k, m) \<in> set (ds_log s)" "(k, m') \<in> set (ds_log s)" "om_ResourceVersion m = om_ResourceVersion m'" for s k m m'
  proof -
    have "distinct (map show_nat [0..<length (ds_log s)])" by (simp add: distinct_map inj_on_def)
    then have "distinct (map (\<lambda>e. om_ResourceVersion (snd e)) (ds_log s))" using that(1) by (simp add: demo_valid_def)
    then have "inj_on (\<lambda>e. om_ResourceVersion (snd e)) (set (ds_log s))" by (simp add: distinct_map)
    from inj_onD [OF this, of "(k, m)" "(k, m')"] that(2-4) show ?thesis by simp
  qed
  have step: "demo_valid s' \<and> (if creates w then ds_objects s (kube_key w) = None else (\<exists>old. ds_objects s (kube_key w) = Some old \<and> om_ResourceVersion old = om_ResourceVersion (meta_of w)))
      \<and> (\<exists>new. ds_objects s' = (ds_objects s)(kube_key w \<mapsto> new) \<and> om_Annotations new = om_Annotations (meta_of w))" if "demo_valid s" "demo_kube_api w s = Some s'" for w s s'
  proof -
    let ?new = "(meta_of w) \<lparr> om_ResourceVersion := show_nat (length (ds_log s)) \<rparr>"
    have s': "s' = \<lparr> ds_objects = (ds_objects s)(kube_key w \<mapsto> ?new), ds_log = ds_log s @ [(kube_key w, ?new)] \<rparr>"
      and c: "case ds_objects s (kube_key w) of None \<Rightarrow> creates w | Some old \<Rightarrow> \<not> creates w \<and> om_ResourceVersion old = om_ResourceVersion (meta_of w)"
      using that(2) by (simp_all add: demo_kube_api_def Let_def split: if_splits)
    have "demo_valid s'" using that(1) unfolding s' demo_valid_def by (simp split: if_splits)
    moreover have "if creates w then ds_objects s (kube_key w) = None else (\<exists>old. ds_objects s (kube_key w) = Some old \<and> om_ResourceVersion old = om_ResourceVersion (meta_of w))"
      using c by (cases "ds_objects s (kube_key w)") simp_all
    moreover have "ds_objects s' = (ds_objects s)(kube_key w \<mapsto> ?new)" "om_Annotations ?new = om_Annotations (meta_of w)" by (simp_all add: s')
    ultimately show ?thesis by blast
  qed
  show ?thesis unfolding optimistic_api_def
  proof (intro conjI)
    show "\<forall>s k m. demo_valid s \<longrightarrow> ds_objects s k = Some m \<longrightarrow> (k, m) \<in> set (ds_log s)" by (simp add: demo_valid_def)
  qed (use u in blast, use step in blast)
qed

definition demo_cluster :: demo_server where
  "demo_cluster = (let route = (mr_Meta demo_route_object) \<lparr> om_ResourceVersion := show_nat 1 \<rparr> in
     \<lparr> ds_objects = [(''DeploymentConfig'', ''deployment'') \<mapsto> dc_Meta demo_deployment_config, (''ModelRoute'', ''model-m1'') \<mapsto> route],
       ds_log = [((''DeploymentConfig'', ''deployment''), dc_Meta demo_deployment_config), ((''ModelRoute'', ''model-m1''), route)] \<rparr>)"

subsection \<open>Readiness\<close>

lemma observe_applied:
  "observe_kind dep applied p ''Applied'' status since objects = (''True'', t) \<Longrightarrow>
     status = ''True'' \<and> (\<forall>o' \<in> set objects. matchingObject dep o' p \<and> st_AppliedSnapshot (oo_status o') = applied)"
proof (induction dep applied p "''Applied''" status since objects rule: observe_kind.induct)
  case (2 dep applied p status since o' os)
  obtain c l where c: "FindStatusCondition (st_Conditions (oo_status o')) ''Applied'' = Some c" "kc_LastTransitionTime c = Some l"
    using "2.prems" by (auto split: option.splits)
  then have m: "matchingObject dep o' p" "kc_ObservedGeneration c = om_Generation (oo_object o')" "kc_Status c = ''True'' \<or> kc_Status c = ''False''"
    "kc_Status c = ''True'' \<longrightarrow> applied \<noteq> [] \<and> st_AppliedSnapshot (oo_status o') = applied"
    and r: "observe_kind dep applied p ''Applied'' (if kc_Status c = ''False'' then ''False'' else status) (if l > since then l else since) os = (''True'', t)"
    using "2.prems" by (auto split: if_splits)
  from "2.hyps" [OF c _ _ r] m have "(if kc_Status c = ''False'' then ''False'' else status) = ''True''"
    "\<forall>o' \<in> set os. matchingObject dep o' p \<and> st_AppliedSnapshot (oo_status o') = applied" by auto
  with m show ?case by (auto split: if_splits)
qed simp

lemma conclude_ready:
  assumes "c \<in> set (conclude dep now deployment p objects)" "co_Type c = ''Ready''" "co_Status c = ''True''"
  shows "Fresh (dc_DataPlane deployment) (st_AppliedSnapshot (dc_Status deployment)) now"
    "\<forall>o' \<in> set objects. matchingObject dep o' p \<and> st_AppliedSnapshot (oo_status o') = st_AppliedSnapshot (dc_Status deployment)"
proof -
  let ?a = "st_AppliedSnapshot (dc_Status deployment)"
  let ?r = "observe_kind dep ?a p ''Applied'' ''True'' (pub_CreatedAt p) objects"
  have "Fresh (dc_DataPlane deployment) ?a now \<and> co_Status (kind_condition p ''Applied'' ?r) = ''True''"
    using assms by (auto simp: conclude_def Let_def kind_condition_def split: if_splits option.splits prod.splits)
  then show "Fresh (dc_DataPlane deployment) ?a now" and "\<forall>o' \<in> set objects. matchingObject dep o' p \<and> st_AppliedSnapshot (oo_status o') = ?a"
    using observe_applied [of dep ?a p "''True''" "pub_CreatedAt p" objects "snd ?r"] by (auto simp: kind_condition_def split: prod.splits if_splits)
qed

lemma UnknownConditions_never_ready: "c \<in> set (UnknownConditions t reason) \<Longrightarrow> co_Status c \<noteq> ''True''"
  by (auto simp: UnknownConditions_def)

lemma Observe_cases:
  assumes "Observe env now item = Some cs" "c \<in> set cs" "co_Status c = ''True''"
  obtains desired deployment items more where "desiredRoutes env item = Inr desired" "pj_deployment env 0 = Inr deployment" "pj_routes env 0 = Inr items"
    "\<forall>(i, spec) \<in> set desired. \<exists>r. indexRoutes items (''model-'' @ i) = Some r \<and> mr_Spec r = spec"
    "cs = conclude (pj_DeploymentID env) now deployment (pd_Publication item)
       (\<lparr> oo_object = dc_Meta deployment, oo_status = dc_Status deployment \<rparr> #
        map (\<lambda>(i, _). case indexRoutes items (''model-'' @ i) of None \<Rightarrow> \<lparr> oo_object = fresh_meta [], oo_status = no_status \<rparr>
                     | Some r \<Rightarrow> \<lparr> oo_object = mr_Meta r, oo_status = mr_Status r \<rparr>) desired @ more)"
proof -
  have u: "cs \<noteq> UnknownConditions t reason" for t reason using assms(2,3) UnknownConditions_never_ready by blast
  obtain desired where d: "desiredRoutes env item = Inr desired" using assms(1) by (auto simp: Observe_def Let_def split: sum.splits)
  obtain deployment where e: "pj_deployment env 0 = Inr deployment" "dc_DeploymentID deployment = pj_DeploymentID env"
    using assms(1) d u by (auto simp: Observe_def Let_def split: sum.splits if_splits)
  obtain items where i: "pj_routes env 0 = Inr items" "length items = length desired"
    "\<not> list_ex (\<lambda>(i, spec). case indexRoutes items (''model-'' @ i) of None \<Rightarrow> True | Some r \<Rightarrow> mr_Spec r \<noteq> spec) desired"
    using assms(1) d e u by (auto simp: Observe_def Let_def simp del: append_Cons split: sum.splits if_splits)
  have specs: "\<forall>(i, spec) \<in> set desired. \<exists>r. indexRoutes items (''model-'' @ i) = Some r \<and> mr_Spec r = spec"
    using i(3) by (fastforce simp: list_ex_iff simp del: append_Cons split: option.splits)
  let ?base = "\<lparr> oo_object = dc_Meta deployment, oo_status = dc_Status deployment \<rparr> #
        map (\<lambda>(i, _). case indexRoutes items (''model-'' @ i) of None \<Rightarrow> \<lparr> oo_object = fresh_meta [], oo_status = no_status \<rparr>
                     | Some r \<Rightarrow> \<lparr> oo_object = mr_Meta r, oo_status = mr_Status r \<rparr>) desired"
  have "\<exists>more. cs = conclude (pj_DeploymentID env) now deployment (pd_Publication item) (?base @ more)"
  proof (cases "desiredPolicies env item")
    case (Inl err)
    with assms(1) d e i show ?thesis by (simp add: Observe_def Let_def del: append_Cons)
  next
    case (Inr policies)
    show ?thesis
    proof (cases policies)
      case None
      with assms(1) d e i Inr u have "cs = conclude (pj_DeploymentID env) now deployment (pd_Publication item) (?base @ [])"
        by (auto simp: Observe_def Let_def simp del: append_Cons split: sum.splits if_splits)
      then show ?thesis by blast
    next
      case (Some ps)
      with assms(1) d e i Inr obtain live where live: "pj_policies env 0 = Inr live" by (auto simp: Observe_def Let_def simp del: append_Cons split: sum.splits)
      with assms(1) d e i Inr u Some have "cs = conclude (pj_DeploymentID env) now deployment (pd_Publication item) (?base @ map (\<lambda>o'. \<lparr> oo_object = mp_Meta o', oo_status = mp_Status o' \<rparr>) live)"
        by (auto simp: Observe_def Let_def simp del: append_Cons split: sum.splits if_splits)
      then show ?thesis by blast
    qed
  qed
  with d e(1) i(1) specs that show thesis by auto
qed

definition demo_status :: resource_status where
  "demo_status = \<lparr> st_ObservedPublication = Some (publicationRef (pd_Publication demo_delivery)), st_AppliedSnapshot = demo_hash CHR ''a'', st_ObservedGeneration = 1,
     st_Conditions = map (\<lambda>k. \<lparr> kc_Type = k, kc_Status = ''True'', kc_ObservedGeneration = 1, kc_LastTransitionTime = Some 400 \<rparr>) [''Accepted'', ''Applied'', ''Ready''] \<rparr>"

definition demo_ready_env :: projector_env where
  "demo_ready_env = demo_relay_env \<lparr>
     pj_deployment := (\<lambda>_. Inr (demo_marked \<lparr> dc_Meta := (dc_Meta demo_marked) \<lparr> om_UID := ''u1'', om_Generation := 1 \<rparr>, dc_Status := demo_status,
        dc_DataPlane := Some \<lparr> ev_Snapshot = demo_hash CHR ''a'', ev_ObservedAt = Some 450, ev_GatewayUID = ''g'', ev_PodUIDs = [''p''] \<rparr> \<rparr>)),
     pj_routes := (\<lambda>_. Inr [demo_route_object \<lparr> mr_Meta := (mr_Meta demo_route_object) \<lparr> om_UID := ''u2'', om_Generation := 1 \<rparr>, mr_Status := demo_status \<rparr>]) \<rparr>"

lemma routeSpec_parse: "pj_parse env = pj_parse env' \<Longrightarrow> routeSpec env r = routeSpec env' r"
  by (simp add: routeSpec_def)

lemma demo_ready_desired: "desiredRoutes demo_ready_env demo_delivery = Inr [(''m1'', demo_route_spec)]"
proof -
  have r: "routeSpec demo_ready_env r = routeSpec demo_relay_env r" for r by (rule routeSpec_parse) (simp add: demo_ready_env_def)
  have "rt_ModelID demo_route = ''m1''" by (simp add: demo_route_def)
  moreover obtain s where "routeSpec demo_relay_env (demo_route \<lparr> rt_Enabled := False \<rparr>) = Inr s" by (simp add: routeSpec_def demo_relay_env_def demo_route_def Let_def)
  ultimately show ?thesis using demo_spec r
    by (simp add: desiredRoutes_def demo_delivery_def demo_payload_def demo_intent_def Let_def) (simp add: demo_ready_env_def demo_relay_env_def)
qed

lemma demo_matching:
  assumes "carries ''acme'' (pd_Publication demo_delivery) m" "om_UID m \<noteq> []" "om_Generation m = 1"
    "list_all (\<lambda>(k, v). field_of (om_Annotations m) k = v) (markers (pd_Publication demo_delivery))"
  shows "matchingObject ''acme'' \<lparr> oo_object = m, oo_status = demo_status \<rparr> (pd_Publication demo_delivery)"
  using assms carries_checkMarker [OF assms(1)] demo_sequence by (simp add: matchingObject_def demo_status_def Let_def)

lemma mark_markers: "list_all (\<lambda>(k, v). field_of (om_Annotations (mark dep p m)) k = v) (markers p)"
  by (simp add: mark_def markers_def field_of_update)

lemma demo_observe: "\<exists>cs. Observe demo_ready_env 460 demo_delivery = Some cs \<and> (\<exists>c \<in> set cs. co_Type c = ''Ready'' \<and> co_Status c = ''True'')"
proof -
  let ?p = "pd_Publication demo_delivery"
  define md where "md = (dc_Meta demo_marked) \<lparr> om_UID := ''u1'', om_Generation := 1 \<rparr>"
  define mr where "mr = (mr_Meta demo_route_object) \<lparr> om_UID := ''u2'', om_Generation := 1 \<rparr>"
  have up: "carries dep p (m \<lparr> om_UID := u, om_Generation := g \<rparr>) = carries dep p m" for dep p m u g by (simp add: carries_def)
  have m: "matchingObject ''acme'' \<lparr> oo_object = md, oo_status = demo_status \<rparr> ?p" "matchingObject ''acme'' \<lparr> oo_object = mr, oo_status = demo_status \<rparr> ?p"
    by (rule demo_matching; simp add: md_def mr_def up mark_carries mark_markers demo_marked_def demo_deployment_config_def demo_route_object_def fresh_meta_def)+
  have n: "desiredPolicies demo_ready_env demo_delivery = Inr None" by (simp add: desiredPolicies_def demo_delivery_def demo_payload_def)
  have g: "om_Generation md = 1" "om_Generation mr = 1" "pub_CreatedAt ?p = 100" by (simp_all add: md_def mr_def demo_delivery_def demo_intent_def)
  let ?objects = "[\<lparr> oo_object = md, oo_status = demo_status \<rparr>, \<lparr> oo_object = mr, oo_status = demo_status \<rparr>]"
  have k: "observe_kind ''acme'' (demo_hash CHR ''a'') ?p ''Accepted'' ''True'' 100 ?objects = (''True'', 400)" "observe_kind ''acme'' (demo_hash CHR ''a'') ?p ''Applied'' ''True'' 100 ?objects = (''True'', 400)"
    "all_ready 100 ?objects = Some 400"
    using m by (simp_all add: FindStatusCondition_def demo_status_def g demo_hash_def)
  obtain d :: DeploymentConfig where d: "pj_deployment demo_ready_env n = Inr d" "dc_Meta d = md" "dc_Status d = demo_status" "dc_DeploymentID d = ''acme''"
    "Fresh (dc_DataPlane d) (demo_hash CHR ''a'') 460" for n
    by (simp add: demo_ready_env_def md_def Fresh_def demo_hash_def demo_marked_def demo_deployment_config_def)
  define r where "r = demo_route_object \<lparr> mr_Meta := mr, mr_Status := demo_status \<rparr>"
  have r: "pj_routes demo_ready_env 0 = Inr [r]" "mr_Meta r = mr" "mr_Status r = demo_status" "mr_Spec r = demo_route_spec"
    by (simp_all add: demo_ready_env_def r_def mr_def demo_route_object_def)
  have i: "indexRoutes [r] ''model-m1'' = Some r" using r(2) by (simp add: indexRoutes_def mr_def demo_route_object_def fresh_meta_def)
  have "pj_DeploymentID demo_ready_env = ''acme''" "st_AppliedSnapshot demo_status = demo_hash CHR ''a''" by (simp_all add: demo_ready_env_def demo_relay_env_def demo_status_def)
  then have "Observe demo_ready_env 460 demo_delivery = Some (conclude ''acme'' 460 d ?p ?objects)"
    using demo_ready_desired n d r i by (simp add: Observe_def Let_def)
  moreover have "\<exists>c \<in> set (conclude ''acme'' 460 d ?p ?objects). co_Type c = ''Ready'' \<and> co_Status c = ''True''"
    using k d g(3) \<open>st_AppliedSnapshot demo_status = _\<close> by (simp add: conclude_def kind_condition_def Let_def)
  ultimately show ?thesis by blast
qed

section \<open>Properties\<close>

text \<open>
  (C14) A delayed older delivery never overwrites a newer one. Attempts of any number of workers write to the
  cluster at any time after their reads, and other controllers work on it too; the sequence an object is stamped
  with never decreases, given that the API server replaces only the version an update names.
\<close>

theorem delayed_delivery_never_overwrites:
  assumes "optimistic_api api objects versions valid" "(relay_step api objects versions valid)\<^sup>*\<^sup>* s s'" "valid s" "stored_sequence objects s k = Some n"
  shows "\<exists>n'. stored_sequence objects s' k = Some n' \<and> n \<le> n'"
proof -
  have "valid s' \<and> (\<exists>n'. stored_sequence objects s' k = Some n' \<and> n \<le> n')" using assms(2)
  proof (induction rule: rtranclp_induct)
    case (step t u)
    then obtain n1 where t: "valid t" "stored_sequence objects t k = Some n1" "n \<le> n1" by blast
    from relay_step_monotone [OF assms(1) step.hyps(2) t(1,2)] t(3) show ?case by (meson order_trans)
  qed (use assms in auto)
  then show ?thesis ..
qed

theorem delayed_delivery_never_overwrites_witness:
  "\<exists>s'. demo_kube_api (UpdateDeployment demo_marked) demo_cluster = Some s' \<and> (\<exists>n'. stored_sequence ds_objects s' (''ModelRoute'', ''model-m1'') = Some n' \<and> 1 \<le> n')"
proof -
  have v: "demo_valid demo_cluster" by (auto simp: demo_valid_def demo_cluster_def demo_deployment_config_def Let_def split: if_splits)
  have key: "kube_key (UpdateDeployment demo_marked) = (''DeploymentConfig'', ''deployment'')" "meta_of (UpdateDeployment demo_marked) = dc_Meta demo_marked"
    by (simp_all add: kube_key_def meta_of_def demo_marked_def demo_deployment_config_def fresh_meta_def)
  have rv: "om_ResourceVersion (dc_Meta demo_deployment_config) = om_ResourceVersion (dc_Meta demo_marked)" by (simp add: demo_marked_def)
  obtain s' where a: "demo_kube_api (UpdateDeployment demo_marked) demo_cluster = Some s'"
    using rv by (simp add: demo_kube_api_def key creates_def demo_cluster_def Let_def)
  have n: "stored_sequence ds_objects demo_cluster (''ModelRoute'', ''model-m1'') = Some 1"
    using demo_sequence atoi_itoa [of 1] by (simp add: stored_sequence_def demo_cluster_def Let_def demo_route_object_def)
  have "base_reads demo_relay_env = [((''DeploymentConfig'', ''deployment''), dc_Meta demo_deployment_config)]"
    by (simp add: base_reads_def demo_relay_env_def demo_deployment_config_def fresh_meta_def)
  then have "relay_step demo_kube_api ds_objects (\<lambda>s. set (ds_log s)) demo_valid demo_cluster s'"
    by (intro relay_step.relay [where w = "UpdateDeployment demo_marked" and env = demo_relay_env and item = demo_delivery]) (use a in \<open>auto simp: demo_project demo_sequence demo_cluster_def Let_def\<close>)
  from delayed_delivery_never_overwrites [OF demo_optimistic r_into_rtranclp [of "relay_step demo_kube_api ds_objects (\<lambda>s. set (ds_log s)) demo_valid", OF this] v n] a show ?thesis by blast
qed



text \<open>
  (C29) An operation is shown as ready only when the evidence of the serving fleet is at most 90 seconds old and names
  the snapshot that was applied, the deployment and all routes of the publication carry its marker and exact
  specifications, and the operator has processed exactly this publication.
\<close>

theorem ready_only_with_exact_evidence:
  assumes "Observe env now item = Some cs" "c \<in> set cs" "co_Type c = ''Ready''" "co_Status c = ''True''"
  shows "\<exists>deployment items. pj_deployment env 0 = Inr deployment \<and> pj_routes env 0 = Inr items
    \<and> Fresh (dc_DataPlane deployment) (st_AppliedSnapshot (dc_Status deployment)) now
    \<and> carries (pj_DeploymentID env) (pd_Publication item) (dc_Meta deployment)
    \<and> (\<forall>r \<in> set (gs_Routes (pd_Payload item)). \<exists>obj \<in> set items. om_Name (mr_Meta obj) = ''model-'' @ rt_ModelID r \<and> routeSpec env r = Inr (mr_Spec obj)
         \<and> carries (pj_DeploymentID env) (pd_Publication item) (mr_Meta obj) \<and> st_ObservedPublication (mr_Status obj) = Some (publicationRef (pd_Publication item))
         \<and> st_AppliedSnapshot (mr_Status obj) = st_AppliedSnapshot (dc_Status deployment))"
proof -
  let ?p = "pd_Publication item" and ?dep = "pj_DeploymentID env"
  let ?object = "\<lambda>items i. case indexRoutes items (''model-'' @ i) of None \<Rightarrow> \<lparr> oo_object = fresh_meta [], oo_status = no_status \<rparr> | Some r \<Rightarrow> \<lparr> oo_object = mr_Meta r, oo_status = mr_Status r \<rparr>"
  obtain desired deployment items more where o': "desiredRoutes env item = Inr desired" "pj_deployment env 0 = Inr deployment" "pj_routes env 0 = Inr items"
    "\<forall>(i, spec) \<in> set desired. \<exists>r. indexRoutes items (''model-'' @ i) = Some r \<and> mr_Spec r = spec"
    "cs = conclude ?dep now deployment ?p (\<lparr> oo_object = dc_Meta deployment, oo_status = dc_Status deployment \<rparr> # map (\<lambda>(i, _). ?object items i) desired @ more)"
    using Observe_cases [OF assms(1,2,4)] .
  note ready = conclude_ready [OF assms(2) [unfolded o'(5)] assms(3,4)]
  have match: "carries ?dep ?p m" if "matchingObject ?dep \<lparr> oo_object = m, oo_status = s \<rparr> ?p" for m s
    using that desiredRoutes_spec(1) [OF o'(1)] by (intro checkMarker_carries) (simp_all add: matchingObject_def markers_def Let_def)
  have "\<exists>obj \<in> set items. om_Name (mr_Meta obj) = ''model-'' @ rt_ModelID r \<and> routeSpec env r = Inr (mr_Spec obj) \<and> carries ?dep ?p (mr_Meta obj)
      \<and> st_ObservedPublication (mr_Status obj) = Some (publicationRef ?p) \<and> st_AppliedSnapshot (mr_Status obj) = st_AppliedSnapshot (dc_Status deployment)"
    if mem: "r \<in> set (gs_Routes (pd_Payload item))" for r
  proof -
    obtain spec where s: "routeSpec env r = Inr spec" "(rt_ModelID r, spec) \<in> set desired" using desiredRoutes_spec(3) [OF o'(1) mem] map_of_SomeD by fast
    with o'(4) obtain obj where x: "indexRoutes items (''model-'' @ rt_ModelID r) = Some obj" "mr_Spec obj = spec" by fast
    have "?object items (rt_ModelID r) \<in> set (map (\<lambda>(i, _). ?object items i) desired)" using s(2) by force
    then have "?object items (rt_ModelID r) \<in> set (\<lparr> oo_object = dc_Meta deployment, oo_status = dc_Status deployment \<rparr> # map (\<lambda>(i, _). ?object items i) desired @ more)" by simp
    from bspec [OF ready(2) this] have "matchingObject ?dep \<lparr> oo_object = mr_Meta obj, oo_status = mr_Status obj \<rparr> ?p \<and> st_AppliedSnapshot (mr_Status obj) = st_AppliedSnapshot (dc_Status deployment)"
      using x(1) by (simp del: append_Cons)
    with match indexRoutes_Some [OF x(1)] s x(2) show ?thesis by (auto simp: matchingObject_def Let_def)
  qed
  moreover have "carries ?dep ?p (dc_Meta deployment)" using ready(2) match by (auto simp del: append_Cons)
  ultimately show ?thesis using o'(2,3) ready(1) by blast
qed

theorem ready_only_with_exact_evidence_witness:
  "\<exists>deployment. pj_deployment demo_ready_env 0 = Inr deployment \<and> Fresh (dc_DataPlane deployment) (st_AppliedSnapshot (dc_Status deployment)) 460"
proof -
  obtain cs c where o': "Observe demo_ready_env 460 demo_delivery = Some cs" "c \<in> set cs" "co_Type c = ''Ready''" "co_Status c = ''True''" using demo_observe by blast
  from ready_only_with_exact_evidence [OF o'] show ?thesis by blast
qed

end
