(* ===== verification/Spec2Isabelle.thy ===== *)
theory Spec2Isabelle
  imports Identifiers Retention License Delegation Projector
begin

text \<open>
  \<^bold>\<open>The Agent Enterprise Protocol services.\<close> The control service (\<^verbatim>\<open>services/control-service\<close>) keeps
  users, roles, teams, licenses, models and limits of a deployment in PostgreSQL and issues the tokens of user
  sessions. The gateway authorizer (\<^verbatim>\<open>services/gateway-authorizer\<close>) stands before the models: it checks the
  model token of each request, asks the control service whether session and license are still good, and forwards
  the request with headers it can vouch for. Routes and limits reach the gateway as publications, which a relay of
  the control service writes to Kubernetes resources. This development models the logic of these parts in HOL and
  proves what makes them correct. File names below are relative to \<^verbatim>\<open>services/\<close>; \<^verbatim>\<open>internal/\<close>
  alone is the one of the control service.

  \<^bold>\<open>Conventions.\<close> A Go string is a list of bytes, an instant a number of nanoseconds, an int64 an \<^typ>\<open>int\<close> with the
  overflow written out where it matters. A handler is a function of an environment and the tables; it returns the
  answer or the problem it writes and the new tables. An environment record holds what the code asks of others: the
  clock at each place it is read, random identifiers, whether a statement succeeds (so that every error path is a
  branch), and code that is not part of the repository (argon2, the JWT library, Ed25519, \<^verbatim>\<open>net/netip\<close>,
  \<^verbatim>\<open>encoding/json\<close>, the Kubernetes API). The laws used of such code are named hypotheses of the theorems, and each
  theorem with hypotheses has a witness on concrete data. A transaction is one step, because its locks and its
  isolation order it with the others; runs are sequences of such steps in any order. SHA-256 is defined in full, and
  statements that depend on it hold up to an explicit collision (\<open>sha_collision\<close>).

  \<^bold>\<open>Shared theories.\<close>
  \<^item> \<^verbatim>\<open>Aep_Prelude\<close>: bytes, runes and the functions of Go's packages strings, utf8, base64, hex and strconv
    that the services call, with their round trips.
  \<^item> \<^verbatim>\<open>Sha256\<close>: the digest on machine words, and the locale \<open>digest\<close> of names made from one.

  \<^bold>\<open>Identity and access.\<close>
  \<^item> \<^verbatim>\<open>Data_Scope\<close> (\<^verbatim>\<open>internal/app/datascope.go\<close>, teams of \<^verbatim>\<open>rbac_handlers.go\<close>): the
    department tree, the expansion of rules and the decision. The decision refines an abstract reading of the rules;
    the walk over the tree has no visited set and returns exactly on trees without a reachable cycle, which the team
    operations keep.
  \<^item> \<^verbatim>\<open>Passwords\<close>, \<^verbatim>\<open>Login_Throttle\<close> (\<^verbatim>\<open>internal/auth/password.go\<close>,
    \<^verbatim>\<open>internal/httpapi/auth_security.go\<close>, \<^verbatim>\<open>auth_handlers.go\<close>): stored hashes verify exactly their
    password, repeated failures lock out, a forwarded source cannot be forged, and one way a block ends early.
  \<^item> \<^verbatim>\<open>Token_Service\<close> (\<^verbatim>\<open>internal/auth/tokens.go\<close>): issuing and parsing; the three kinds of tokens
    never mix (the locales \<open>token_parser\<close> and \<open>token_parsers\<close>), and lifetimes are bounded.
  \<^item> \<^verbatim>\<open>Admin_Access\<close> (\<^verbatim>\<open>internal/httpapi/server.go\<close>, \<^verbatim>\<open>internal/app/app.go\<close>): routes,
    middlewares and the permission a path asks for; who is admitted, and a path that asks for too little.
  \<^item> \<^verbatim>\<open>Sessions\<close> (\<^verbatim>\<open>internal/app/app.go\<close>, \<^verbatim>\<open>auth_handlers.go\<close>): sessions with their refresh
    tokens. The locale \<open>stable\<close> lifts what a step keeps to runs; its interpretations show that an exchanged token
    and a revoked session stay dead.
  \<^item> \<^verbatim>\<open>Rbac_Store\<close>, \<^verbatim>\<open>Rbac\<close>, \<^verbatim>\<open>Delegation\<close> (\<^verbatim>\<open>internal/repository/rbac.go\<close>,
    \<^verbatim>\<open>identity.go\<close>, \<^verbatim>\<open>internal/httpapi/rbac_handlers.go\<close>, \<^verbatim>\<open>admin_users.go\<close>): every operation on
    roles, teams and users over the directory tables. \<^verbatim>\<open>Delegation\<close> proves, operation by operation, that nobody gains
    a permission that neither they nor the caller held (the locale \<open>delegated_system\<close>), and the one handler for which
    this fails.
  \<^item> \<^verbatim>\<open>License\<close> (\<^verbatim>\<open>internal/license/verifier.go\<close>, the license handlers, \<^verbatim>\<open>license_status.go\<close>):
    canonical JSON, verification, registration, activation and revocation, the status answer for the gateway.
  \<^item> \<^verbatim>\<open>Identifiers\<close> (\<^verbatim>\<open>identifier_slug.go\<close>, \<^verbatim>\<open>skill_validation.go\<close>) and \<^verbatim>\<open>Retention\<close>
    (\<^verbatim>\<open>internal/app/retention.go\<close>): derived names; a cleanup that spares live rows and drains the rest (the locale \<open>cleaner\<close>).

  \<^bold>\<open>Gateway.\<close>
  \<^item> \<^verbatim>\<open>Gateway_Policy\<close>, \<^verbatim>\<open>Gateway_Limits\<close> (\<^verbatim>\<open>services/internal/gatewaypolicy\<close>,
    \<^verbatim>\<open>internal/httpapi/gateway_limits.go\<close>): limits, the headers that count a request, and versioned updates.
  \<^item> \<^verbatim>\<open>Gateway_Source\<close> (\<^verbatim>\<open>services/internal/gatewaysource\<close>): monitoring queries that stay in their tenant.
  \<^item> \<^verbatim>\<open>Authorizer\<close> (\<^verbatim>\<open>gateway-authorizer/internal/gateway\<close>): the request handler with the verifier and
    its caches. A request is forwarded only when authorized, with trusted headers; hop-by-hop headers are removed
    before the trusted ones are set. Revocation takes effect within the lifetime of the caches.
  \<^item> \<^verbatim>\<open>Catalog\<close> (\<^verbatim>\<open>internal/httpapi/data_plane_publish.go\<close>, \<^verbatim>\<open>data_plane_handlers.go\<close>): routes
    derived from the model catalog and the stored desired state.
  \<^item> \<^verbatim>\<open>Publications\<close> (\<^verbatim>\<open>internal/repository/data_plane_publications.go\<close> and its neighbours, their
    handlers, \<^verbatim>\<open>publicationrelay/worker.go\<close>): the outbox as a step relation \<open>pub_step\<close> with an invariant of its
    tables; idempotency keys, fencing of claims, superseded intents, removed references, and delivery.
  \<^item> \<^verbatim>\<open>Projector\<close> (\<^verbatim>\<open>publicationrelay/projector.go\<close>, \<^verbatim>\<open>policies.go\<close>, \<^verbatim>\<open>observer.go\<close>): one
    attempt as the list of its writes under the answers of its reads. Given an API server with optimistic
    concurrency (\<open>optimistic_api\<close>), delayed attempts never overwrite newer ones.

  This theory joins the authorizer with the control service: a forwarded request was entitled.

  \<^bold>\<open>Loops and fuel.\<close> Loops over data are structural recursions or have a termination proof. The tree walk of
  \<^verbatim>\<open>Data_Scope\<close> is a partial function into \<^typ>\<open>'a option\<close>, and when it returns is a theorem. No definition uses fuel.

  \<^bold>\<open>Not modelled.\<close> Process start-up, configuration loading, logging and the command line; object storage, generated
  code and SQL migrations beyond the constraints the operations rely on; Skill packages, assets, provider credentials,
  the directory view, model prices and health probes, the audit middleware, deployment settings and compute resources;
  the opt-in relay of model access grants; the gateway operator and the reconciler, which render cluster resources.
  Timeouts of requests and the effect of a process crash within a transaction appear only as failing statements.
\<close>

section \<open>Authorizer and control service together\<close>

text \<open>The control service at the moment of a status call: its environment, the session tables, the hashes
  of the refresh-token table and the license tables.\<close>

record control =
  ct_env :: license_env
  ct_sessions :: session_db
  ct_hashes :: "string list"
  ct_licenses :: license_db

text \<open>The request \<^verbatim>\<open>CheckEntitlement\<close> sends, as the handler reads its headers.\<close>

definition status_request_of :: "Verifier \<Rightarrow> ModelClaims \<Rightarrow> string \<Rightarrow> status_request" where
  "status_request_of v c m = \<lparr> sr_Token = v_licenseStatusToken v, sr_DeploymentID = mc_DeploymentID c, sr_UserID = mc_Subject c,
     sr_SessionID = mc_SessionID c, sr_ModelID = m \<rparr>"

text \<open>The network is authentic: when the authorizer reads an active answer to a status call, the handler of
  the control service gave that answer, to that request, on the tables of that moment.\<close>

definition status_calls_reach :: "(authz_env \<Rightarrow> control) \<Rightarrow> string \<Rightarrow> Verifier \<Rightarrow> authz_env \<Rightarrow> bool" where
  "status_calls_reach world tok v env \<longleftrightarrow>
     (\<forall>endpoint c m data dig dep. ae_join_path env (v_licenseStatusURL v) (mc_LicenseID c) = Some endpoint
        \<and> ae_status env endpoint c m = Reply 200 (Some data) \<and> ae_status_decode env (take 16384 data) = Some (True, dig, dep)
      \<longrightarrow> (let w = world env in
           \<exists>reply. internalLicenseStatus (ct_env w) tok (status_request_of v c m) (mc_LicenseID c) (ct_sessions w) (ct_hashes w) (ct_licenses w)
                     = Answered reply
             \<and> sp_active reply \<and> sp_digest reply = Some dig \<and> sp_deploymentId reply = Some dep))"

text \<open>PostgreSQL stores no NUL bytes.\<close>

definition no_nul :: "string \<Rightarrow> bool" where
  "no_nul s \<longleftrightarrow> CHR 0x00 \<notin> set s"

definition stored_text :: "control \<Rightarrow> bool" where
  "stored_text w \<longleftrightarrow>
     (\<forall>l \<in> set (ld_licenses (ct_licenses w)). no_nul (lr_LicenseID l) \<and> no_nul (lr_DeploymentID l) \<and> no_nul (lr_Digest l))
   \<and> (\<forall>k s. sd_sessions (ct_sessions w) k = Some s \<longrightarrow> no_nul k \<and> no_nul (s_UserID s))
   \<and> (\<forall>m \<in> set (d_models (se_directory (ct_env w))). no_nul (m_ID m))"

text \<open>What the database says about a principal who may use a model.\<close>

definition entitled :: "control \<Rightarrow> string \<Rightarrow> string \<Rightarrow> string \<Rightarrow> string \<Rightarrow> string \<Rightarrow> string \<Rightarrow> bool" where
  "entitled w dep license dig user sid model \<longleftrightarrow>
     (\<exists>l \<in> set (ld_licenses (ct_licenses w)). lr_DeploymentID l = dep \<and> lr_LicenseID l = license \<and> lr_Digest l = dig \<and> lr_Status l = ''active''
        \<and> (lr_ExpiresAt l = None \<or> (\<exists>g. lr_GraceEndsAt l = Some g \<and> se_clock (ct_env w) ''license'' \<le> g)))
   \<and> \<not> dead_session sid (ct_sessions w)
   \<and> (\<exists>u \<in> set (d_users (se_directory (ct_env w))). u_DeploymentID u = dep \<and> u_ID u = user \<and> u_Status u = ''active'')
   \<and> (\<exists>h t. sd_tokens (ct_sessions w) h = Some t \<and> rt_SessionID t = sid \<and> rt_RevokedAt t = None \<and> se_clock (ct_env w) ''entitled'' < rt_ExpiresAt t)
   \<and> model_granted (se_directory (ct_env w)) (se_clock (ct_env w) ''entitled'') dep user model"

lemma session_entitled_granted:
  assumes "session_entitled d db hashes now dep sid user model"
  shows "\<exists>s. sd_sessions db sid = Some s \<and> s_UserID s = user \<and> s_RevokedAt s = None"
    "\<exists>u \<in> set (d_users d). u_DeploymentID u = dep \<and> u_ID u = user \<and> u_Status u = ''active''"
    "\<exists>m \<in> set (d_models d). m_ID m = model"
    "\<exists>h t. sd_tokens db h = Some t \<and> rt_SessionID t = sid \<and> rt_RevokedAt t = None \<and> now < rt_ExpiresAt t"
    "model_granted d now dep user model"
proof -
  obtain s where s: "sd_sessions db sid = Some s" "s_UserID s = user" "s_RevokedAt s = None"
    using assms by (auto simp: session_entitled_def split: option.splits)
  then show "\<exists>s. sd_sessions db sid = Some s \<and> s_UserID s = user \<and> s_RevokedAt s = None" by blast
  note e = assms [unfolded session_entitled_def s(1) option.case list_ex_iff]
  from e show u: "\<exists>u \<in> set (d_users d). u_DeploymentID u = dep \<and> u_ID u = user \<and> u_Status u = ''active''" by blast
  from e show "\<exists>m \<in> set (d_models d). m_ID m = model" by blast
  from e show "\<exists>h t. sd_tokens db h = Some t \<and> rt_SessionID t = sid \<and> rt_RevokedAt t = None \<and> now < rt_ExpiresAt t"
    by (auto split: option.splits)
  from e u have "model \<in> set (ModelScopes d now dep user)" unfolding ModelScopes_def by auto
  then show "model_granted d now dep user model" by (simp add: ModelScopes_iff)
qed

lemma active_answer_entitled:
  assumes link: "status_calls_reach world tok v env" and text_ok: "stored_text (world env)" and ans: "status_answer env v c m = Some True"
  shows "entitled (world env) (mc_DeploymentID c) (mc_LicenseID c) (mc_LicenseDigest c) (mc_Subject c) (mc_SessionID c) m \<and> nul_free c m"
proof -
  let ?w = "world env"
  obtain endpoint data where io: "ae_join_path env (v_licenseStatusURL v) (mc_LicenseID c) = Some endpoint"
    "ae_status env endpoint c m = Reply 200 (Some data)" "ae_status_decode env (take 16384 data) = Some (True, mc_LicenseDigest c, mc_DeploymentID c)"
    using ans by (auto simp: status_answer_def split: option.splits http_reply.splits if_splits prod.splits)
  then obtain reply where r: "internalLicenseStatus (ct_env ?w) tok (status_request_of v c m) (mc_LicenseID c) (ct_sessions ?w) (ct_hashes ?w) (ct_licenses ?w)
      = Answered reply" "sp_active reply" "sp_digest reply = Some (mc_LicenseDigest c)"
    using link unfolding status_calls_reach_def Let_def by blast
  have rq: "sr_DeploymentID (status_request_of v c m) = mc_DeploymentID c" "sr_UserID (status_request_of v c m) = mc_Subject c"
    "sr_SessionID (status_request_of v c m) = mc_SessionID c" "sr_ModelID (status_request_of v c m) = m"
    by (simp_all add: status_request_of_def)
  from r(1,2) show ?thesis
  proof (rule internalLicenseStatus_live, unfold rq)
    fix l
    assume l: "l \<in> set (ld_licenses (ct_licenses ?w))" "lr_DeploymentID l = mc_DeploymentID c" "lr_LicenseID l = mc_LicenseID c" "lr_Status l = ''active''"
      "lr_ExpiresAt l = None \<or> (\<exists>g. lr_GraceEndsAt l = Some g \<and> se_clock (ct_env ?w) ''license'' \<le> g)"
      and s: "session_entitled (se_directory (ct_env ?w)) (ct_sessions ?w) (ct_hashes ?w) (se_clock (ct_env ?w) ''entitled'')
        (mc_DeploymentID c) (mc_SessionID c) (mc_Subject c) m"
      and d: "sp_digest reply = Some (lr_Digest l)"
    note g = session_entitled_granted [OF s]
    have "lr_Digest l = mc_LicenseDigest c" using d r(3) by simp
    with l g have "entitled ?w (mc_DeploymentID c) (mc_LicenseID c) (mc_LicenseDigest c) (mc_Subject c) (mc_SessionID c) m"
      unfolding entitled_def dead_session_iff by fastforce
    moreover have "no_nul (mc_LicenseID c) \<and> no_nul (mc_DeploymentID c) \<and> no_nul (mc_LicenseDigest c)"
      using text_ok l(1-3) \<open>lr_Digest l = mc_LicenseDigest c\<close> unfolding stored_text_def by metis
    moreover have "no_nul (mc_SessionID c) \<and> no_nul (mc_Subject c)" "no_nul m"
      using text_ok g(1,3) unfolding stored_text_def by metis+
    then have "nul_free c m" if "no_nul (mc_LicenseID c) \<and> no_nul (mc_DeploymentID c) \<and> no_nul (mc_LicenseDigest c)"
      using that by (simp add: nul_free_def no_nul_def)
    ultimately show ?thesis by blast
  qed
qed

text \<open>
  (C1) End to end. In production, with the authorizer's status calls served by the control service: if an
  inference request is forwarded to the gateway, then less than 15 seconds before, the database held, for
  the very license, deployment, user, session and model of the token: an active license with the
  token's digest that had not passed its grace period, a session that was not revoked and had a refresh
  token still valid, an active user, and a grant of the model to the user.
\<close>

theorem forwarded_request_was_entitled:
  assumes cfg: "Validate parse_url cfg" "ac_Environment cfg = ''production''" "0 < ac_LicenseStatusTTL cfg"
    and hn: "h_requireEntitlement hn = ac_RequireEntitlement cfg"
    and v0: "v0 = ConfigureLicenseStatus (ac_LicenseStatusURL cfg) (ac_LicenseStatusToken cfg) (ac_LicenseStatusTTL cfg) (NewVerifier issuer ttl)"
    and link: "\<forall>e \<in> insert env (fst ` set history). status_calls_reach world tok v0 e \<and> stored_text (world e)"
    and fwd: "ServeHTTP env hn req (serve_run hn history v0) = (Proxied H body, v')"
  shows "\<exists>raw claims v1 model env'. Verify env raw (serve_run hn history v0) = (Some claims, v1)
      \<and> H ''X-Aep-User-Id'' = Some [mc_Subject claims] \<and> H ''X-Aep-Model-Id'' = Some [model]
      \<and> env' \<in> insert env (fst ` set history) \<and> ae_now env < ae_now env' + 15 * second
      \<and> entitled (world env') (mc_DeploymentID claims) (mc_LicenseID claims) (mc_LicenseDigest claims) (mc_Subject claims) (mc_SessionID claims) model"
proof -
  obtain raw claims v1 model env' c m where vf: "Verify env raw (serve_run hn history v0) = (Some claims, v1)"
    "H ''X-Aep-User-Id'' = Some [mc_Subject claims]" "H ''X-Aep-Model-Id'' = Some [model]"
    and e: "env' \<in> insert env (fst ` set history)" "ae_now env < ae_now env' + 15 * second"
    and k: "status_key c m = status_key claims model" "status_answer env' v0 c m = Some True"
    using forwarded_backed_by_status [OF cfg hn v0 fwd] by blast
  have a: "entitled (world env') (mc_DeploymentID c) (mc_LicenseID c) (mc_LicenseDigest c) (mc_Subject c) (mc_SessionID c) m" "nul_free c m"
    using active_answer_entitled [OF _ _ k(2)] link e(1) by blast+
  from status_key_inject [OF k(1) a(2) status_key_nul_free [OF k(1) a(2)]] a(1) vf e show ?thesis by (metis (no_types, lifting))
qed

definition demo_control :: control where
  "demo_control = \<lparr> ct_env = (demo_license_env 0) \<lparr> se_directory := (demo_directory ''x'') \<lparr>
        d_users := [demo_user \<lparr> u_ID := ''alice'' \<rparr>], d_models := [\<lparr> m_DeploymentID = ''acme'', m_ID = ''gpt'', m_Enabled = True \<rparr>],
        d_model_assignments := [\<lparr> ma_DeploymentID = ''acme'', ma_ModelID = ''gpt'', ma_SubjectType = ''user'', ma_SubjectID = ''alice'', ma_ExpiresAt = None \<rparr>] \<rparr> \<rparr>,
     ct_sessions = \<lparr> sd_sessions = [''s1'' \<mapsto> demo_session \<lparr> s_UserID := ''alice'' \<rparr>],
        sd_tokens = [''h'' \<mapsto> \<lparr> rt_SessionID = ''s1'', rt_ExpiresAt = hour, rt_RevokedAt = None \<rparr>], sd_deliveries = [] \<rparr>,
     ct_hashes = [''h''], ct_licenses = \<lparr> ld_licenses = [demo_license_row \<lparr> lr_Digest := ''d'' \<rparr>], ld_activations = [], ld_audit = [] \<rparr> \<rparr>"

theorem forwarded_request_was_entitled_witness:
  "\<exists>H v'. ServeHTTP (demo_authz 0) demo_handler demo_request demo_verifier = (Proxied H ''body'', v')
     \<and> (\<exists>dep license dig user sid model. entitled demo_control dep license dig user sid model)"
proof -
  let ?parse = "\<lambda>_. Some \<lparr> url_Scheme = ''https'', url_Host = ''h'', url_User = False, url_RawQuery = [], url_Fragment = [] \<rparr>"
  have v: "Validate ?parse demo_config_prod" "ac_Environment demo_config_prod = ''production''" "0 < ac_LicenseStatusTTL demo_config_prod"
    "h_requireEntitlement demo_handler = ac_RequireEntitlement demo_config_prod"
    "demo_verifier = ConfigureLicenseStatus (ac_LicenseStatusURL demo_config_prod) (ac_LicenseStatusToken demo_config_prod)
       (ac_LicenseStatusTTL demo_config_prod) (NewVerifier ''http://issuer'' (5 * minute))"
    by (simp_all add: Validate_def absolute_http_def demo_config_prod_def demo_handler_def demo_verifier_def)
  have ent: "session_entitled (se_directory (ct_env demo_control)) (ct_sessions demo_control) [''h''] 0 ''acme'' ''s1'' ''alice'' ''gpt''"
    by (simp add: session_entitled_def demo_control_def demo_session_def demo_user_def assigned_def)
  have "internalLicenseStatus (ct_env demo_control) ''secret'' (status_request_of demo_verifier Authorizer.demo_claims ''gpt'') ''lic'' (ct_sessions demo_control)
      (ct_hashes demo_control) (ct_licenses demo_control) = Answered \<lparr> sp_active = True, sp_digest = Some ''d'', sp_deploymentId = Some ''acme'' \<rparr>"
    using ent by (simp add: internalLicenseStatus_def status_request_of_def demo_verifier_def ConfigureLicenseStatus_def Authorizer.demo_claims_def)
      (simp add: demo_control_def demo_license_row_def demo_license_env_def)
  then have "status_calls_reach (\<lambda>_. demo_control) ''secret'' demo_verifier (demo_authz 0)"
    by (auto simp: status_calls_reach_def demo_authz_def Authorizer.demo_claims_def split: if_splits)
  moreover have "stored_text demo_control"
    by (simp add: stored_text_def demo_control_def no_nul_def demo_license_row_def demo_session_def)
  ultimately have l: "\<forall>e \<in> insert (demo_authz 0) (fst ` set []). status_calls_reach (\<lambda>_. demo_control) ''secret'' demo_verifier e \<and> stored_text demo_control" by simp
  obtain H v' where p: "ServeHTTP (demo_authz 0) demo_handler demo_request (serve_run demo_handler [] demo_verifier) = (Proxied H ''body'', v')"
    using demo_proxied [of 0] unfolding serve_run.simps by blast
  from forwarded_request_was_entitled [OF v l p] p show ?thesis by (simp only: serve_run.simps) blast
qed

end
